(* ===== verification/Utf8.thy ===== *)
theory Utf8
  imports Prelude
begin

text \<open>
  UTF-8 as \<open>std::str::from_utf8\<close> accepts it (no overlong forms, no surrogates, nothing
  above U+10FFFF), and the Unicode white space \<open>str::trim\<close> and
  \<open>str::split_whitespace\<close> recognise, both over the bytes of a string.
\<close>

definition cont_byte :: "char \<Rightarrow> bool" where
  "cont_byte c \<longleftrightarrow> 128 \<le> byte c \<and> byte c \<le> 191"

definition second_ok :: "nat \<Rightarrow> nat \<Rightarrow> bool" where
  "second_ok b0 b1 \<longleftrightarrow>
     (if b0 = 224 then 160 \<le> b1 \<and> b1 \<le> 191
      else if b0 = 237 then 128 \<le> b1 \<and> b1 \<le> 159
      else if b0 = 240 then 144 \<le> b1 \<and> b1 \<le> 191
      else if b0 = 244 then 128 \<le> b1 \<and> b1 \<le> 143
      else 128 \<le> b1 \<and> b1 \<le> 191)"

text \<open>The first scalar value of a byte string and the number of bytes it takes.\<close>

fun utf8_next :: "string \<Rightarrow> (nat \<times> nat) option" where
  "utf8_next [] = None"
| "utf8_next (a # s) =
     (let b0 = byte a in
      if b0 < 128 then Some (b0, 1)
      else if 194 \<le> b0 \<and> b0 \<le> 223 then
        (case s of
           b # _ \<Rightarrow>
             if cont_byte b then Some ((b0 - 192) * 64 + (byte b - 128), 2) else None
         | _ \<Rightarrow> None)
      else if 224 \<le> b0 \<and> b0 \<le> 239 then
        (case s of
           b # c # _ \<Rightarrow>
             if second_ok b0 (byte b) \<and> cont_byte c
             then Some ((b0 - 224) * 4096 + (byte b - 128) * 64 + (byte c - 128), 3) else None
         | _ \<Rightarrow> None)
      else if 240 \<le> b0 \<and> b0 \<le> 244 then
        (case s of
           b # c # d # _ \<Rightarrow>
             if second_ok b0 (byte b) \<and> cont_byte c \<and> cont_byte d
             then Some ((b0 - 240) * 262144 + (byte b - 128) * 4096 + (byte c - 128) * 64
                        + (byte d - 128), 4) else None
         | _ \<Rightarrow> None)
      else None)"

lemma utf8_next_length: "utf8_next s = Some (c, n) \<Longrightarrow> 0 < n \<and> n \<le> length s"
  by (cases s) (auto simp: Let_def split: if_splits list.splits)

lemma utf8_next_ascii: "byte a < 128 \<Longrightarrow> utf8_next (a # s) = Some (byte a, 1)"
  by simp

function utf8_valid :: "string \<Rightarrow> bool" where
  "utf8_valid s \<longleftrightarrow>
     s = [] \<or> (case utf8_next s of None \<Rightarrow> False | Some (c, n) \<Rightarrow> utf8_valid (drop n s))"
  by pat_completeness auto
termination
  by (relation "measure length") (auto dest!: utf8_next_length)

declare utf8_valid.simps [simp del]

declare utf8_next.simps(2) [simp del]

lemma utf8_valid_Nil [simp]: "utf8_valid []"
  by (subst utf8_valid.simps) simp

lemma utf8_valid_ascii_Cons [simp]: "byte a < 128 \<Longrightarrow> utf8_valid (a # s) \<longleftrightarrow> utf8_valid s"
  by (subst utf8_valid.simps) (simp add: utf8_next_ascii)

lemma utf8_valid_next: "utf8_valid s \<Longrightarrow> s \<noteq> [] \<Longrightarrow> \<exists>c n. utf8_next s = Some (c, n)"
  by (subst (asm) utf8_valid.simps) (auto split: option.splits)

text \<open>
  The number of bytes of the white space character at the front of a string, 0 if there
  is none. The lead bytes of the non-ASCII white space characters are never continuation
  bytes, so the test is exact at every position of a valid string.
\<close>

fun white_space_len :: "string \<Rightarrow> nat" where
  "white_space_len [] = 0"
| "white_space_len (a # s) =
     (if byte a \<in> {9, 10, 11, 12, 13, 32} then 1
      else (case s of
              b # s' \<Rightarrow>
                if byte a = 194 \<and> byte b \<in> {133, 160} then 2
                else (case s' of
                        c # _ \<Rightarrow>
                          if (byte a, byte b, byte c) \<in> {(225, 154, 128), (226, 129, 159), (227, 128, 128)}
                             \<or> (byte a = 226 \<and> byte b = 128
                                \<and> (128 \<le> byte c \<and> byte c \<le> 138 \<or> byte c \<in> {168, 169, 175}))
                          then 3 else 0
                      | [] \<Rightarrow> 0)
            | [] \<Rightarrow> 0))"

lemma white_space_len_le: "white_space_len s \<le> length s"
  by (cases s) (auto split: list.splits)

lemma white_space_len_ascii:
  "byte a < 128 \<Longrightarrow> white_space_len (a # s) = (if byte a \<in> {9, 10, 11, 12, 13, 32} then 1 else 0)"
  by (auto split: list.splits)

declare white_space_len.simps(2) [simp del]

text \<open>\<open>str::split_whitespace\<close>: the non-empty words between runs of white space.\<close>

function words_from :: "string \<Rightarrow> string \<Rightarrow> string list" where
  "words_from word s =
     (case s of
        [] \<Rightarrow> if word = [] then [] else [word]
      | a # s' \<Rightarrow>
          if white_space_len s > 0
          then (if word = [] then [] else [word]) @ words_from [] (drop (white_space_len s) s)
          else words_from (word @ [a]) s')"
  by pat_completeness auto
termination
  by (relation "measure (\<lambda>(word, s). length s)") (auto simp: white_space_len_le)

declare words_from.simps [simp del]

definition split_whitespace :: "string \<Rightarrow> string list" where
  "split_whitespace s = words_from [] s"

lemma words_from_ascii [simp]:
  "words_from word [] = (if word = [] then [] else [word])"
  "byte a < 128 \<Longrightarrow> words_from word (a # s) =
     (if byte a \<in> {9, 10, 11, 12, 13, 32}
      then (if word = [] then [] else [word]) @ words_from [] s
      else words_from (word @ [a]) s)"
  by (subst words_from.simps; simp add: white_space_len_ascii)+

lemma words_from_neq_Nil: "w \<in> set (words_from word s) \<Longrightarrow> w \<noteq> []"
proof (induction word s rule: words_from.induct)
  case (1 word s)
  then show ?case
    by (subst (asm) words_from.simps) (auto split: list.splits if_splits)
qed

text \<open>\<open>str::trim_start\<close>, \<open>str::trim\<close> (a trailing white space character ends the string).\<close>

function trim_start :: "string \<Rightarrow> string" where
  "trim_start s = (if white_space_len s > 0 then trim_start (drop (white_space_len s) s) else s)"
  by pat_completeness auto
termination
proof (relation "measure length")
  fix s :: string
  assume "0 < white_space_len s"
  with white_space_len_le [of s] show "(drop (white_space_len s) s, s) \<in> measure length"
    by simp
qed simp

declare trim_start.simps [simp del]

definition white_space_suffix :: "string \<Rightarrow> nat" where
  "white_space_suffix s =
     (if s \<noteq> [] \<and> white_space_len (drop (length s - 1) s) = 1 then 1
      else if 2 \<le> length s \<and> white_space_len (drop (length s - 2) s) = 2 then 2
      else if 3 \<le> length s \<and> white_space_len (drop (length s - 3) s) = 3 then 3
      else 0)"

function trim_end :: "string \<Rightarrow> string" where
  "trim_end s =
     (if white_space_suffix s > 0 then trim_end (take (length s - white_space_suffix s) s) else s)"
  by pat_completeness auto
termination
  by (relation "measure length") (auto simp: white_space_suffix_def split: if_splits)

declare trim_end.simps [simp del]

definition trim :: "string \<Rightarrow> string" where
  "trim s = trim_end (trim_start s)"

end
