(* ===== verification/Guest_Json.thy ===== *)
theory Guest_Json
  imports Utf8
begin

text \<open>
  The JSON scanner of the guest shutdown helper (src/guest/docker-shutdown.rs, lines 48 to
  367): a cursor over the bytes of \<open>daemon.json\<close> that checks the whole document, locates
  one top-level member and splices a new value over it. A cursor is a position; every
  scanner takes the bytes and a position and returns the position after what it consumed.

  A decoded key is the list of its scalar values. \<open>json_value\<close> and its loops take fuel;
  \<open>value_fuel\<close> is the amount the callers give, and it always suffices.
\<close>

section \<open>The scanner\<close>

datatype error = Message string | OutOfFuel

type_synonym 'a scan = "('a, error) result"

abbreviation fail :: "string \<Rightarrow> 'a scan" where
  "fail message \<equiv> Err (Message message)"

record located_value =
  start :: nat
  stop :: nat
  boolean :: "bool option"

function whitespace :: "string \<Rightarrow> nat \<Rightarrow> nat" where
  "whitespace data at =
     (case get data at of
        Some b \<Rightarrow> if is_ascii_whitespace b then whitespace data (at + 1) else at
      | None \<Rightarrow> at)"
  by pat_completeness auto
termination
  by (relation "measure (\<lambda>(data, at). length data - at)") (auto dest: get_SomeD)

declare whitespace.simps [simp del]

definition json_byte :: "string \<Rightarrow> char \<Rightarrow> nat \<Rightarrow> nat scan" where
  "json_byte data expected at =
     (let at = whitespace data at in
      if get data at \<noteq> Some expected then fail ''invalid JSON'' else Ok (at + 1))"

definition slice :: "string \<Rightarrow> nat \<Rightarrow> nat \<Rightarrow> string" where
  "slice data i j = take (j - i) (drop i data)"

definition hex_digit :: "char \<Rightarrow> nat option" where
  "hex_digit c =
     (if is_ascii_digit c then Some (byte c - 48)
      else if 97 \<le> byte c \<and> byte c \<le> 102 then Some (byte c - 87)
      else if 65 \<le> byte c \<and> byte c \<le> 70 then Some (byte c - 55)
      else None)"

fun hex_value :: "nat \<Rightarrow> string \<Rightarrow> nat option" where
  "hex_value acc [] = Some acc"
| "hex_value acc (c # cs) =
     (case hex_digit c of None \<Rightarrow> None | Some d \<Rightarrow> hex_value (acc * 16 + d) cs)"

text \<open>\<open>u32::from_str_radix(digits, 16)\<close> of four bytes: a leading plus sign is allowed.\<close>

definition from_str_radix_16 :: "string \<Rightarrow> nat option" where
  "from_str_radix_16 digits =
     (case digits of
        [] \<Rightarrow> None
      | c # cs \<Rightarrow> if c = CHR ''+'' \<and> cs \<noteq> [] then hex_value 0 cs else hex_value 0 digits)"

text \<open>
  The \<open>u\<close> arm of \<open>decode_json_string\<close>: the scalar value and the position of the
  escape's last byte.
\<close>

definition unicode_digits :: "string \<Rightarrow> nat \<Rightarrow> nat scan" where
  "unicode_digits bytes at =
     (case get_range bytes at (at + 4) of
        None \<Rightarrow> fail ''invalid Unicode escape''
      | Some digits \<Rightarrow> ok_or (from_str_radix_16 digits) (Message ''invalid Unicode escape''))"

definition decode_unicode :: "string \<Rightarrow> nat \<Rightarrow> (nat \<times> nat) scan" where
  "decode_unicode bytes at =
     and_then (unicode_digits bytes (at + 1)) (\<lambda>value.
       if 0xd800 \<le> value \<and> value \<le> 0xdbff then
         (if get_range bytes (at + 5) (at + 7) \<noteq> Some [CHR 0x5C, CHR ''u'']
          then fail ''unpaired Unicode surrogate''
          else and_then (unicode_digits bytes (at + 7)) (\<lambda>low.
            if \<not> (0xdc00 \<le> low \<and> low \<le> 0xdfff) then fail ''unpaired Unicode surrogate''
            else Ok (0x10000 + (value - 0xd800) * 1024 + (low - 0xdc00), at + 10)))
       else if 0xdc00 \<le> value \<and> value \<le> 0xdfff then fail ''unpaired Unicode surrogate''
       else Ok (value, at + 4))"

definition decode_escape :: "string \<Rightarrow> nat \<Rightarrow> (nat \<times> nat) scan" where
  "decode_escape bytes at =
     (case get bytes at of
        None \<Rightarrow> fail ''invalid JSON escape''
      | Some c \<Rightarrow>
          if c = CHR 0x22 then Ok (0x22, at)
          else if c = CHR 0x5C then Ok (0x5C, at)
          else if c = CHR ''/'' then Ok (0x2F, at)
          else if c = CHR ''b'' then Ok (8, at)
          else if c = CHR ''f'' then Ok (12, at)
          else if c = CHR ''n'' then Ok (10, at)
          else if c = CHR ''r'' then Ok (13, at)
          else if c = CHR ''t'' then Ok (9, at)
          else if c = CHR ''u'' then decode_unicode bytes at
          else fail ''invalid JSON escape'')"

lemma decode_escape_ge: "decode_escape bytes at = Ok (c, at') \<Longrightarrow> at \<le> at'"
  by (auto simp: decode_escape_def decode_unicode_def split: option.splits if_splits)

function decode_from :: "string \<Rightarrow> nat \<Rightarrow> nat list \<Rightarrow> nat list scan" where
  "decode_from bytes at out =
     (if at + 1 < length bytes then
        (if bytes ! at \<noteq> CHR 0x5C then
           (let rest = slice bytes at (length bytes - 1) in
            if \<not> utf8_valid rest then fail ''invalid UTF-8 in JSON string''
            else (case utf8_next rest of
                    None \<Rightarrow> fail ''invalid UTF-8 in JSON string''
                  | Some (ch, n) \<Rightarrow> decode_from bytes (at + n) (out @ [ch])))
         else
           (case decode_escape bytes (at + 1) of
              Err e \<Rightarrow> Err e
            | Ok (ch, at') \<Rightarrow> decode_from bytes (at' + 1) (out @ [ch])))
      else Ok out)"
  by pat_completeness auto
termination
  by (relation "measure (\<lambda>(bytes, at, out). length bytes - at)")
    (auto dest!: utf8_next_length decode_escape_ge)

declare decode_from.simps [simp del]

definition decode_json_string :: "string \<Rightarrow> nat list scan" where
  "decode_json_string bytes = decode_from bytes 1 []"

text \<open>The scanning loop of \<open>Json::string\<close>, from the byte after the opening quote.\<close>

function string_from :: "string \<Rightarrow> nat \<Rightarrow> nat \<Rightarrow> (nat list \<times> nat) scan" where
  "string_from data quote at =
     (case get data at of
        None \<Rightarrow> fail ''unterminated JSON string''
      | Some b \<Rightarrow>
          if b = CHR 0x22 then
            and_then (decode_json_string (slice data quote (at + 1))) (\<lambda>key. Ok (key, at + 1))
          else if b = CHR 0x5C then
            (let at = at + 2;
                 at = (if get data (at - 1) = Some (CHR ''u'') then at + 4 else at)
             in if at > length data then fail ''unterminated JSON string''
                else string_from data quote at)
          else if byte b \<le> 0x1f then fail ''control byte in JSON string''
          else string_from data quote (at + 1))"
  by pat_completeness auto
termination
  by (relation "measure (\<lambda>(data, quote, at). length data - at)") (auto dest: get_SomeD)

declare string_from.simps [simp del]

definition json_string :: "string \<Rightarrow> nat \<Rightarrow> (nat list \<times> nat) scan" where
  "json_string data at =
     (let at = whitespace data at in
      if get data at \<noteq> Some (CHR 0x22) then fail ''invalid JSON string''
      else string_from data at (at + 1))"

function skip_digits :: "string \<Rightarrow> nat \<Rightarrow> nat" where
  "skip_digits data at =
     (case get data at of
        Some b \<Rightarrow> if is_ascii_digit b then skip_digits data (at + 1) else at
      | None \<Rightarrow> at)"
  by pat_completeness auto
termination
  by (relation "measure (\<lambda>(data, at). length data - at)") (auto dest: get_SomeD)

declare skip_digits.simps [simp del]

definition at_any :: "string \<Rightarrow> nat \<Rightarrow> string \<Rightarrow> bool" where
  "at_any data at cs \<longleftrightarrow> (case get data at of Some b \<Rightarrow> b \<in> set cs | None \<Rightarrow> False)"

definition at_digit :: "string \<Rightarrow> nat \<Rightarrow> bool" where
  "at_digit data at \<longleftrightarrow> (case get data at of Some b \<Rightarrow> is_ascii_digit b | None \<Rightarrow> False)"

text \<open>One or more digits, as after the decimal point and in the exponent.\<close>

definition some_digits :: "string \<Rightarrow> nat \<Rightarrow> nat scan" where
  "some_digits data at =
     (let at' = skip_digits data at in
      if at' = at then fail ''invalid JSON number'' else Ok at')"

definition number_integer :: "string \<Rightarrow> nat \<Rightarrow> nat scan" where
  "number_integer data at =
     (if get data at = Some (CHR ''0'') then
        (if at_digit data (at + 1) then fail ''invalid JSON number'' else Ok (at + 1))
      else if at_digit data at then Ok (skip_digits data (at + 1))
      else fail ''invalid JSON number'')"

definition number_fraction :: "string \<Rightarrow> nat \<Rightarrow> nat scan" where
  "number_fraction data at =
     (if get data at = Some (CHR ''.'') then some_digits data (at + 1) else Ok at)"

definition number_exponent :: "string \<Rightarrow> nat \<Rightarrow> nat scan" where
  "number_exponent data at =
     (if at_any data at ''eE''
      then some_digits data (if at_any data (at + 1) ''+-'' then at + 2 else at + 1)
      else Ok at)"

definition json_number :: "string \<Rightarrow> nat \<Rightarrow> nat scan" where
  "json_number data at =
     (let at = (if get data at = Some (CHR ''-'') then at + 1 else at) in
      and_then (number_integer data at) (\<lambda>at.
      and_then (number_fraction data at) (\<lambda>at.
      number_exponent data at)))"

text \<open>The arms of the match on the first byte of a value.\<close>

datatype value_arm =
    StringArm
  | ObjectArm
  | ArrayArm
  | LiteralArm "bool option" nat
  | NumberArm
  | InvalidArm

definition value_arm :: "string \<Rightarrow> nat \<Rightarrow> value_arm" where
  "value_arm data at =
     (case get data at of
        None \<Rightarrow> InvalidArm
      | Some b \<Rightarrow>
          if b = CHR 0x22 then StringArm
          else if b = CHR ''{'' then ObjectArm
          else if b = CHR ''['' then ArrayArm
          else if b = CHR ''t'' \<and> get_range data at (at + 4) = Some ''true''
          then LiteralArm (Some True) 4
          else if b = CHR ''f'' \<and> get_range data at (at + 5) = Some ''false''
          then LiteralArm (Some False) 5
          else if b = CHR ''n'' \<and> get_range data at (at + 4) = Some ''null''
          then LiteralArm None 4
          else if b = CHR ''-'' \<or> is_ascii_digit b then NumberArm
          else InvalidArm)"

fun json_value :: "nat \<Rightarrow> string \<Rightarrow> nat \<Rightarrow> nat \<Rightarrow> (bool option \<times> nat) scan"
and json_members :: "nat \<Rightarrow> string \<Rightarrow> nat \<Rightarrow> nat list list \<Rightarrow> nat \<Rightarrow> nat scan"
and json_elements :: "nat \<Rightarrow> string \<Rightarrow> nat \<Rightarrow> nat \<Rightarrow> nat scan" where
  "json_value 0 data depth at = Err OutOfFuel"
| "json_value (Suc fuel) data depth at =
     (if depth > 64 then fail ''JSON nesting exceeds 64 levels''
      else let at = whitespace data at in
        (case value_arm data at of
           StringArm \<Rightarrow> and_then (json_string data at) (\<lambda>(_, at). Ok (None, at))
         | ObjectArm \<Rightarrow>
             (let at = whitespace data (at + 1) in
              if get data at = Some (CHR ''}'') then Ok (None, at + 1)
              else and_then (json_members fuel data depth [] at) (\<lambda>at. Ok (None, at)))
         | ArrayArm \<Rightarrow>
             (let at = whitespace data (at + 1) in
              if get data at = Some (CHR '']'') then Ok (None, at + 1)
              else and_then (json_elements fuel data depth at) (\<lambda>at. Ok (None, at)))
         | LiteralArm literal width \<Rightarrow> Ok (literal, at + width)
         | NumberArm \<Rightarrow> and_then (json_number data at) (\<lambda>at. Ok (None, at))
         | InvalidArm \<Rightarrow> fail ''invalid JSON value''))"
| "json_members 0 data depth keys at = Err OutOfFuel"
| "json_members (Suc fuel) data depth keys at =
     and_then (json_string data at) (\<lambda>(key, at).
     if key \<in> set keys then fail ''duplicate Docker configuration key''
     else and_then (json_byte data (CHR '':'') at) (\<lambda>at.
     and_then (json_value fuel data (depth + 1) at) (\<lambda>(_, at).
       let at = whitespace data at in
       if get data at = Some (CHR '','') then json_members fuel data depth (key # keys) (at + 1)
       else if get data at = Some (CHR ''}'') then Ok (at + 1)
       else fail ''invalid JSON object'')))"
| "json_elements 0 data depth at = Err OutOfFuel"
| "json_elements (Suc fuel) data depth at =
     and_then (json_value fuel data (depth + 1) at) (\<lambda>(_, at).
       let at = whitespace data at in
       if get data at = Some (CHR '','') then json_elements fuel data depth (at + 1)
       else if get data at = Some (CHR '']'') then Ok (at + 1)
       else fail ''invalid JSON array'')"

definition value_fuel :: "string \<Rightarrow> nat" where
  "value_fuel data = 2 * length data + 2"

definition value_at :: "string \<Rightarrow> nat \<Rightarrow> nat \<Rightarrow> (bool option \<times> nat) scan" where
  "value_at data depth at = json_value (value_fuel data) data depth at"

section \<open>Progress: a successful scan moves forward inside the document\<close>

lemma whitespace_ge: "at \<le> whitespace data at"
proof (induction data at rule: whitespace.induct)
  case (1 data at)
  then show ?case
    by (subst whitespace.simps) (auto split: option.splits)
qed

lemma whitespace_stop:
  "get data (whitespace data at) = Some b \<Longrightarrow> \<not> is_ascii_whitespace b"
proof (induction data at rule: whitespace.induct)
  case (1 data at)
  show ?case
  proof (cases "get data at")
    case None
    with 1 show ?thesis by (simp add: whitespace.simps [of data at])
  next
    case (Some c)
    with 1 show ?thesis
      by (cases "is_ascii_whitespace c") (simp_all add: whitespace.simps [of data at])
  qed
qed

lemma whitespace_id: "\<not> (\<exists>b. get data at = Some b \<and> is_ascii_whitespace b) \<Longrightarrow> whitespace data at = at"
  by (subst whitespace.simps) (auto split: option.splits)

lemma whitespace_idem [simp]: "whitespace data (whitespace data at) = whitespace data at"
  by (rule whitespace_id) (auto dest: whitespace_stop)

lemma skip_digits_ge: "at \<le> skip_digits data at"
proof (induction data at rule: skip_digits.induct)
  case (1 data at)
  then show ?case
    by (subst skip_digits.simps) (auto split: option.splits)
qed

lemma skip_digits_le: "at \<le> length data \<Longrightarrow> skip_digits data at \<le> length data"
proof (induction data at rule: skip_digits.induct)
  case (1 data at)
  then show ?case
    by (subst skip_digits.simps) (auto split: option.splits simp: get_Some_iff)
qed

text \<open>The steps of the string scanner: it closes, skips an escape, or takes a byte.\<close>

definition escape_end :: "string \<Rightarrow> nat \<Rightarrow> nat" where
  "escape_end data at = (if get data (at + 1) = Some (CHR ''u'') then at + 2 + 4 else at + 2)"

lemma string_from_escape:
  "get data at = Some (CHR 0x5C) \<Longrightarrow> string_from data quote at =
     (if escape_end data at > length data then fail ''unterminated JSON string''
      else string_from data quote (escape_end data at))"
  by (subst string_from.simps) (simp add: Let_def escape_end_def)

lemma string_from_plain:
  "get data at = Some b \<Longrightarrow> b \<noteq> CHR 0x22 \<Longrightarrow> b \<noteq> CHR 0x5C \<Longrightarrow> string_from data quote at =
     (if byte b \<le> 0x1f then fail ''control byte in JSON string'' else string_from data quote (at + 1))"
  by (subst string_from.simps) simp

lemma string_from_close:
  "get data at = Some (CHR 0x22) \<Longrightarrow> string_from data quote at =
     and_then (decode_json_string (slice data quote (at + 1))) (\<lambda>key. Ok (key, at + 1))"
  by (subst string_from.simps) simp

lemma string_from_induct [consumes 1, case_names close escape plain]:
  assumes "string_from data quote at = Ok (key, p)"
    and close: "\<And>at. get data at = Some (CHR 0x22) \<Longrightarrow>
      decode_json_string (slice data quote (at + 1)) = Ok key \<Longrightarrow> p = at + 1 \<Longrightarrow> P at"
    and escape: "\<And>at. get data at = Some (CHR 0x5C) \<Longrightarrow> escape_end data at \<le> length data \<Longrightarrow>
      string_from data quote (escape_end data at) = Ok (key, p) \<Longrightarrow> P (escape_end data at) \<Longrightarrow> P at"
    and plain: "\<And>at b. get data at = Some b \<Longrightarrow> b \<noteq> CHR 0x22 \<Longrightarrow> b \<noteq> CHR 0x5C \<Longrightarrow> \<not> byte b \<le> 0x1f \<Longrightarrow>
      string_from data quote (at + 1) = Ok (key, p) \<Longrightarrow> P (at + 1) \<Longrightarrow> P at"
  shows "P at"
  using assms(1)
proof (induction "length data - at" arbitrary: at rule: less_induct)
  case less
  show ?case
  proof (cases "get data at")
    case None
    with less.prems show ?thesis by (subst (asm) string_from.simps) simp
  next
    case (Some b)
    then have lt: "at < length data" by (rule get_SomeD)
    consider "b = CHR 0x22" | "b = CHR 0x5C" | "b \<noteq> CHR 0x22" "b \<noteq> CHR 0x5C" by blast
    then show ?thesis
    proof cases
      case 1
      with Some less.prems close show ?thesis by (auto simp: string_from_close)
    next
      case 2
      with Some less.prems have le: "escape_end data at \<le> length data"
        and next_ok: "string_from data quote (escape_end data at) = Ok (key, p)"
        by (auto simp: string_from_escape split: if_splits)
      have "at < escape_end data at" by (simp add: escape_end_def)
      with lt less.hyps [OF _ next_ok] have "P (escape_end data at)" by simp
      with escape Some 2 le next_ok show ?thesis by blast
    next
      case 3
      with Some less.prems have ctl: "\<not> byte b \<le> 0x1f"
        and next_ok: "string_from data quote (at + 1) = Ok (key, p)"
        by (auto simp: string_from_plain split: if_splits)
      with lt less.hyps [OF _ next_ok] have "P (at + 1)" by simp
      with plain Some 3 ctl next_ok show ?thesis by blast
    qed
  qed
qed

lemma string_from_bounds:
  "string_from data quote at = Ok (key, p) \<Longrightarrow> at < p \<and> p \<le> length data"
  by (induction rule: string_from_induct) (auto simp: escape_end_def dest: get_SomeD split: if_splits)

lemma json_string_bounds: "json_string data at = Ok (key, p) \<Longrightarrow> at < p \<and> p \<le> length data"
  using whitespace_ge [of at data]
  by (auto simp: json_string_def Let_def split: if_splits dest!: string_from_bounds)

lemma json_byte_bounds: "json_byte data b at = Ok p \<Longrightarrow> at < p \<and> p \<le> length data"
  using whitespace_ge [of at data]
  by (auto simp: json_byte_def Let_def get_Some_iff split: if_splits)

lemma at_any_bound: "at_any data at cs \<Longrightarrow> at < length data"
  by (auto simp: at_any_def split: option.splits dest: get_SomeD)

lemma at_digit_bound: "at_digit data at \<Longrightarrow> at < length data"
  by (auto simp: at_digit_def split: option.splits dest: get_SomeD)

lemma some_digits_bounds:
  "some_digits data at = Ok p \<Longrightarrow> at < p \<and> (at \<le> length data \<longrightarrow> p \<le> length data)"
  using skip_digits_ge [of at data] skip_digits_le [of at data]
  by (auto simp: some_digits_def Let_def split: if_splits)

lemma skip_digits_bounds:
  "at < length data \<Longrightarrow> at < skip_digits data (at + 1) \<and> skip_digits data (at + 1) \<le> length data"
  using skip_digits_ge [of "at + 1" data] skip_digits_le [of "at + 1" data] by simp

lemma number_part_bounds:
  "number_integer data at = Ok p \<Longrightarrow> at < p \<and> p \<le> length data"
  "number_fraction data at = Ok p \<Longrightarrow> at \<le> p \<and> (at \<le> length data \<longrightarrow> p \<le> length data)"
  "number_exponent data at = Ok p \<Longrightarrow> at \<le> p \<and> (at \<le> length data \<longrightarrow> p \<le> length data)"
  using skip_digits_bounds [of at data]
  by (auto simp: number_integer_def number_fraction_def number_exponent_def split: if_splits
      dest!: at_any_bound at_digit_bound some_digits_bounds dest: get_SomeD)

lemma json_number_bounds: "json_number data at = Ok p \<Longrightarrow> at < p \<and> p \<le> length data"
  by (auto simp: json_number_def Let_def split: if_splits dest!: number_part_bounds)

lemma get_range_bound: "get_range data i j = Some xs \<Longrightarrow> j \<le> length data"
  by (auto simp: get_range_def split: if_splits)

lemma value_arm_bound: "value_arm data at \<noteq> InvalidArm \<Longrightarrow> at < length data"
  by (rule ccontr) (simp add: value_arm_def get_def)

lemma value_arm_literal:
  assumes "value_arm data at = LiteralArm b n"
  obtains lit where "get_range data at (at + n) = Some lit"
    "(lit, b, n) \<in> {(''true'', Some True, 4), (''false'', Some False, 5), (''null'', None, 4)}"
  using assms unfolding value_arm_def
  by (simp split: option.split_asm if_split_asm)

lemma value_arm_literal_bounds:
  assumes "value_arm data at = LiteralArm b n"
  shows "0 < n \<and> at + n \<le> length data"
  using assms by (elim value_arm_literal) (auto dest: get_range_bound)

declare json_value.simps(2) [simp del] json_members.simps(2) [simp del] json_elements.simps(2) [simp del]

text \<open>How a value, a member list and an element list succeed, arm by arm.\<close>

lemma json_value_OkE:
  assumes "json_value fuel data depth at = Ok (b, p)"
  obtains (string) n key where "fuel = Suc n" "value_arm data (whitespace data at) = StringArm"
      "json_string data (whitespace data at) = Ok (key, p)" "b = None" "depth \<le> 64"
    | (empty) n c where "fuel = Suc n"
      "c = CHR ''}'' \<and> value_arm data (whitespace data at) = ObjectArm
        \<or> c = CHR '']'' \<and> value_arm data (whitespace data at) = ArrayArm"
      "get data (whitespace data (whitespace data at + 1)) = Some c"
      "p = whitespace data (whitespace data at + 1) + 1" "b = None" "depth \<le> 64"
    | (object) n where "fuel = Suc n" "value_arm data (whitespace data at) = ObjectArm"
      "get data (whitespace data (whitespace data at + 1)) \<noteq> Some (CHR ''}'')"
      "json_members n data depth [] (whitespace data (whitespace data at + 1)) = Ok p" "b = None"
      "depth \<le> 64"
    | (array) n where "fuel = Suc n" "value_arm data (whitespace data at) = ArrayArm"
      "get data (whitespace data (whitespace data at + 1)) \<noteq> Some (CHR '']'')"
      "json_elements n data depth (whitespace data (whitespace data at + 1)) = Ok p" "b = None"
      "depth \<le> 64"
    | (literal) n width where "fuel = Suc n"
      "value_arm data (whitespace data at) = LiteralArm b width" "p = whitespace data at + width"
      "depth \<le> 64"
    | (number) n where "fuel = Suc n" "value_arm data (whitespace data at) = NumberArm"
      "json_number data (whitespace data at) = Ok p" "b = None" "depth \<le> 64"
proof (cases fuel)
  case 0
  with assms show ?thesis by simp
next
  case (Suc n)
  let ?w = "whitespace data at" and ?v = "whitespace data (whitespace data at + 1)"
  note eq = assms [unfolded Suc json_value.simps(2) Let_def]
  have d: "depth \<le> 64" using eq by (cases "64 < depth") simp_all
  show ?thesis
  proof (cases "value_arm data ?w")
    case StringArm
    with eq d obtain key where "json_string data ?w = Ok (key, p)" "b = None" by auto
    with Suc StringArm d show ?thesis by (intro string [of n key]) simp_all
  next
    case ObjectArm
    show ?thesis
    proof (cases "get data ?v = Some (CHR ''}'')")
      case True
      with eq d ObjectArm have "p = ?v + 1" "b = None" by simp_all
      with Suc d True ObjectArm show ?thesis by (intro empty [of n "CHR ''}''"]) simp_all
    next
      case False
      with eq d ObjectArm have "json_members n data depth [] ?v = Ok p" "b = None" by auto
      with Suc d False ObjectArm show ?thesis by (intro object [of n]) simp_all
    qed
  next
    case ArrayArm
    show ?thesis
    proof (cases "get data ?v = Some (CHR '']'')")
      case True
      with eq d ArrayArm have "p = ?v + 1" "b = None" by simp_all
      with Suc d True ArrayArm show ?thesis by (intro empty [of n "CHR '']''"]) simp_all
    next
      case False
      with eq d ArrayArm have "json_elements n data depth ?v = Ok p" "b = None" by auto
      with Suc d False ArrayArm show ?thesis by (intro array [of n]) simp_all
    qed
  next
    case (LiteralArm l width)
    with eq d have "p = ?w + width" "b = l" by simp_all
    with Suc d LiteralArm show ?thesis by (intro literal [of n width]) simp_all
  next
    case NumberArm
    with eq d have "json_number data ?w = Ok p" "b = None" by auto
    with Suc d NumberArm show ?thesis by (intro number [of n]) simp_all
  next
    case InvalidArm
    with eq d show ?thesis by simp
  qed
qed

lemma json_members_OkE:
  assumes "json_members fuel data depth keys at = Ok p"
  obtains n key p1 p2 b p3 where "fuel = Suc n" "json_string data at = Ok (key, p1)"
    "key \<notin> set keys" "json_byte data (CHR '':'') p1 = Ok p2"
    "json_value n data (depth + 1) p2 = Ok (b, p3)"
    "get data (whitespace data p3) = Some (CHR '','')
       \<and> json_members n data depth (key # keys) (whitespace data p3 + 1) = Ok p
     \<or> get data (whitespace data p3) = Some (CHR ''}'') \<and> p = whitespace data p3 + 1"
  using assms
  by (cases fuel) (auto simp: json_members.simps(2) Let_def split: if_splits)

lemma json_elements_OkE:
  assumes "json_elements fuel data depth at = Ok p"
  obtains n b p3 where "fuel = Suc n" "json_value n data (depth + 1) at = Ok (b, p3)"
    "get data (whitespace data p3) = Some (CHR '','')
       \<and> json_elements n data depth (whitespace data p3 + 1) = Ok p
     \<or> get data (whitespace data p3) = Some (CHR '']'') \<and> p = whitespace data p3 + 1"
  using assms
  by (cases fuel) (auto simp: json_elements.simps(2) Let_def split: if_splits)

lemma json_bounds:
  "json_value fuel data depth at = Ok (b, p) \<Longrightarrow> at < p \<and> p \<le> length data"
  "json_members fuel data depth keys at = Ok p \<Longrightarrow> at < p \<and> p \<le> length data"
  "json_elements fuel data depth at = Ok p \<Longrightarrow> at < p \<and> p \<le> length data"
proof (induction fuel arbitrary: depth at b p keys)
  case (Suc fuel)
  {
    case 1
    note ge = whitespace_ge [of at data] whitespace_ge [of "whitespace data at + 1" data]
    from 1 show ?case
    proof (cases rule: json_value_OkE)
      case (string n key)
      with ge(1) json_string_bounds [OF string(3)] show ?thesis by simp
    next
      case (empty n c)
      with ge show ?thesis by (auto dest!: get_SomeD)
    next
      case (object n)
      with ge Suc show ?thesis by fastforce
    next
      case (array n)
      with ge Suc show ?thesis by fastforce
    next
      case (literal n width)
      with ge show ?thesis by (auto dest!: value_arm_literal_bounds)
    next
      case (number n)
      with ge(1) json_number_bounds [OF number(3)] show ?thesis by simp
    qed
  next
    case 2
    then show ?case
    proof (cases rule: json_members_OkE)
      case (1 n key p1 p2 b p3)
      then have "at < p3 \<and> p3 \<le> length data"
        using Suc(1) [of "depth + 1" p2 b p3] by (auto dest!: json_string_bounds json_byte_bounds)
      then show ?thesis
        using 1 Suc(2) [of depth "key # keys" "whitespace data p3 + 1" p] whitespace_ge [of p3 data]
        by (auto dest!: get_SomeD)
    qed
  next
    case 3
    then show ?case
    proof (cases rule: json_elements_OkE)
      case (1 n b p3)
      then show ?thesis
        using Suc(1) [of "depth + 1" at b p3] Suc(3) [of depth "whitespace data p3 + 1" p]
          whitespace_ge [of p3 data]
        by (auto dest!: get_SomeD)
    qed
  }
qed simp_all

end
