(* ===== verification/Guest_Scan.thy ===== *)
theory Guest_Scan
  imports Guest_Json
begin

text \<open>
  Facts about the guest JSON scanner that do not depend on what is scanned for: the fuel
  its callers give suffices, a scan depends only on the bytes it reads, and it does not
  depend on where in the document those bytes stand.
\<close>

section \<open>Fuel: the amount the callers give always suffices\<close>

lemma decode_unicode_not_out_of_fuel: "decode_unicode bytes at \<noteq> Err OutOfFuel"
  by (auto simp: decode_unicode_def unicode_digits_def ok_or_def and_then_Err_iff split: option.splits if_splits)

lemma decode_escape_not_out_of_fuel: "decode_escape bytes at \<noteq> Err OutOfFuel"
  by (simp add: decode_escape_def decode_unicode_not_out_of_fuel split: option.split)

lemma decode_from_not_out_of_fuel: "decode_from bytes at out \<noteq> Err OutOfFuel"
proof (induction bytes at out rule: decode_from.induct)
  case (1 bytes at out)
  then show ?case
    by (subst decode_from.simps)
      (auto simp: Let_def decode_escape_not_out_of_fuel split: option.split result.split)
qed

lemma string_from_not_out_of_fuel: "string_from data quote at \<noteq> Err OutOfFuel"
proof (induction data quote at rule: string_from.induct)
  case (1 data quote at)
  show ?case
  proof (cases "get data at")
    case None
    then show ?thesis by (subst string_from.simps) simp
  next
    case (Some b)
    then have step: "b \<noteq> CHR 0x22 \<Longrightarrow> b \<noteq> CHR 0x5C \<Longrightarrow> \<not> byte b \<le> 0x1f \<Longrightarrow>
        string_from data quote (at + 1) \<noteq> Err OutOfFuel"
      using "1.IH"(2) by blast
    from Some have escape: "b = CHR 0x5C \<Longrightarrow> escape_end data at \<le> length data \<Longrightarrow>
        string_from data quote (escape_end data at) \<noteq> Err OutOfFuel"
      using "1.IH"(1) by (simp add: escape_end_def not_less)
    consider "b = CHR 0x22" | "b = CHR 0x5C" | "b \<noteq> CHR 0x22" "b \<noteq> CHR 0x5C" by blast
    then show ?thesis
      by cases (use Some step escape in \<open>auto simp: string_from_close string_from_escape
          string_from_plain and_then_Err_iff decode_json_string_def decode_from_not_out_of_fuel\<close>)
  qed
qed

lemma some_digits_not_out_of_fuel: "some_digits data at \<noteq> Err OutOfFuel"
  by (simp add: some_digits_def Let_def)

lemma json_number_not_out_of_fuel: "json_number data at \<noteq> Err OutOfFuel"
  by (simp add: json_number_def Let_def and_then_Err_iff number_integer_def number_fraction_def
      number_exponent_def some_digits_not_out_of_fuel)

lemma scanner_not_out_of_fuel:
  "json_string data at \<noteq> Err OutOfFuel"
  "json_byte data c at \<noteq> Err OutOfFuel"
  by (simp_all add: json_string_def json_byte_def Let_def string_from_not_out_of_fuel)

lemma fuel_suffices:
  "2 * (length data - at) + 1 \<le> fuel \<Longrightarrow> json_value fuel data depth at \<noteq> Err OutOfFuel"
  "2 * (length data - at) + 2 \<le> fuel \<Longrightarrow> json_members fuel data depth keys at \<noteq> Err OutOfFuel"
  "2 * (length data - at) + 2 \<le> fuel \<Longrightarrow> json_elements fuel data depth at \<noteq> Err OutOfFuel"
proof (induction fuel arbitrary: depth at keys)
  case (Suc fuel)
  {
    case 1
    let ?w = "whitespace data at"
    let ?v = "whitespace data (?w + 1)"
    have "?w < length data \<Longrightarrow> 2 * (length data - ?v) + 2 \<le> fuel"
      using 1 whitespace_ge [of at data] whitespace_ge [of "?w + 1" data] by linarith
    then have "value_arm data ?w \<noteq> InvalidArm \<Longrightarrow>
        json_members fuel data depth [] ?v \<noteq> Err OutOfFuel
        \<and> json_elements fuel data depth ?v \<noteq> Err OutOfFuel"
      using Suc(2,3) value_arm_bound by blast
    then show ?case
      by (cases "value_arm data ?w")
        (auto simp: json_value.simps(2) Let_def scanner_not_out_of_fuel json_number_not_out_of_fuel and_then_Err_iff)
  next
    case 2
    have "json_value fuel data (depth + 1) q \<noteq> Err OutOfFuel" if "at < q" for q
      using Suc(1) [of q] 2 that by simp
    moreover have "json_members fuel data depth ks (whitespace data q + 1) \<noteq> Err OutOfFuel"
      if "at < q" "whitespace data q < length data" for q ks
      using Suc(2) [of "whitespace data q + 1"] 2 that whitespace_ge [of q data] by simp
    ultimately show ?case
      by (auto simp: json_members.simps(2) Let_def and_then_Err_iff scanner_not_out_of_fuel
          get_Some_iff split: if_splits dest!: json_string_bounds json_byte_bounds json_bounds(1))
  next
    case 3
    have "json_value fuel data (depth + 1) at \<noteq> Err OutOfFuel"
      using Suc(1) [of at] 3 by simp
    moreover have "json_elements fuel data depth (whitespace data q + 1) \<noteq> Err OutOfFuel"
      if "at < q" "whitespace data q < length data" for q
      using Suc(3) [of "whitespace data q + 1"] 3 that whitespace_ge [of q data] by simp
    ultimately show ?case
      by (auto simp: json_elements.simps(2) Let_def and_then_Err_iff
          get_Some_iff split: if_splits dest!: json_bounds(1))
  }
qed simp_all


lemma fuel_monotone:
  "json_value fuel data depth at = r \<Longrightarrow> r \<noteq> Err OutOfFuel \<Longrightarrow> json_value (Suc fuel) data depth at = r"
  "json_members fuel data depth keys at = q \<Longrightarrow> q \<noteq> Err OutOfFuel \<Longrightarrow>
     json_members (Suc fuel) data depth keys at = q"
  "json_elements fuel data depth at = q \<Longrightarrow> q \<noteq> Err OutOfFuel \<Longrightarrow>
     json_elements (Suc fuel) data depth at = q"
proof (induction fuel arbitrary: depth at keys r q)
  case (Suc fuel)
  {
    case 1
    then show ?case
      using Suc(2) [of depth "[]" "whitespace data (whitespace data at + 1)"]
        Suc(3) [of depth "whitespace data (whitespace data at + 1)"]
      by (cases "value_arm data (whitespace data at)")
        (auto simp: json_value.simps(2) Let_def and_then_Err_iff split: if_splits)
  next
    case 2
    show ?case
    proof (cases "json_string data at")
      case (Err e)
      with 2 show ?thesis by (simp add: json_members.simps(2))
    next
      case (Ok kp)
      obtain key p1 where kp: "kp = (key, p1)" by (cases kp)
      note str = Ok [unfolded kp]
      show ?thesis
      proof (cases "key \<in> set keys")
        case True
        with str 2 show ?thesis by (simp add: json_members.simps(2))
      next
        case fresh: False
        show ?thesis
        proof (cases "json_byte data (CHR '':'') p1")
          case (Err e)
          with str fresh 2 show ?thesis by (auto simp: json_members.simps(2))
        next
          case (Ok p2)
          with str fresh 2 have "json_value fuel data (depth + 1) p2 \<noteq> Err OutOfFuel"
            by (auto simp: json_members.simps(2))
          then have "json_value (Suc fuel) data (depth + 1) p2 = json_value fuel data (depth + 1) p2"
            using Suc(1) by blast
          with 2 str fresh Ok show ?thesis
            using Suc(2) [of depth "key # keys"]
            by (cases "json_value fuel data (depth + 1) p2")
              (auto simp: json_members.simps(2) Let_def split: if_splits)
        qed
      qed
    qed
  next
    case 3
    then have "json_value fuel data (depth + 1) at \<noteq> Err OutOfFuel"
      by (auto simp: json_elements.simps(2))
    then have "json_value (Suc fuel) data (depth + 1) at = json_value fuel data (depth + 1) at"
      using Suc(1) by blast
    with 3 show ?case
      using Suc(3) [of depth]
      by (cases "json_value fuel data (depth + 1) at")
        (auto simp: json_elements.simps(2) Let_def split: if_splits)
  }
qed simp_all

lemma fuel_monotone_le:
  assumes "json_value fuel data depth at \<noteq> Err OutOfFuel" and "fuel \<le> fuel'"
  shows "json_value fuel' data depth at = json_value fuel data depth at"
  using assms(2,1) by (induction rule: dec_induct) (simp_all add: fuel_monotone(1))

lemma value_at_suffices: "value_at data depth at \<noteq> Err OutOfFuel"
  unfolding value_at_def by (rule fuel_suffices(1)) (simp add: value_fuel_def)

lemma value_at_eqI:
  assumes "json_value fuel data depth at = Ok r"
  shows "value_at data depth at = Ok r"
proof (cases "fuel \<le> value_fuel data")
  case True
  with assms fuel_monotone_le [of fuel data depth at "value_fuel data"] show ?thesis
    by (simp add: value_at_def)
next
  case False
  with assms fuel_monotone_le [of "value_fuel data" data depth at fuel] value_at_suffices [of data depth at]
  show ?thesis by (simp add: value_at_def)
qed

lemma value_at_bounds: "value_at data depth at = Ok (b, p) \<Longrightarrow> at < p \<and> p \<le> length data"
  unfolding value_at_def by (rule json_bounds(1))

section \<open>Locality: a scan depends on the bytes it reads\<close>

definition agree :: "nat \<Rightarrow> string \<Rightarrow> string \<Rightarrow> bool" where
  "agree s d1 d2 \<longleftrightarrow> s \<le> length d1 \<and> s \<le> length d2 \<and> take s d1 = take s d2"

lemma agree_get: "agree s d1 d2 \<Longrightarrow> i < s \<Longrightarrow> get d2 i = get d1 i"
  by (auto simp: agree_def get_def) (metis nth_take)

lemma agree_mono: "agree s d1 d2 \<Longrightarrow> t \<le> s \<Longrightarrow> agree t d1 d2"
  by (auto simp: agree_def) (metis min.absorb1 take_take)

lemma agree_slice: "agree s d1 d2 \<Longrightarrow> j \<le> s \<Longrightarrow> slice d2 i j = slice d1 i j"
proof -
  assume "agree s d1 d2" and "j \<le> s"
  then have "take j d1 = take j d2" using agree_mono [of s d1 d2 j] by (simp add: agree_def)
  moreover have "slice d i j = drop i (take j d)" for d :: string
    by (cases "i \<le> j") (simp_all add: slice_def drop_take)
  ultimately show ?thesis by simp
qed

lemma agree_get_range: "agree s d1 d2 \<Longrightarrow> j \<le> s \<Longrightarrow> get_range d2 i j = get_range d1 i j"
  using agree_slice [of s d1 d2 j i] by (auto simp: get_range_def slice_def agree_def)

lemma whitespace_step:
  "get data at = Some b \<Longrightarrow> is_ascii_whitespace b \<Longrightarrow> whitespace data at = whitespace data (at + 1)"
  by (subst whitespace.simps) simp

lemma whitespace_local:
  assumes "agree (whitespace d1 at) d1 d2"
    and "\<not> (\<exists>b. get d2 (whitespace d1 at) = Some b \<and> is_ascii_whitespace b)"
  shows "whitespace d2 at = whitespace d1 at"
  using assms
proof (induction d1 at rule: whitespace.induct)
  case (1 d1 at)
  show ?case
  proof (cases "\<exists>b. get d1 at = Some b \<and> is_ascii_whitespace b")
    case True
    then obtain b where b: "get d1 at = Some b" "is_ascii_whitespace b" by blast
    then have w: "whitespace d1 at = whitespace d1 (at + 1)" by (rule whitespace_step)
    then have "at < whitespace d1 at" using whitespace_ge [of "at + 1" d1] by simp
    then have "get d2 at = Some b" using agree_get [OF "1.prems"(1)] b(1) by simp
    then have "whitespace d2 at = whitespace d2 (at + 1)" using b(2) by (rule whitespace_step)
    moreover have "whitespace d2 (at + 1) = whitespace d1 (at + 1)"
      using "1.IH" [OF b] "1.prems" w by simp
    ultimately show ?thesis using w by simp
  next
    case False
    then have "whitespace d1 at = at" by (rule whitespace_id)
    with "1.prems"(2) show ?thesis by (simp add: whitespace_id)
  qed
qed

lemma whitespace_local_less:
  assumes "agree s d1 d2" and "whitespace d1 at < s"
  shows "whitespace d2 at = whitespace d1 at"
  using assms agree_get [OF assms] agree_mono [OF assms(1), of "whitespace d1 at"]
  by (intro whitespace_local) (auto dest: whitespace_stop)

text \<open>
  A scan that ends at \<open>p\<close> is clear of a change at \<open>s\<close> when it ends before it, or right at
  it and the new byte there does not continue a number.
\<close>

definition clear_of :: "nat \<Rightarrow> string \<Rightarrow> nat \<Rightarrow> bool" where
  "clear_of s data p \<longleftrightarrow> p < s \<or> p = s \<and> \<not> at_digit data s \<and> \<not> at_any data s ''.eE''"

lemma clear_of_less: "p < s \<Longrightarrow> clear_of s data p"
  by (simp add: clear_of_def)

lemma clear_of_le: "clear_of s data p \<Longrightarrow> p \<le> s"
  by (auto simp: clear_of_def)

lemma at_class_local:
  assumes "agree s d1 d2" and "at < s"
  shows "at_any d2 at cs = at_any d1 at cs" "at_digit d2 at = at_digit d1 at"
  using assms by (simp_all add: at_any_def at_digit_def agree_get)

lemma at_digit_clear: "clear_of s d2 p \<Longrightarrow> agree s d1 d2 \<Longrightarrow> \<not> at_digit d1 p \<Longrightarrow> \<not> at_digit d2 p"
  by (auto simp: clear_of_def at_class_local)

lemma at_any_clear:
  "clear_of s d2 p \<Longrightarrow> agree s d1 d2 \<Longrightarrow> set cs \<subseteq> set ''.eE'' \<Longrightarrow> \<not> at_any d1 p cs \<Longrightarrow> \<not> at_any d2 p cs"
  by (auto simp: clear_of_def at_class_local) (auto simp: at_any_def split: option.splits)

lemma skip_digits_step: "skip_digits data at = (if at_digit data at then skip_digits data (at + 1) else at)"
  by (subst skip_digits.simps) (auto simp: at_digit_def split: option.split)

lemma skip_digits_stop: "\<not> at_digit data (skip_digits data at)"
proof (induction data at rule: skip_digits.induct)
  case (1 data at)
  then show ?case
    by (cases "at_digit data at")
      (auto simp: skip_digits_step [of data at] at_digit_def split: option.splits)
qed

lemma skip_digits_local:
  assumes "agree s d1 d2" and "clear_of s d2 (skip_digits d1 at)"
  shows "skip_digits d2 at = skip_digits d1 at"
  using assms
proof (induction d1 at rule: skip_digits.induct)
  case (1 d1 at)
  show ?case
  proof (cases "at_digit d1 at")
    case True
    then have step: "skip_digits d1 at = skip_digits d1 (at + 1)" by (simp add: skip_digits_step [of d1 at])
    then have "at < s" using clear_of_le [OF "1.prems"(2)] skip_digits_ge [of "at + 1" d1] by simp
    then have "at_digit d2 at" using True "1.prems"(1) by (simp add: at_class_local)
    with True step 1 show ?thesis
      by (auto simp: skip_digits_step [of d2 at] at_digit_def split: option.splits)
  next
    case False
    then have stay: "skip_digits d1 at = at" by (simp add: skip_digits_step [of d1 at])
    with "1.prems" False have "\<not> at_digit d2 at" by (auto dest: at_digit_clear)
    with stay show ?thesis by (simp add: skip_digits_step [of d2 at])
  qed
qed

lemma json_byte_local:
  assumes "agree s d1 d2" and "json_byte d1 c at = Ok p" and "p \<le> s"
  shows "json_byte d2 c at = Ok p"
proof -
  have w: "whitespace d1 at < s" using assms by (auto simp: json_byte_def Let_def split: if_splits)
  with assms whitespace_local_less [OF assms(1) w] agree_get [OF assms(1) w] show ?thesis
    by (simp add: json_byte_def Let_def)
qed

lemma string_from_local:
  assumes "string_from d1 quote at = Ok (key, p)" and "agree s d1 d2" and "p \<le> s"
  shows "string_from d2 quote at = Ok (key, p)"
  using assms(1)
proof (induction rule: string_from_induct)
  case (close at)
  with assms(2,3) have "get d2 at = Some (CHR 0x22)" by (simp add: agree_get)
  moreover have "slice d2 quote (at + 1) = slice d1 quote (at + 1)"
    using close assms(2,3) by (simp add: agree_slice)
  ultimately show ?case using close by (simp add: string_from_close)
next
  case (escape at)
  then have lt: "escape_end d1 at < s" "at + 1 < s"
    using assms(3) string_from_bounds [OF escape(3)] by (auto simp: escape_end_def split: if_splits)
  with assms(2) have "get d2 at = get d1 at" "escape_end d2 at = escape_end d1 at"
    by (simp_all add: escape_end_def agree_get)
  with escape lt assms(2) show ?case by (simp add: string_from_escape agree_def)
next
  case (plain at b)
  then have "at < s" using assms(3) string_from_bounds [OF plain(5)] by simp
  with plain assms(2) show ?case by (simp add: string_from_plain agree_get)
qed

lemma json_string_local:
  assumes "agree s d1 d2" and "json_string d1 at = Ok (key, p)" and "p \<le> s"
  shows "json_string d2 at = Ok (key, p)"
proof -
  from assms(2) have str: "string_from d1 (whitespace d1 at) (whitespace d1 at + 1) = Ok (key, p)"
    and q: "get d1 (whitespace d1 at) = Some (CHR 0x22)"
    by (auto simp: json_string_def Let_def split: if_splits)
  have w: "whitespace d1 at < s" using string_from_bounds [OF str] assms(3) by simp
  with q str whitespace_local_less [OF assms(1) w] agree_get [OF assms(1) w]
    string_from_local [OF str assms(1,3)]
  show ?thesis by (simp add: json_string_def Let_def)
qed

lemma some_digits_local:
  assumes "agree s d1 d2" and "some_digits d1 at = Ok p" and "clear_of s d2 p"
  shows "some_digits d2 at = Ok p"
  using assms skip_digits_local [OF assms(1), of at]
  by (auto simp: some_digits_def Let_def split: if_splits)

lemma get_at_any: "get data at = Some c \<longleftrightarrow> at_any data at [c]"
  by (auto simp: at_any_def split: option.splits)

lemma number_part_local:
  assumes "agree s d1 d2" and "clear_of s d2 p"
  shows "number_integer d1 at = Ok p \<Longrightarrow> number_integer d2 at = Ok p"
    and "number_fraction d1 at = Ok p \<Longrightarrow> number_fraction d2 at = Ok p"
    and "number_exponent d1 at = Ok p \<Longrightarrow> number_exponent d2 at = Ok p"
proof -
  have le: "p \<le> s" using assms(2) by (rule clear_of_le)
  assume i: "number_integer d1 at = Ok p"
  then have "at < s" using number_part_bounds(1) [OF i] le by auto
  with i assms show "number_integer d2 at = Ok p"
    using skip_digits_local [OF assms(1), of "at + 1"]
    by (auto simp: number_integer_def at_class_local agree_get dest: at_digit_clear split: if_splits)
next
  have le: "p \<le> s" using assms(2) by (rule clear_of_le)
  assume f: "number_fraction d1 at = Ok p"
  show "number_fraction d2 at = Ok p"
  proof (cases "at_any d1 at ''.''")
    case True
    with f have digits: "some_digits d1 (at + 1) = Ok p" by (simp add: number_fraction_def get_at_any)
    with le have "at < s" by (auto dest: some_digits_bounds)
    with True digits assms show ?thesis
      by (simp add: number_fraction_def get_at_any at_class_local some_digits_local)
  next
    case False
    with f have "p = at" by (simp add: number_fraction_def get_at_any)
    with False have "\<not> at_any d2 at ''.''"
      using at_any_clear [OF assms(2,1), of "''.''"] by simp
    with \<open>p = at\<close> show ?thesis by (simp add: number_fraction_def get_at_any)
  qed
next
  have le: "p \<le> s" using assms(2) by (rule clear_of_le)
  assume e: "number_exponent d1 at = Ok p"
  show "number_exponent d2 at = Ok p"
  proof (cases "at_any d1 at ''eE''")
    case True
    with e have "at + 1 < p"
      by (auto simp: number_exponent_def split: if_splits dest!: some_digits_bounds)
    with True e assms le show ?thesis
      by (auto simp: number_exponent_def at_class_local intro: some_digits_local)
  next
    case False
    with e have "p = at" by (simp add: number_exponent_def)
    with False have "\<not> at_any d2 at ''eE''"
      using at_any_clear [OF assms(2,1), of "''eE''"] by simp
    with \<open>p = at\<close> show ?thesis by (simp add: number_exponent_def)
  qed
qed

lemma number_part_stop:
  "number_integer data at = Ok p \<Longrightarrow> \<not> at_digit data p"
  "some_digits data at = Ok p \<Longrightarrow> \<not> at_digit data p"
  by (auto simp: number_integer_def some_digits_def Let_def skip_digits_stop split: if_splits)

lemma json_number_local:
  assumes "agree s d1 d2" and "json_number d1 at = Ok p" and "clear_of s d2 p"
  shows "json_number d2 at = Ok p"
proof -
  define q where "q = (if get d1 at = Some (CHR ''-'') then at + 1 else at)"
  from assms(2) obtain p1 p2 where parts: "number_integer d1 q = Ok p1"
    "number_fraction d1 p1 = Ok p2" "number_exponent d1 p2 = Ok p"
    by (auto simp: json_number_def Let_def q_def [symmetric])
  then have lt: "q < p1" "p1 \<le> p2" "p2 \<le> p"
    using number_part_bounds by blast+
  have le: "p \<le> s" using assms(3) by (rule clear_of_le)
  with lt have "at < s" by (auto simp: q_def split: if_splits)
  then have "q = (if get d2 at = Some (CHR ''-'') then at + 1 else at)"
    using assms(1) by (simp add: q_def agree_get)
  moreover have "clear_of s d2 p1" "clear_of s d2 p2"
    using lt le assms(3) by (auto simp: clear_of_def)
  then have "number_integer d2 q = Ok p1" "number_fraction d2 p1 = Ok p2" "number_exponent d2 p2 = Ok p"
    using parts assms(3) number_part_local [OF assms(1)] by simp_all
  ultimately show ?thesis by (simp add: json_number_def Let_def)
qed

lemma get_range_head: "get_range data i j = Some (c # cs) \<Longrightarrow> get data i = Some c"
  by (cases "drop i data")
    (auto simp: get_range_def get_def take_Cons' split: if_splits dest: nth_via_drop)

lemma value_arm_byte:
  "get data at = None \<Longrightarrow> value_arm data at = InvalidArm"
  "get data at = Some (CHR 0x22) \<Longrightarrow> value_arm data at = StringArm"
  "get data at = Some (CHR ''{'') \<Longrightarrow> value_arm data at = ObjectArm"
  "get data at = Some (CHR ''['') \<Longrightarrow> value_arm data at = ArrayArm"
  "get data at = Some (CHR ''t'') \<Longrightarrow> value_arm data at =
     (if get_range data at (at + 4) = Some ''true'' then LiteralArm (Some True) 4 else InvalidArm)"
  "get data at = Some (CHR ''f'') \<Longrightarrow> value_arm data at =
     (if get_range data at (at + 5) = Some ''false'' then LiteralArm (Some False) 5 else InvalidArm)"
  "get data at = Some (CHR ''n'') \<Longrightarrow> value_arm data at =
     (if get_range data at (at + 4) = Some ''null'' then LiteralArm None 4 else InvalidArm)"
  "get data at = Some b \<Longrightarrow> b \<notin> {CHR 0x22, CHR ''{'', CHR ''['', CHR ''t'', CHR ''f'', CHR ''n''} \<Longrightarrow>
     value_arm data at = (if b = CHR ''-'' \<or> is_ascii_digit b then NumberArm else InvalidArm)"
  by (simp_all add: value_arm_def is_ascii_digit_def)

lemma value_arm_cases [case_names none quote brace bracket t f n other]:
  assumes "get data at = None \<Longrightarrow> P" "get data at = Some (CHR 0x22) \<Longrightarrow> P"
    "get data at = Some (CHR ''{'') \<Longrightarrow> P" "get data at = Some (CHR ''['') \<Longrightarrow> P"
    "get data at = Some (CHR ''t'') \<Longrightarrow> P" "get data at = Some (CHR ''f'') \<Longrightarrow> P"
    "get data at = Some (CHR ''n'') \<Longrightarrow> P"
    "\<And>b. get data at = Some b \<Longrightarrow> b \<notin> {CHR 0x22, CHR ''{'', CHR ''['', CHR ''t'', CHR ''f'', CHR ''n''} \<Longrightarrow> P"
  shows P
  using assms by (cases "get data at") blast+

lemma value_arm_iff:
  "value_arm data at = StringArm \<longleftrightarrow> get data at = Some (CHR 0x22)"
  "value_arm data at = ObjectArm \<longleftrightarrow> get data at = Some (CHR ''{'')"
  "value_arm data at = ArrayArm \<longleftrightarrow> get data at = Some (CHR ''['')"
  "value_arm data at = NumberArm \<longleftrightarrow> get data at = Some (CHR ''-'') \<or> at_digit data at"
  by (cases rule: value_arm_cases [of data at];
      simp add: value_arm_byte at_digit_def is_ascii_digit_def)+

lemma value_arm_literal_intro:
  "get_range data at (at + 4) = Some ''true'' \<Longrightarrow> value_arm data at = LiteralArm (Some True) 4"
  "get_range data at (at + 5) = Some ''false'' \<Longrightarrow> value_arm data at = LiteralArm (Some False) 5"
  "get_range data at (at + 4) = Some ''null'' \<Longrightarrow> value_arm data at = LiteralArm None 4"
  by (frule get_range_head, simp add: value_arm_byte)+

lemma value_arm_local:
  assumes "agree s d1 d2" and "at < s" and "value_arm d1 at \<noteq> InvalidArm"
    and "\<And>b n. value_arm d1 at = LiteralArm b n \<Longrightarrow> at + n \<le> s"
  shows "value_arm d2 at = value_arm d1 at"
proof -
  have same: "value_arm d2 at = arm \<longleftrightarrow> value_arm d1 at = arm"
    if "arm \<in> {StringArm, ObjectArm, ArrayArm, NumberArm}" for arm
    using that assms(1,2)
    by (elim insertE emptyE) (simp_all add: value_arm_iff agree_get at_class_local)
  show ?thesis
  proof (cases "value_arm d1 at")
    case (LiteralArm b n)
    with assms(4) have eq: "get_range d2 at (at + n) = get_range d1 at (at + n)"
      using agree_get_range [OF assms(1)] by blast
    from LiteralArm show ?thesis
      by (rule value_arm_literal) (use LiteralArm eq value_arm_literal_intro in auto)
  qed (use assms(3) same in auto)
qed

lemma json_value_whitespace:
  "json_value fuel data depth (whitespace data at) = json_value fuel data depth at"
  by (cases fuel) (simp_all add: json_value.simps(2))

lemma json_value_past_whitespace: "json_value fuel data depth at = Ok (b, p) \<Longrightarrow> whitespace data at < p"
  using json_bounds(1) [of fuel data depth "whitespace data at"] by (simp add: json_value_whitespace)

lemma json_local:
  assumes "agree s d1 d2"
  shows "json_value fuel d1 depth at = Ok (b, p) \<Longrightarrow> clear_of s d2 p \<Longrightarrow> json_value fuel d2 depth at = Ok (b, p)"
    and "json_members fuel d1 depth keys at = Ok p \<Longrightarrow> p \<le> s \<Longrightarrow>
      json_members fuel d2 depth keys at = Ok p"
    and "json_elements fuel d1 depth at = Ok p \<Longrightarrow> p \<le> s \<Longrightarrow> json_elements fuel d2 depth at = Ok p"
proof (induction fuel arbitrary: depth at b p keys)
  case (Suc fuel)
  {
    case 1
    let ?w = "whitespace d1 at" and ?v = "whitespace d1 (whitespace d1 at + 1)"
    have le: "p \<le> s" using 1(2) by (rule clear_of_le)
    have w: "?w < s" using json_value_past_whitespace [OF 1(1)] le by simp
    note local = whitespace_local_less [OF assms w] value_arm_local [OF assms w]
    have v: "whitespace d2 (?w + 1) = ?v" "get d2 ?v = get d1 ?v" if "?v < s"
      using that by (simp_all add: whitespace_local_less [OF assms] agree_get [OF assms])
    from 1(1) show ?case
    proof (cases rule: json_value_OkE)
      case (string n key)
      with json_string_local [OF assms string(3)] le local show ?thesis
        by (simp add: json_value.simps(2))
    next
      case (empty n c)
      with v local le show ?thesis by (auto simp: json_value.simps(2))
    next
      case (object n)
      then have "?v < s" using le json_bounds(2) [OF object(4)] by simp
      with object v local le Suc(2) show ?thesis by (simp add: json_value.simps(2))
    next
      case (array n)
      then have "?v < s" using le json_bounds(3) [OF array(4)] by simp
      with array v local le Suc(3) show ?thesis by (simp add: json_value.simps(2))
    next
      case (literal n width)
      with local le show ?thesis by (simp add: json_value.simps(2))
    next
      case (number n)
      with json_number_local [OF assms number(3)] 1(2) local show ?thesis
        by (simp add: json_value.simps(2))
    qed
  next
    case 2
    from 2(1) show ?case
    proof (cases rule: json_members_OkE)
      case (1 n key p1 p2 b p3)
      have b3: "p3 \<le> whitespace d1 p3" "whitespace d1 p3 < p"
        using 1(6) whitespace_ge [of p3 d1] by (auto dest!: json_bounds(2))
      have b12: "p1 < p2" "p2 < p3"
        using json_byte_bounds [OF 1(4)] json_bounds(1) [OF 1(5)] by auto
      have "json_string d2 at = Ok (key, p1)" "json_byte d2 (CHR '':'') p1 = Ok p2"
        "json_value n d2 (depth + 1) p2 = Ok (b, p3)"
        using json_string_local [OF assms 1(2)] json_byte_local [OF assms 1(4)] Suc(1) 1 2(2) b3 b12
        by (auto simp: clear_of_less)
      moreover have "whitespace d2 p3 = whitespace d1 p3" "get d2 (whitespace d1 p3) = get d1 (whitespace d1 p3)"
        using b3 2(2) by (simp_all add: whitespace_local_less [OF assms] agree_get [OF assms])
      ultimately show ?thesis
        using 1 2(2) Suc(2) by (auto simp: json_members.simps(2) Let_def)
    qed
  next
    case 3
    from 3(1) show ?case
    proof (cases rule: json_elements_OkE)
      case (1 n b p3)
      have b3: "p3 \<le> whitespace d1 p3" "whitespace d1 p3 < p"
        using 1(3) whitespace_ge [of p3 d1] by (auto dest!: json_bounds(3))
      have "json_value n d2 (depth + 1) at = Ok (b, p3)"
        using Suc(1) 1 3(2) b3 by (auto simp: clear_of_less)
      moreover have "whitespace d2 p3 = whitespace d1 p3" "get d2 (whitespace d1 p3) = get d1 (whitespace d1 p3)"
        using b3 3(2) by (simp_all add: whitespace_local_less [OF assms] agree_get [OF assms])
      ultimately show ?thesis
        using 1 3(2) Suc(3) by (auto simp: json_elements.simps(2) Let_def)
    qed
  }
qed simp_all

section \<open>Shift: a scan does not depend on its position in the document\<close>

abbreviation shifted :: "nat \<Rightarrow> nat scan \<Rightarrow> nat scan" where
  "shifted n \<equiv> map_ok (\<lambda>p. n + p)"

abbreviation shifted_snd :: "nat \<Rightarrow> ('a \<times> nat) scan \<Rightarrow> ('a \<times> nat) scan" where
  "shifted_snd n \<equiv> map_ok (\<lambda>(a, p). (a, n + p))"

lemma get_shift_Suc [simp]: "get (x @ t) (Suc (length x + k)) = get t (Suc k)"
  using get_append_right [of x t "Suc k"] by (simp del: get_append_right)

lemma slice_shift [simp]: "slice (x @ t) (length x + i) (length x + j) = slice t i j"
  by (simp add: slice_def)

lemma get_range_shift [simp]: "get_range (x @ t) (length x + i) (length x + j) = get_range t i j"
  by (simp add: get_range_def)

lemma whitespace_shift [simp]: "whitespace (x @ t) (length x + k) = length x + whitespace t k"
proof (induction t k rule: whitespace.induct)
  case (1 t k)
  show ?case
  proof (cases "\<exists>b. get t k = Some b \<and> is_ascii_whitespace b")
    case True
    with 1 show ?thesis
      by (auto simp: whitespace_step [of t k] whitespace_step [of "x @ t" "length x + k"])
  next
    case False
    then show ?thesis by (simp add: whitespace_id)
  qed
qed

lemma skip_digits_shift [simp]: "skip_digits (x @ t) (length x + k) = length x + skip_digits t k"
proof (induction t k rule: skip_digits.induct)
  case (1 t k)
  then show ?case
    by (simp add: skip_digits.simps [of t k] skip_digits.simps [of "x @ t" "length x + k"]
        split: option.split)
qed

lemma at_class_shift [simp]:
  "at_any (x @ t) (length x + k) cs = at_any t k cs" "at_digit (x @ t) (length x + k) = at_digit t k"
  "at_any (x @ t) (Suc (length x + k)) cs = at_any t (Suc k) cs"
  "at_digit (x @ t) (Suc (length x + k)) = at_digit t (Suc k)"
  by (simp_all add: at_any_def at_digit_def)

lemma whitespace_shift_Suc [simp]:
  "whitespace (x @ t) (Suc (length x + k)) = length x + whitespace t (Suc k)"
  using whitespace_shift [of x t "Suc k"] by (simp del: whitespace_shift)

lemma json_byte_shift: "json_byte (x @ t) c (length x + k) = shifted (length x) (json_byte t c k)"
  by (simp add: json_byte_def Let_def)

lemma escape_end_shift: "escape_end (x @ t) (length x + k) = length x + escape_end t k"
  by (simp add: escape_end_def)

lemma string_from_shift:
  "string_from (x @ t) (length x + q) (length x + k) = shifted_snd (length x) (string_from t q k)"
proof (induction t q k rule: string_from.induct)
  case (1 t q k)
  show ?case
  proof (cases "get t k")
    case None
    then show ?thesis
      by (simp add: string_from.simps [of t q k] string_from.simps [of "x @ t" _ "length x + k"])
  next
    case (Some b)
    consider "b = CHR 0x22" | "b = CHR 0x5C" | "b \<noteq> CHR 0x22" "b \<noteq> CHR 0x5C" by blast
    then show ?thesis
    proof cases
      case 1
      with Some slice_shift [of x t q "Suc k"] show ?thesis
        by (simp add: string_from_close map_ok_and_then del: slice_shift)
    next
      case 2
      have IH: "escape_end t k \<le> length t \<Longrightarrow>
          string_from (x @ t) (length x + q) (length x + escape_end t k)
          = shifted_snd (length x) (string_from t q (escape_end t k))"
        using "1.IH"(1) [OF Some] 2 by (simp add: escape_end_def not_less)
      with 2 Some show ?thesis by (simp add: string_from_escape escape_end_shift)
    next
      case 3
      have "\<not> byte b \<le> 0x1f \<Longrightarrow> string_from (x @ t) (length x + q) (length x + (k + 1))
          = shifted_snd (length x) (string_from t q (k + 1))"
        using "1.IH"(2) [OF Some] 3 by blast
      with 3 Some show ?thesis by (simp add: string_from_plain)
    qed
  qed
qed

lemma json_string_shift: "json_string (x @ t) (length x + k) = shifted_snd (length x) (json_string t k)"
  using string_from_shift [of x t "whitespace t k" "Suc (whitespace t k)"]
  by (simp add: json_string_def Let_def)

lemma some_digits_shift: "some_digits (x @ t) (length x + k) = shifted (length x) (some_digits t k)"
  by (simp add: some_digits_def Let_def)

lemma number_part_shift:
  "number_integer (x @ t) (length x + k) = shifted (length x) (number_integer t k)"
  "number_fraction (x @ t) (length x + k) = shifted (length x) (number_fraction t k)"
  "number_exponent (x @ t) (length x + k) = shifted (length x) (number_exponent t k)"
  using skip_digits_shift [of x t "Suc k"] some_digits_shift [of x t "Suc k"] some_digits_shift [of x t "k + 2"]
  by (simp_all add: number_integer_def number_fraction_def number_exponent_def del: skip_digits_shift)

lemma json_number_shift: "json_number (x @ t) (length x + k) = shifted (length x) (json_number t k)"
  using number_part_shift(1) [of x t "Suc k"]
  by (simp add: json_number_def Let_def number_part_shift map_ok_and_then)

lemma value_arm_shift: "value_arm (x @ t) (length x + k) = value_arm t k"
  unfolding value_arm_def add.assoc get_append_right get_range_shift by (rule refl)

lemma json_shift:
  "json_value fuel (x @ t) depth (length x + k) = shifted_snd (length x) (json_value fuel t depth k)"
  "json_members fuel (x @ t) depth keys (length x + k) = shifted (length x) (json_members fuel t depth keys k)"
  "json_elements fuel (x @ t) depth (length x + k) = shifted (length x) (json_elements fuel t depth k)"
proof (induction fuel arbitrary: depth k keys)
  case (Suc fuel)
  {
    case 1
    show ?case
      by (cases "value_arm t (whitespace t k)")
        (simp_all add: json_value.simps(2) value_arm_shift json_string_shift json_number_shift
          map_ok_and_then Suc(2,3) case_prod_unfold Let_def)
  next
    case 2
    have next_shift: "json_members fuel (x @ t) depth ks (Suc (length x + j))
        = shifted (length x) (json_members fuel t depth ks (Suc j))" for ks j
      using Suc(2) [of depth ks "Suc j"] by simp
    show ?case
      by (simp add: json_members.simps(2) json_string_shift json_byte_shift Suc(1) map_ok_and_then
          case_prod_unfold Let_def next_shift if_distrib [of "shifted (length x)"] cong: if_cong)
  next
    case 3
    have next_shift: "json_elements fuel (x @ t) depth (Suc (length x + j))
        = shifted (length x) (json_elements fuel t depth (Suc j))" for j
      using Suc(3) [of depth "Suc j"] by simp
    show ?case
      by (simp add: json_elements.simps(2) Suc(1) map_ok_and_then
          case_prod_unfold Let_def next_shift if_distrib [of "shifted (length x)"] cong: if_cong)
  }
qed simp_all

lemma value_at_shift: "value_at (x @ t) depth (length x + k) = shifted_snd (length x) (value_at t depth k)"
  using fuel_monotone_le [of "value_fuel t" t depth k "value_fuel (x @ t)"] value_at_suffices [of t depth k]
  by (simp add: value_at_def json_shift value_fuel_def)

lemma value_at_local:
  assumes "agree s d1 d2" and "value_at d1 depth at = Ok (b, p)" and "clear_of s d2 p"
  shows "value_at d2 depth at = Ok (b, p)"
  using json_local(1) [OF assms(1)] assms(2,3) value_at_eqI unfolding value_at_def by blast

end
