(* ===== verification/Guest_Config.thy ===== *)
theory Guest_Config
  imports Guest_Scan
begin

text \<open>
  The \<open>daemon.json\<close> editor of the guest shutdown helper (src/guest/docker-shutdown.rs, lines
  291 to 367): \<open>locate\<close> finds a top-level member, \<open>boolean_field\<close> reads it and
  \<open>disabled_config\<close> splices \<open>live-restore: false\<close> into the text.

  The contract is stated over \<open>document\<close>, the list of a document's top-level members in
  order, each with its decoded key, the exact text of its value and the value's truth when
  it is a boolean. \<open>scan_from\<close>, \<open>rest_from\<close>, \<open>finish\<close> and \<open>members\<close> compute that list
  with positions; \<open>locate\<close> is shown to be a search in it.
\<close>

section \<open>The editor\<close>

definition LIMIT :: nat where
  "LIMIT = 1024 * 1024"

function locate_from ::
  "string \<Rightarrow> nat list \<Rightarrow> nat list list \<Rightarrow> located_value option \<Rightarrow> nat \<Rightarrow> (located_value option \<times> nat) scan"
where
  "locate_from data wanted keys found at =
     and_then (json_string data at) (\<lambda>(key, at).
     if key \<in> set keys then fail ''duplicate Docker configuration key''
     else and_then (json_byte data (CHR '':'') at) (\<lambda>at.
     let start = whitespace data at in
     and_then (value_at data 1 start) (\<lambda>(boolean, at).
     let found = (if key = wanted then Some \<lparr>start = start, stop = at, boolean = boolean\<rparr> else found);
         at = whitespace data at
     in if get data at = Some (CHR '','') then locate_from data wanted (key # keys) found (at + 1)
        else if get data at = Some (CHR ''}'') then Ok (found, at)
        else fail ''invalid JSON object'')))"
  by pat_completeness auto
termination
proof (relation "measure (\<lambda>(data, wanted, keys, found, at). length data - at)", goal_cases)
  case (2 data wanted keys found at kp key p1 p2 start bp b p3 found' w)
  have "p2 \<le> start" "p3 \<le> w" using 2 whitespace_ge by simp_all
  moreover have "at < p1" "p1 < p2" "start < p3"
    using 2 by (auto dest: json_string_bounds json_byte_bounds value_at_bounds)
  moreover have "w < length data" using 2 by (auto dest: get_SomeD)
  ultimately show ?case using 2 by simp
qed simp

declare locate_from.simps [simp del]

definition locate :: "string \<Rightarrow> nat list \<Rightarrow> (located_value option \<times> nat \<times> bool) scan" where
  "locate data wanted =
     (case json_byte data (CHR ''{'') 0 of
        Err _ \<Rightarrow> fail ''Docker configuration must be a JSON object''
      | Ok at \<Rightarrow>
          (let at = whitespace data at;
               any = (get data at \<noteq> Some (CHR ''}''))
           in and_then (if any then locate_from data wanted [] None at else Ok (None, at)) (\<lambda>(found, at).
              and_then (json_byte data (CHR ''}'') at) (\<lambda>at.
              let close = at - 1; at = whitespace data at in
              if at \<noteq> length data then fail ''trailing data after JSON object''
              else Ok (found, close, any)))))"

definition boolean_field :: "string \<Rightarrow> nat list \<Rightarrow> bool option scan" where
  "boolean_field data key =
     and_then (locate data key) (\<lambda>(found, _, _).
       case found of
         None \<Rightarrow> Ok None
       | Some v \<Rightarrow> (case boolean v of
           None \<Rightarrow> fail ''Docker field must be a boolean''
         | Some b \<Rightarrow> Ok (Some b)))"

definition live_restore_key :: "nat list" where
  "live_restore_key = map of_char ''live-restore''"

definition live_restore_member :: string where
  "live_restore_member = CHR 0x22 # ''live-restore'' @ CHR 0x22 # '':false''"

definition disabled_config :: "string \<Rightarrow> string scan" where
  "disabled_config original =
     and_then (locate original live_restore_key) (\<lambda>(located, close, any).
     and_then
       (case located of
          Some v \<Rightarrow>
            (case boolean v of
               None \<Rightarrow> fail ''Docker live-restore must be a boolean''
             | Some _ \<Rightarrow> Ok (take (start v) original @ ''false'' @ drop (stop v) original))
        | None \<Rightarrow>
            Ok (take close original @ (if any then '','' else []) @ live_restore_member
                @ drop close original))
       (\<lambda>data. if length data > LIMIT then fail ''Temporary Docker configuration exceeds 1 MiB''
               else Ok data))"

section \<open>The members of a document\<close>

record member =
  key :: "nat list"
  first :: nat
  past :: nat
  truth :: "bool option"

text \<open>The member list the scanner walks over, with the position of the closing brace.\<close>

function scan_from :: "string \<Rightarrow> nat list list \<Rightarrow> nat \<Rightarrow> (member list \<times> nat) scan" where
  "scan_from data keys at =
     and_then (json_string data at) (\<lambda>(k, p1).
     if k \<in> set keys then fail ''duplicate Docker configuration key''
     else and_then (json_byte data (CHR '':'') p1) (\<lambda>p2.
     and_then (value_at data 1 (whitespace data p2)) (\<lambda>(b, p3).
     map_ok (\<lambda>(ms, close). (\<lparr>key = k, first = whitespace data p2, past = p3, truth = b\<rparr> # ms, close))
       (if get data (whitespace data p3) = Some (CHR '','')
        then scan_from data (k # keys) (whitespace data p3 + 1)
        else if get data (whitespace data p3) = Some (CHR ''}'') then Ok ([], whitespace data p3)
        else fail ''invalid JSON object''))))"
  by pat_completeness auto
termination
proof (relation "measure (\<lambda>(data, keys, at). length data - at)", goal_cases)
  case (2 data keys at kp k p1 p2 bp b p3)
  have "p2 \<le> whitespace data p2" "p3 \<le> whitespace data p3" by (simp_all add: whitespace_ge)
  moreover have "at < p1" "p1 < p2" "whitespace data p2 < p3"
    using 2 by (auto dest: json_string_bounds json_byte_bounds value_at_bounds)
  moreover have "whitespace data p3 < length data" using 2 by (auto dest: get_SomeD)
  ultimately show ?case by simp
qed simp

declare scan_from.simps [simp del]

definition rest_from :: "string \<Rightarrow> nat list list \<Rightarrow> nat \<Rightarrow> (member list \<times> nat) scan" where
  "rest_from data keys at =
     (if get data (whitespace data at) = Some (CHR '','')
      then scan_from data keys (whitespace data at + 1)
      else if get data (whitespace data at) = Some (CHR ''}'') then Ok ([], whitespace data at)
      else fail ''invalid JSON object'')"

definition finish :: "string \<Rightarrow> nat \<Rightarrow> nat scan" where
  "finish data at =
     and_then (json_byte data (CHR ''}'') at) (\<lambda>at.
       if whitespace data at \<noteq> length data then fail ''trailing data after JSON object''
       else Ok (at - 1))"

definition members :: "string \<Rightarrow> (member list \<times> nat) scan" where
  "members data =
     (case json_byte data (CHR ''{'') 0 of
        Err _ \<Rightarrow> fail ''Docker configuration must be a JSON object''
      | Ok at \<Rightarrow>
          and_then (if get data (whitespace data at) \<noteq> Some (CHR ''}'')
                    then scan_from data [] (whitespace data at) else Ok ([], whitespace data at))
            (\<lambda>(ms, at). map_ok (\<lambda>close. (ms, close)) (finish data at)))"

lemma scan_from_unfold:
  "scan_from data keys at =
     and_then (json_string data at) (\<lambda>(k, p1).
     if k \<in> set keys then fail ''duplicate Docker configuration key''
     else and_then (json_byte data (CHR '':'') p1) (\<lambda>p2.
     and_then (value_at data 1 (whitespace data p2)) (\<lambda>(b, p3).
     map_ok (\<lambda>(ms, close). (\<lparr>key = k, first = whitespace data p2, past = p3, truth = b\<rparr> # ms, close))
       (rest_from data (k # keys) p3))))"
  unfolding rest_from_def by (subst scan_from.simps) (rule refl)

lemma scan_from_OkE:
  assumes "scan_from data keys at = Ok (ms, close)"
  obtains k p1 p2 b p3 ms' where "json_string data at = Ok (k, p1)" "k \<notin> set keys"
    "json_byte data (CHR '':'') p1 = Ok p2" "value_at data 1 (whitespace data p2) = Ok (b, p3)"
    "rest_from data (k # keys) p3 = Ok (ms', close)"
    "ms = \<lparr>key = k, first = whitespace data p2, past = p3, truth = b\<rparr> # ms'"
  using assms by (auto simp: scan_from_unfold split: if_splits)

lemma scan_from_induct [consumes 1, case_names last more]:
  assumes "scan_from data keys at = Ok (ms, close)"
    and "\<And>keys at k p1 p2 b p3. json_string data at = Ok (k, p1) \<Longrightarrow> k \<notin> set keys \<Longrightarrow>
      json_byte data (CHR '':'') p1 = Ok p2 \<Longrightarrow> value_at data 1 (whitespace data p2) = Ok (b, p3) \<Longrightarrow>
      whitespace data p3 = close \<Longrightarrow> get data close = Some (CHR ''}'') \<Longrightarrow>
      P keys at [\<lparr>key = k, first = whitespace data p2, past = p3, truth = b\<rparr>]"
    and "\<And>keys at k p1 p2 b p3 ms. json_string data at = Ok (k, p1) \<Longrightarrow> k \<notin> set keys \<Longrightarrow>
      json_byte data (CHR '':'') p1 = Ok p2 \<Longrightarrow> value_at data 1 (whitespace data p2) = Ok (b, p3) \<Longrightarrow>
      get data (whitespace data p3) = Some (CHR '','') \<Longrightarrow>
      scan_from data (k # keys) (whitespace data p3 + 1) = Ok (ms, close) \<Longrightarrow>
      P (k # keys) (whitespace data p3 + 1) ms \<Longrightarrow>
      P keys at (\<lparr>key = k, first = whitespace data p2, past = p3, truth = b\<rparr> # ms)"
  shows "P keys at ms"
  using assms(1)
proof (induction "length data - at" arbitrary: keys at ms rule: less_induct)
  case less
  from less.prems show ?case
  proof (cases rule: scan_from_OkE)
    case scan: (1 k p1 p2 b p3 ms')
    let ?w = "whitespace data p3"
    have "p2 \<le> whitespace data p2" "p3 \<le> ?w" by (simp_all add: whitespace_ge)
    with scan have lt: "at < ?w"
      by (auto dest!: json_string_bounds json_byte_bounds value_at_bounds)
    from scan(5) consider "get data ?w = Some (CHR '','')" "scan_from data (k # keys) (?w + 1) = Ok (ms', close)"
      | "get data ?w = Some (CHR ''}'')" "ms' = []" "close = ?w"
      by (auto simp: rest_from_def split: if_splits)
    then show ?thesis
    proof cases
      case 1
      from 1(1) lt have "length data - (?w + 1) < length data - at" by (auto dest!: get_SomeD)
      with less.hyps 1 have "P (k # keys) (?w + 1) ms'" by blast
      with scan assms(3) [OF scan(1-4) 1] show ?thesis by simp
    next
      case 2
      with scan assms(2) [OF scan(1-4)] show ?thesis by simp
    qed
  qed
qed

lemma scan_from_bounds:
  assumes "scan_from data keys at = Ok (ms, close)"
  shows "at < close \<and> get data close = Some (CHR ''}'')
    \<and> (\<forall>m\<in>set ms. at < first m \<and> first m < past m \<and> past m \<le> close)"
  using assms
proof (induction rule: scan_from_induct)
  case (last keys at k p1 p2 b p3)
  have "p2 \<le> whitespace data p2" "p3 \<le> close" using last(5) by (auto simp: whitespace_ge)
  with last show ?case by (auto dest!: json_string_bounds json_byte_bounds value_at_bounds)
next
  case (more keys at k p1 p2 b p3 ms)
  have "p2 \<le> whitespace data p2" "p3 \<le> whitespace data p3" by (auto simp: whitespace_ge)
  with more show ?case by (force dest!: json_string_bounds json_byte_bounds value_at_bounds)
qed

lemma scan_from_order:
  assumes "scan_from data keys at = Ok (ms, close)"
  shows "sorted_wrt (\<lambda>a b. past a < first b) ms"
  using assms
proof (induction rule: scan_from_induct)
  case (more keys at k p1 p2 b p3 ms)
  with scan_from_bounds [OF more(6)] whitespace_ge [of p3 data] show ?case by auto
qed simp

lemma scan_from_keys:
  assumes "scan_from data keys at = Ok (ms, close)"
  shows "distinct (map key ms) \<and> set (map key ms) \<inter> set keys = {} \<and> ms \<noteq> []"
  using assms by (induction rule: scan_from_induct) auto

definition located :: "member \<Rightarrow> located_value" where
  "located m = \<lparr>start = first m, stop = past m, boolean = truth m\<rparr>"

definition pick :: "nat list \<Rightarrow> located_value option \<Rightarrow> member \<Rightarrow> located_value option" where
  "pick wanted found m = (if key m = wanted then Some (located m) else found)"

lemma locate_from_scan:
  "locate_from data wanted keys found at =
     map_ok (\<lambda>(ms, close). (foldl (pick wanted) found ms, close)) (scan_from data keys at)"
proof (induction data wanted keys found at rule: locate_from.induct)
  case (1 data wanted keys found at)
  show ?case
  proof (cases "json_string data at")
    case (Err e)
    then show ?thesis by (simp add: locate_from.simps [of data] scan_from.simps [of data])
  next
    case (Ok kp)
    then obtain k p1 where str: "json_string data at = Ok (k, p1)" by (cases kp) simp
    show ?thesis
    proof (cases "k \<in> set keys \<or> (\<exists>e. json_byte data (CHR '':'') p1 = Err e)")
      case True
      with str show ?thesis by (auto simp: locate_from.simps [of data] scan_from.simps [of data])
    next
      case False
      then obtain p2 where colon: "k \<notin> set keys" "json_byte data (CHR '':'') p1 = Ok p2"
        by (cases "json_byte data (CHR '':'') p1") auto
      show ?thesis
      proof (cases "value_at data 1 (whitespace data p2)")
        case (Err e)
        with str colon show ?thesis by (simp add: locate_from.simps [of data] scan_from.simps [of data])
      next
        case (Ok bp)
        then obtain b p3 where val: "value_at data 1 (whitespace data p2) = Ok (b, p3)" by (cases bp) simp
        note IH = "1.IH" [OF str refl colon refl val refl refl refl]
        show ?thesis
          using str colon val IH
          by (cases "k = wanted")
            (simp_all add: locate_from.simps [of data wanted keys] scan_from.simps [of data keys] Let_def
              case_prod_unfold pick_def located_def)
      qed
    qed
  qed
qed

lemma foldl_pick:
  "distinct (map key ms) \<Longrightarrow> foldl (pick wanted) found ms =
     (case find (\<lambda>m. key m = wanted) ms of None \<Rightarrow> found | Some m \<Rightarrow> Some (located m))"
proof (induction ms arbitrary: found)
  case (Cons m ms)
  then show ?case
    by (auto simp: pick_def find_None_iff split: option.split dest!: find_Some_iff [THEN iffD1])
qed simp

definition moved :: "nat \<Rightarrow> member \<Rightarrow> member" where
  "moved n m = m\<lparr>first := n + first m, past := n + past m\<rparr>"

lemma scan_from_shift:
  "scan_from (x @ t) keys (length x + k) =
     map_ok (\<lambda>(ms, close). (map (moved (length x)) ms, length x + close)) (scan_from t keys k)"
proof (induction t keys k rule: scan_from.induct)
  case (1 t keys at)
  show ?case
  proof (cases "json_string t at")
    case (Err e)
    then show ?thesis by (simp add: scan_from.simps [of "x @ t"] scan_from.simps [of t] json_string_shift)
  next
    case (Ok kp)
    then obtain k p1 where str: "json_string t at = Ok (k, p1)" by (cases kp) simp
    show ?thesis
    proof (cases "k \<in> set keys \<or> (\<exists>e. json_byte t (CHR '':'') p1 = Err e)")
      case True
      with str show ?thesis
        by (auto simp: scan_from.simps [of "x @ t"] scan_from.simps [of t] json_string_shift json_byte_shift)
    next
      case False
      then obtain p2 where colon: "k \<notin> set keys" "json_byte t (CHR '':'') p1 = Ok p2"
        by (cases "json_byte t (CHR '':'') p1") auto
      show ?thesis
      proof (cases "value_at t 1 (whitespace t p2)")
        case (Err e)
        with str colon show ?thesis
          by (simp add: scan_from.simps [of "x @ t"] scan_from.simps [of t] json_string_shift
              json_byte_shift value_at_shift)
      next
        case (Ok bp)
        then obtain b p3 where val: "value_at t 1 (whitespace t p2) = Ok (b, p3)" by (cases bp) simp
        note IH = "1.IH" [OF str refl colon val refl]
        show ?thesis
          using str colon val IH
          by (simp add: scan_from.simps [of "x @ t" keys] scan_from.simps [of t keys] json_string_shift
              json_byte_shift value_at_shift case_prod_unfold moved_def)
      qed
    qed
  qed
qed

lemma rest_from_shift:
  "rest_from (x @ t) keys (length x + k) =
     map_ok (\<lambda>(ms, close). (map (moved (length x)) ms, length x + close)) (rest_from t keys k)"
  using scan_from_shift [of x t keys "Suc (whitespace t k)"] by (simp add: rest_from_def)

lemma finish_shift: "finish (x @ t) (length x + k) = shifted (length x) (finish t k)"
proof (cases "json_byte t (CHR ''}'') k")
  case (Ok p)
  then have "0 < p" by (auto dest: json_byte_bounds)
  with Ok show ?thesis by (simp add: finish_def json_byte_shift)
qed (simp add: finish_def json_byte_shift)

definition raw :: "string \<Rightarrow> member \<Rightarrow> nat list \<times> string \<times> bool option" where
  "raw data m = (key m, slice data (first m) (past m), truth m)"

lemma raw_moved: "raw (x @ t) (moved (length x) m) = raw t m"
  by (simp add: raw_def moved_def)

lemma raw_agree: "agree s d1 d2 \<Longrightarrow> past m \<le> s \<Longrightarrow> raw d2 m = raw d1 m"
  by (simp add: raw_def agree_slice)

definition document :: "string \<Rightarrow> (nat list \<times> string \<times> bool option) list scan" where
  "document data = map_ok (\<lambda>(ms, _). map (raw data) ms) (members data)"

lemma locate_members:
  "locate data wanted =
     map_ok (\<lambda>(ms, close). (map_option located (find (\<lambda>m. key m = wanted) ms), close, ms \<noteq> []))
       (members data)"
proof (cases "json_byte data (CHR ''{'') 0")
  case (Err e)
  then show ?thesis by (simp add: locate_def members_def)
next
  case (Ok at)
  show ?thesis
  proof (cases "get data (whitespace data at) = Some (CHR ''}'')")
    case True
    with Ok show ?thesis
      by (cases "json_byte data (CHR ''}'') (whitespace data at)")
        (simp_all add: locate_def members_def finish_def Let_def)
  next
    case False
    show ?thesis
    proof (cases "scan_from data [] (whitespace data at)")
      case (Err e)
      with Ok False show ?thesis by (simp add: locate_def members_def locate_from_scan)
    next
      case scan: (Ok mc)
      obtain ms close where mc: "mc = (ms, close)" by (cases mc)
      with scan have "distinct (map key ms)" "ms \<noteq> []" by (auto dest: scan_from_keys)
      then show ?thesis
        using Ok False scan mc
        by (cases "json_byte data (CHR ''}'') close")
          (simp_all add: locate_def members_def locate_from_scan foldl_pick finish_def Let_def
            map_option_case)
    qed
  qed
qed

lemma scan_from_replace:
  assumes "scan_from d1 keys at = Ok (ms1 @ m # ms2, close)"
    and d1: "d1 = x @ mid @ t" and m: "length x = first m" "past m = length (x @ mid)"
    and d2: "d2 = x @ mid' @ t"
    and val: "value_at d2 1 (length x) = Ok (b, length (x @ mid'))"
    and ws: "whitespace d2 (length x) = length x"
  shows "\<exists>ms2' c. ms2 = map (moved (length (x @ mid))) ms2' \<and> close = length (x @ mid) + c \<and>
    scan_from d2 keys at = Ok (ms1 @ m\<lparr>past := length (x @ mid'), truth := b\<rparr>
      # map (moved (length (x @ mid'))) ms2', length (x @ mid') + c)"
  using assms(1)
proof (induction ms1 arbitrary: keys at)
  case Nil
  have agree: "agree (length x) d1 d2" by (simp add: agree_def d1 d2)
  from Nil have "scan_from d1 keys at = Ok (m # ms2, close)" by simp
  then show ?case
  proof (cases rule: scan_from_OkE)
    case (1 k p1 p2 b0 p3 ms')
    then have p2: "whitespace d1 p2 = length x" "p3 = length (x @ mid)" using m by simp_all
    have "p1 < p2" "p2 \<le> length x"
      using 1(3) p2(1) whitespace_ge [of p2 d1] by (auto dest: json_byte_bounds)
    then have "json_string d2 at = Ok (k, p1)" "json_byte d2 (CHR '':'') p1 = Ok p2"
      using 1 json_string_local [OF agree] json_byte_local [OF agree] by auto
    moreover have "whitespace d2 p2 = length x"
      using whitespace_local [of d1 p2 d2] agree p2(1) ws whitespace_stop [of d2 "length x"] by auto
    moreover obtain ms2' c where rest: "rest_from t (k # keys) 0 = Ok (ms2', c)"
      "ms2 = map (moved (length (x @ mid))) ms2'" "close = length (x @ mid) + c"
      using 1(5,6) p2(2) rest_from_shift [of "x @ mid" t "k # keys" 0] d1
      by (cases "rest_from t (k # keys) 0") auto
    moreover have "rest_from d2 (k # keys) (length (x @ mid'))
        = Ok (map (moved (length (x @ mid'))) ms2', length (x @ mid') + c)"
      using rest_from_shift [of "x @ mid'" t "k # keys" 0] rest(1) d2 by simp
    ultimately show ?thesis
      using 1(2,6) val p2 by (auto simp: scan_from_unfold [of d2 keys])
  qed
next
  case (Cons m1 ms1)
  have agree: "agree (length x) d1 d2" by (simp add: agree_def d1 d2)
  from Cons have "scan_from d1 keys at = Ok (m1 # ms1 @ m # ms2, close)" by simp
  then show ?case
  proof (cases rule: scan_from_OkE)
    case (1 k p1 p2 b0 p3 ms')
    let ?w = "whitespace d1 p3"
    from 1(5,6) have comma: "get d1 ?w = Some (CHR '','')"
      and tl: "scan_from d1 (k # keys) (?w + 1) = Ok (ms1 @ m # ms2, close)"
      by (auto simp: rest_from_def split: if_splits)
    then have w: "?w + 1 < length x" using scan_from_bounds [OF tl] m by simp
    have lt: "p1 < p2" "p2 \<le> whitespace d1 p2" "whitespace d1 p2 < p3" "p3 \<le> ?w"
      using 1(3,4) whitespace_ge by (auto dest: json_byte_bounds value_at_bounds)
    then have "json_string d2 at = Ok (k, p1)" "json_byte d2 (CHR '':'') p1 = Ok p2"
      "value_at d2 1 (whitespace d1 p2) = Ok (b0, p3)"
      using 1 w json_string_local [OF agree] json_byte_local [OF agree] value_at_local [OF agree]
      by (auto simp: clear_of_less)
    moreover have "whitespace d2 p2 = whitespace d1 p2" "whitespace d2 p3 = ?w" "get d2 ?w = get d1 ?w"
      using w lt by (simp_all add: whitespace_local_less [OF agree] agree_get [OF agree])
    ultimately show ?thesis
      using Cons.IH [OF tl] 1 comma by (auto simp: scan_from_unfold [of d2 keys] rest_from_def)
  qed
qed

lemma scan_from_insert:
  assumes "scan_from d1 keys at = Ok (ms, close)"
    and d1: "d1 = x @ t" and x: "length x = close" and d2: "d2 = x @ CHR '','' # u"
    and u: "scan_from u (rev (map key ms) @ keys) 0 = Ok (ms', c)"
  shows "scan_from d2 keys at = Ok (ms @ map (moved (close + 1)) ms', close + 1 + c)"
  using assms(1) u
proof (induction rule: scan_from_induct)
  case (last keys at k p1 p2 b p3)
  have agree: "agree close d1 d2" using x by (simp add: agree_def d1 d2)
  have lt: "p1 < p2" "p2 \<le> whitespace d1 p2" "whitespace d1 p2 < p3" "p3 \<le> close"
    using last(3-5) whitespace_ge by (auto dest: json_byte_bounds value_at_bounds)
  have comma: "get d2 close = Some (CHR '','')" using x get_append_right [of x "CHR '','' # u" 0] by (simp add: d2)
  then have "clear_of close d2 p3" using lt
    by (auto simp: clear_of_def at_digit_def at_any_def is_ascii_digit_def)
  then have "json_string d2 at = Ok (k, p1)" "json_byte d2 (CHR '':'') p1 = Ok p2"
    "value_at d2 1 (whitespace d1 p2) = Ok (b, p3)"
    using last(1-4) lt json_string_local [OF agree] json_byte_local [OF agree] value_at_local [OF agree]
    by auto
  moreover have "whitespace d2 p2 = whitespace d1 p2"
    using lt by (simp add: whitespace_local_less [OF agree])
  moreover have "whitespace d2 p3 = close"
    using whitespace_local [of d1 p3 d2] agree last(5) comma by (auto simp: is_ascii_whitespace_def)
  moreover have "scan_from d2 (k # keys) (close + 1) = Ok (map (moved (close + 1)) ms', close + 1 + c)"
    using scan_from_shift [of "x @ '',''" u "k # keys" 0] last(7) x by (simp add: d2)
  ultimately show ?case
    using last(2) comma by (simp add: scan_from_unfold [of d2 keys] rest_from_def)
next
  case (more keys at k p1 p2 b p3 ms)
  have agree: "agree close d1 d2" using x by (simp add: agree_def d1 d2)
  let ?w = "whitespace d1 p3"
  have w: "?w + 1 < close" using scan_from_bounds [OF more(6)] by simp
  have lt: "p1 < p2" "p2 \<le> whitespace d1 p2" "whitespace d1 p2 < p3" "p3 \<le> ?w"
    using more(3,4) whitespace_ge by (auto dest: json_byte_bounds value_at_bounds)
  then have "json_string d2 at = Ok (k, p1)" "json_byte d2 (CHR '':'') p1 = Ok p2"
    "value_at d2 1 (whitespace d1 p2) = Ok (b, p3)"
    using more(1-4) w json_string_local [OF agree] json_byte_local [OF agree] value_at_local [OF agree]
    by (auto simp: clear_of_less)
  moreover have "whitespace d2 p2 = whitespace d1 p2" "whitespace d2 p3 = ?w" "get d2 ?w = get d1 ?w"
    using w lt by (simp_all add: whitespace_local_less [OF agree] agree_get [OF agree])
  ultimately show ?case
    using more by (simp add: scan_from_unfold [of d2 keys] rest_from_def)
qed


lemma finish_at_close: "finish data at = Ok c \<Longrightarrow> get data at = Some (CHR ''}'') \<Longrightarrow> c = at"
  using whitespace_id [of data at]
  by (auto simp: finish_def json_byte_def Let_def is_ascii_whitespace_def split: if_splits)

lemma membersE:
  assumes "members data = Ok (ms, close)"
  obtains at where "json_byte data (CHR ''{'') 0 = Ok at" "finish data close = Ok close"
    "get data close = Some (CHR ''}'')"
    "ms = [] \<and> close = whitespace data at \<or>
     ms \<noteq> [] \<and> get data (whitespace data at) \<noteq> Some (CHR ''}'') \<and>
     scan_from data [] (whitespace data at) = Ok (ms, close)"
proof -
  from assms obtain at c where at: "json_byte data (CHR ''{'') 0 = Ok at"
    and parts: "(if get data (whitespace data at) \<noteq> Some (CHR ''}'')
       then scan_from data [] (whitespace data at) else Ok ([], whitespace data at)) = Ok (ms, c)"
    and fin: "finish data c = Ok close"
    by (auto simp: members_def split: result.splits)
  have brace: "get data c = Some (CHR ''}'')"
    using parts by (auto split: if_splits dest: scan_from_bounds)
  with fin have "close = c" by (rule finish_at_close)
  then show ?thesis
    using that at parts fin brace by (auto split: if_splits dest: scan_from_keys)
qed

lemma membersI:
  assumes "json_byte data (CHR ''{'') 0 = Ok at" "finish data c = Ok close"
    and "get data (whitespace data at) \<noteq> Some (CHR ''}'')"
    and "scan_from data [] (whitespace data at) = Ok (ms, c)"
  shows "members data = Ok (ms, close)"
  using assms by (simp add: members_def)

lemma value_at_false: "value_at (''false'' @ t) 1 0 = Ok (Some False, 5)"
proof -
  have "value_arm (''false'' @ t) 0 = LiteralArm (Some False) 5"
    by (rule value_arm_literal_intro) (simp add: get_range_def)
  moreover have "whitespace (''false'' @ t) 0 = 0" by (rule whitespace_id) (simp add: is_ascii_whitespace_def)
  ultimately show ?thesis
    by (simp add: value_at_def value_fuel_def json_value.simps(2) del: append.simps)
qed

lemma members_replace:
  assumes "members d1 = Ok (ms1 @ m # ms2, close)"
  shows "document (take (first m) d1 @ ''false'' @ drop (past m) d1) =
    Ok (map (raw d1) ms1 @ (key m, ''false'', Some False) # map (raw d1) ms2)"
proof -
  define x mid t where parts: "x = take (first m) d1" "mid = slice d1 (first m) (past m)" "t = drop (past m) d1"
  from assms obtain at where open_brace: "json_byte d1 (CHR ''{'') 0 = Ok at" and fin: "finish d1 close = Ok close"
    and scan: "scan_from d1 [] (whitespace d1 at) = Ok (ms1 @ m # ms2, close)"
    and brace: "get d1 (whitespace d1 at) \<noteq> Some (CHR ''}'')"
    by (elim membersE) auto
  have bounds: "whitespace d1 at < first m" "first m < past m" "past m \<le> close" "close < length d1"
    and before: "\<forall>m1\<in>set ms1. past m1 \<le> first m"
    using scan_from_bounds [OF scan] scan_from_order [OF scan]
    by (auto simp: sorted_wrt_append get_Some_iff intro: less_imp_le)
  then have x: "length x = first m" and mid: "past m = length (x @ mid)" and d1: "d1 = x @ mid @ t"
    by (simp_all add: parts slice_def, metis append_take_drop_id drop_drop le_add_diff_inverse2 less_imp_le)
  define d2 where "d2 = x @ ''false'' @ t"
  have val: "value_at d2 1 (length x) = Ok (Some False, length (x @ ''false''))"
    using value_at_shift [of x "''false'' @ t" 1 0] value_at_false [of t] by (simp add: d2_def)
  have ws: "whitespace d2 (length x) = length x"
    using whitespace_shift [of x "''false'' @ t" 0] whitespace_id [of "''false'' @ t" 0]
    by (simp add: d2_def is_ascii_whitespace_def)
  obtain ms2' c where ms2: "ms2 = map (moved (length (x @ mid))) ms2'" "close = length (x @ mid) + c"
    and scan2: "scan_from d2 [] (whitespace d1 at) = Ok (ms1 @ m\<lparr>past := length (x @ ''false''), truth := Some False\<rparr>
      # map (moved (length (x @ ''false''))) ms2', length (x @ ''false'') + c)"
    using scan_from_replace [OF scan d1 x mid d2_def val ws] by blast
  have agree: "agree (length x) d1 d2" by (simp add: agree_def d1 d2_def)
  have "json_byte d2 (CHR ''{'') 0 = Ok at"
    using json_byte_local [OF agree open_brace] bounds x whitespace_ge [of at d1] by simp
  moreover have "whitespace d2 at = whitespace d1 at" "get d2 (whitespace d1 at) = get d1 (whitespace d1 at)"
    using bounds x by (simp_all add: whitespace_local_less [OF agree] agree_get [OF agree])
  moreover have "finish d2 (length (x @ ''false'') + c) = Ok (length (x @ ''false'') + c)"
    using fin ms2(2) finish_shift [of "x @ mid" t c] finish_shift [of "x @ ''false''" t c]
    by (cases "finish t c") (simp_all add: d1 d2_def)
  ultimately have "members d2 = Ok (ms1 @ m\<lparr>past := length (x @ ''false''), truth := Some False\<rparr>
      # map (moved (length (x @ ''false''))) ms2', length (x @ ''false'') + c)"
    using brace scan2
    by (intro membersI [where at = at and c = "length (x @ ''false'') + c"]) simp_all
  moreover have "map (raw d2) ms1 = map (raw d1) ms1" using before x raw_agree [OF agree] by auto
  moreover have "raw d2 (moved (length (x @ ''false'')) m') = raw d1 (moved (length (x @ mid)) m')" for m'
    using raw_moved [of "x @ ''false''" t m'] raw_moved [of "x @ mid" t m'] by (simp add: d1 d2_def)
  moreover have "raw d2 (m\<lparr>past := length (x @ ''false''), truth := Some False\<rparr>) = (key m, ''false'', Some False)"
    using slice_shift [of x "''false'' @ t" 0 5] x by (simp add: raw_def d2_def slice_def)
  ultimately have "document d2 = Ok (map (raw d1) ms1 @ (key m, ''false'', Some False) # map (raw d1) ms2)"
    by (simp add: document_def ms2(1))
  then show ?thesis by (simp add: d2_def parts)
qed


lemma live_restore_string: "json_string (live_restore_member @ t) 0 = Ok (live_restore_key, 14)"
proof -
  have "json_string live_restore_member 0 = Ok (live_restore_key, 14)" by code_simp
  moreover have "agree 20 live_restore_member (live_restore_member @ t)"
    by (simp add: agree_def live_restore_member_def)
  ultimately show ?thesis using json_string_local by simp
qed

lemma scan_live_restore_member:
  assumes "live_restore_key \<notin> set keys"
  shows "scan_from (live_restore_member @ CHR ''}'' # t) keys 0 =
    Ok ([\<lparr>key = live_restore_key, first = 15, past = 20, truth = Some False\<rparr>], 20)"
proof -
  let ?colon = "CHR 0x22 # ''live-restore'' @ [CHR 0x22]" and ?t = "CHR ''}'' # t"
  let ?u = "live_restore_member @ ?t"
  have u: "?u = (?colon @ '':'') @ ''false'' @ ?t" "?u = live_restore_member @ ?t" "?u = ?colon @ '':'' @ ''false'' @ ?t"
    by (simp_all add: live_restore_member_def)
  have n: "length ?colon = 14" "length (?colon @ '':'') = 15" "length live_restore_member = 20"
    by (simp_all add: live_restore_member_def)
  have "json_byte ?u (CHR '':'') 14 = Ok 15"
    using json_byte_shift [of ?colon "'':'' @ ''false'' @ ?t" "CHR '':''" 0]
      whitespace_id [of "'':'' @ ''false'' @ ?t" 0]
    unfolding u(3) n(1) by (simp add: json_byte_def is_ascii_whitespace_def)
  moreover have "whitespace ?u 15 = 15"
    using whitespace_shift [of "?colon @ '':''" "''false'' @ ?t" 0] whitespace_id [of "''false'' @ ?t" 0]
    unfolding u(1) n(2) by (simp add: is_ascii_whitespace_def)
  moreover have "value_at ?u 1 15 = Ok (Some False, 20)"
    using value_at_shift [of "?colon @ '':''" "''false'' @ ?t" 1 0] value_at_false [of ?t]
    unfolding u(1) n(2) by simp
  moreover have "rest_from ?u (live_restore_key # keys) 20 = Ok ([], 20)"
    using rest_from_shift [of live_restore_member ?t "live_restore_key # keys" 0]
      whitespace_id [of ?t 0]
    unfolding n(3) by (simp add: rest_from_def is_ascii_whitespace_def)
  ultimately show ?thesis
    using assms by (simp add: scan_from_unfold [of ?u] live_restore_string)
qed

definition separator :: "member list \<Rightarrow> string" where
  "separator ms = (if ms \<noteq> [] then '','' else [])"

lemma members_insert:
  assumes ms: "members d1 = Ok (ms, close)" and fresh: "live_restore_key \<notin> key ` set ms"
  shows "document (take close d1 @ separator ms @ live_restore_member @ drop close d1) =
    Ok (map (raw d1) ms @ [(live_restore_key, ''false'', Some False)])"
proof -
  define x t where parts: "x = take close d1" "t = drop close d1"
  define u where "u = separator ms @ live_restore_member"
  define d2 where "d2 = x @ u @ t"
  from ms obtain at where open_brace: "json_byte d1 (CHR ''{'') 0 = Ok at" and fin: "finish d1 close = Ok close"
    and brace: "get d1 close = Some (CHR ''}'')"
    and scan: "ms = [] \<and> close = whitespace d1 at \<or> ms \<noteq> [] \<and>
      get d1 (whitespace d1 at) \<noteq> Some (CHR ''}'') \<and> scan_from d1 [] (whitespace d1 at) = Ok (ms, close)"
    by (elim membersE)
  have d1: "d1 = x @ t" and x: "length x = close" using get_SomeD [OF brace] by (simp_all add: parts)
  have agree: "agree close d1 d2" by (simp add: agree_def d1 d2_def x [symmetric])
  obtain t' where t: "t = CHR ''}'' # t'"
    using brace get_append_right [of x t 0] x d1 by (cases t) auto
  have "get d2 close = Some (if ms = [] then CHR 0x22 else CHR '','')"
    using get_append_right [of x "u @ t" 0] x by (simp add: d2_def u_def separator_def live_restore_member_def)
  then have at: "whitespace d2 at = whitespace d1 at" "get d2 (whitespace d1 at) \<noteq> Some (CHR ''}'')"
    "at \<le> close"
    using scan agree whitespace_ge [of at d1] whitespace_local [of d1 at d2]
      whitespace_local_less [OF agree, of at] agree_get [OF agree, of "whitespace d1 at"]
    by (auto simp: is_ascii_whitespace_def split: if_splits dest!: scan_from_bounds)
  have member: "scan_from (live_restore_member @ t) (rev (map key ms)) 0 =
      Ok ([\<lparr>key = live_restore_key, first = 15, past = 20, truth = Some False\<rparr>], 20)"
    using fresh scan_live_restore_member [of "rev (map key ms)" t'] by (simp add: t)
  have n: "length live_restore_member = 20" by (simp add: live_restore_member_def)
  have scan2: "scan_from d2 [] (whitespace d1 at) =
      Ok (ms @ [\<lparr>key = live_restore_key, first = length (x @ separator ms) + 15,
        past = length (x @ separator ms) + 20, truth = Some False\<rparr>], length (x @ u))"
    using scan
  proof
    assume "ms = [] \<and> close = whitespace d1 at"
    then show ?thesis
      using scan_from_shift [of x "live_restore_member @ t" "[]" 0] member x n
      by (simp add: d2_def u_def separator_def moved_def)
  next
    assume "ms \<noteq> [] \<and> get d1 (whitespace d1 at) \<noteq> Some (CHR ''}'') \<and>
      scan_from d1 [] (whitespace d1 at) = Ok (ms, close)"
    then show ?thesis
      using scan_from_insert [of d1 "[]" "whitespace d1 at" ms close x t d2 "live_restore_member @ t"] member x n d1
      by (simp add: d2_def u_def separator_def moved_def)
  qed
  have "finish d2 (length (x @ u)) = Ok (length (x @ u))"
    using fin finish_shift [of x t 0] finish_shift [of "x @ u" t 0] x
    by (cases "finish t 0") (simp_all add: d1 d2_def)
  with at scan2 json_byte_local [OF agree open_brace at(3)]
  have "members d2 = Ok (ms @ [\<lparr>key = live_restore_key, first = length (x @ separator ms) + 15,
        past = length (x @ separator ms) + 20, truth = Some False\<rparr>], length (x @ u))"
    by (intro membersI [where at = at and c = "length (x @ u)"]) simp_all
  moreover have "map (raw d2) ms = map (raw d1) ms"
    using scan raw_agree [OF agree] by (auto dest!: scan_from_bounds)
  moreover have "slice d2 (length (x @ separator ms) + 15) (length (x @ separator ms) + 20) = ''false''"
    using slice_shift [of "x @ separator ms" "live_restore_member @ t" 15 20]
    by (simp add: d2_def u_def) (simp add: slice_def live_restore_member_def)
  ultimately have "document d2 = Ok (map (raw d1) ms @ [(live_restore_key, ''false'', Some False)])"
    by (simp add: document_def raw_def)
  then show ?thesis by (simp add: d2_def u_def parts)
qed

lemma scan_from_not_out_of_fuel: "scan_from data keys at \<noteq> Err OutOfFuel"
proof (induction data keys at rule: scan_from.induct)
  case (1 data keys at)
  show ?case
    using 1 by (subst scan_from.simps)
      (auto simp: and_then_Err_iff map_ok_Err_iff scanner_not_out_of_fuel value_at_suffices split: if_splits)
qed

section \<open>What the editor does to a document\<close>

definition disable_live_restore ::
  "(nat list \<times> string \<times> bool option) list \<Rightarrow> (nat list \<times> string \<times> bool option) list"
where
  "disable_live_restore es =
     (if live_restore_key \<in> fst ` set es
      then map (\<lambda>e. if fst e = live_restore_key then (live_restore_key, ''false'', Some False) else e) es
      else es @ [(live_restore_key, ''false'', Some False)])"

lemma members_keys: "members data = Ok (ms, close) \<Longrightarrow> distinct (map key ms)"
  by (elim membersE) (auto dest: scan_from_keys)

lemma fst_raw [simp]: "fst (raw data m) = key m"
  by (simp add: raw_def)

lemma disabled_config_OkE:
  assumes "disabled_config original = Ok d"
  obtains (replace) ms1 m ms2 close b where "members original = Ok (ms1 @ m # ms2, close)"
      "key m = live_restore_key" "truth m = Some b"
      "d = take (first m) original @ ''false'' @ drop (past m) original" "length d \<le> LIMIT"
    | (insert) ms close where "members original = Ok (ms, close)" "live_restore_key \<notin> key ` set ms"
      "d = take close original @ separator ms @ live_restore_member @ drop close original" "length d \<le> LIMIT"
proof -
  from assms obtain ms close where ms: "members original = Ok (ms, close)"
    by (auto simp: disabled_config_def locate_members)
  show ?thesis
  proof (cases "find (\<lambda>m. key m = live_restore_key) ms")
    case None
    with assms ms show ?thesis
      by (intro insert [of ms close])
        (auto simp: disabled_config_def locate_members find_None_iff separator_def split: if_splits)
  next
    case (Some m)
    then obtain ms1 ms2 where "ms = ms1 @ m # ms2" "key m = live_restore_key"
      by (auto simp: find_Some_iff dest!: id_take_nth_drop)
    with Some assms ms show ?thesis
      by (cases "truth m")
        (auto simp: disabled_config_def locate_members located_def split: if_splits intro!: replace)
  qed
qed

lemma document_members:
  "members data = Ok (ms, close) \<Longrightarrow>
     document data = Ok (map (raw data) ms) \<and> distinct (map fst (map (raw data) ms))"
  by (simp add: document_def members_keys comp_def)

lemma disable_live_restore_in_place:
  assumes "distinct (map key (ms1 @ m # ms2))" and "key m = live_restore_key"
  shows "disable_live_restore (map (raw data) (ms1 @ m # ms2)) =
    map (raw data) ms1 @ (key m, ''false'', Some False) # map (raw data) ms2"
proof -
  have "key m \<notin> key ` (set ms1 \<union> set ms2)" using assms(1) by auto
  then have "key x \<noteq> live_restore_key" if "x \<in> set ms1 \<union> set ms2" for x
    using imageI [OF that, of key] assms(2) by metis
  then show ?thesis using assms(2) by (simp add: disable_live_restore_def)
qed

lemma disable_live_restore_append:
  "live_restore_key \<notin> key ` set ms \<Longrightarrow> disable_live_restore (map (raw data) ms) =
    map (raw data) ms @ [(live_restore_key, ''false'', Some False)]"
  by (simp add: disable_live_restore_def image_image)

lemma disabled_config_document:
  assumes "disabled_config original = Ok d"
  shows "\<exists>es. document original = Ok es \<and> distinct (map fst es) \<and> document d = Ok (disable_live_restore es)"
  using assms
proof (cases rule: disabled_config_OkE)
  case (replace ms1 m ms2 close b)
  show ?thesis
    unfolding replace(4) members_replace [OF replace(1)]
      disable_live_restore_in_place [OF members_keys [OF replace(1)] replace(2), symmetric]
    using document_members [OF replace(1)] by blast
next
  case (insert ms close)
  show ?thesis
    unfolding insert(3) members_insert [OF insert(1,2)] disable_live_restore_append [OF insert(2), symmetric]
    using document_members [OF insert(1)] by blast
qed

lemma boolean_field_document:
  "boolean_field data k =
     and_then (document data) (\<lambda>es.
       case map_of es k of
         None \<Rightarrow> Ok None
       | Some (_, None) \<Rightarrow> fail ''Docker field must be a boolean''
       | Some (_, Some b) \<Rightarrow> Ok (Some b))"
proof (cases "members data")
  case (Ok mc)
  obtain ms close where mc: "mc = (ms, close)" by (cases mc)
  have "map_of (map (raw data) ms) k =
      map_option (\<lambda>m. snd (raw data m)) (find (\<lambda>m. key m = k) ms)"
    by (induction ms) (simp_all add: raw_def)
  with Ok mc show ?thesis
    by (cases "find (\<lambda>m. key m = k) ms")
      (simp_all add: boolean_field_def locate_members document_def located_def raw_def)
qed (simp add: boolean_field_def locate_members document_def)

lemma map_of_disable:
  "distinct (map fst es) \<Longrightarrow> map_of (disable_live_restore es) live_restore_key = Some (''false'', Some False)"
  "k \<noteq> live_restore_key \<Longrightarrow> map_of (disable_live_restore es) k = map_of es k"
proof -
  have "map_of (map (\<lambda>e. if fst e = live_restore_key then (live_restore_key, ''false'', Some False) else e) es) k =
    (if k = live_restore_key \<and> k \<in> fst ` set es then Some (''false'', Some False) else map_of es k)" for k
    by (induction es) auto
  then show "k \<noteq> live_restore_key \<Longrightarrow> map_of (disable_live_restore es) k = map_of es k"
    and "distinct (map fst es) \<Longrightarrow> map_of (disable_live_restore es) live_restore_key = Some (''false'', Some False)"
    by (auto simp: disable_live_restore_def map_add_def map_of_eq_None_iff [symmetric] split: option.split)
qed

lemma disabled_config_fields:
  assumes "disabled_config original = Ok d"
  shows "boolean_field d live_restore_key = Ok (Some False) \<and>
    (\<forall>k. k \<noteq> live_restore_key \<longrightarrow> boolean_field d k = boolean_field original k)"
  using disabled_config_document [OF assms] by (auto simp: boolean_field_document map_of_disable)

lemma locate_bounds:
  assumes "locate data wanted = Ok (found, close, any)"
  shows "close < length data \<and> (\<forall>v. found = Some v \<longrightarrow> start v < stop v \<and> stop v \<le> close)"
proof -
  from assms obtain ms where ms: "members data = Ok (ms, close)"
    and found: "found = map_option located (find (\<lambda>m. key m = wanted) ms)"
    by (auto simp: locate_members)
  from ms show ?thesis
    by (rule membersE) (use found in \<open>auto simp: get_Some_iff located_def find_Some_iff dest!: scan_from_bounds\<close>)
qed
lemma disabled_config_Ok:
  assumes "boolean_field original live_restore_key = Ok b" and "length original + 21 \<le> LIMIT"
  shows "\<exists>d. disabled_config original = Ok d"
proof -
  from assms(1) obtain found close any where loc: "locate original live_restore_key = Ok (found, close, any)"
    by (auto simp: boolean_field_def)
  note bounds = locate_bounds [OF loc]
  show ?thesis
  proof (cases found)
    case None
    have "length live_restore_member = 20" by (simp add: live_restore_member_def)
    with None loc bounds assms(2) show ?thesis by (auto simp: disabled_config_def)
  next
    case (Some v)
    with assms(1) loc obtain t where "boolean v = Some t"
      by (auto simp: boolean_field_def split: option.splits)
    with Some loc bounds assms(2) show ?thesis by (auto simp: disabled_config_def)
  qed
qed

section \<open>Properties\<close>

text \<open>
  C2. Disabling live restore edits exactly one member of the configuration. When
  \<open>disabled_config\<close> accepts a document, the result is again a document with the same
  members in the same order and the same value texts, except that \<open>live-restore\<close> is
  \<open>false\<close> (in place, or appended when the document did not have it).
\<close>

theorem disabled_config_edits_one_member:
  assumes "disabled_config original = Ok d"
  shows "\<exists>es. document original = Ok es \<and> distinct (map fst es) \<and> document d = Ok (disable_live_restore es)"
  using assms by (rule disabled_config_document)

definition sample_config :: string where
  "sample_config = ''{'' @ CHR 0x22 # ''live-restore'' @ CHR 0x22 # '': true}''"

definition sample_disabled :: string where
  "sample_disabled = ''{'' @ CHR 0x22 # ''live-restore'' @ CHR 0x22 # '': false}''"

lemma sample_located: "locate sample_config live_restore_key =
    Ok (Some \<lparr>start = 17, stop = 21, boolean = Some True\<rparr>, 21, True)"
  by code_simp

lemma sample_config_disabled: "disabled_config sample_config = Ok sample_disabled"
  unfolding disabled_config_def sample_located and_then.simps prod.case option.case
  by (simp add: sample_config_def sample_disabled_def LIMIT_def)

theorem disabled_config_edits_one_member_witness:
  "\<exists>es. document sample_config = Ok es \<and> distinct (map fst es)
    \<and> document sample_disabled = Ok (disable_live_restore es)"
  using disabled_config_edits_one_member [OF sample_config_disabled] .

text \<open>
  After the edit Docker reads \<open>live-restore\<close> as false, and every other boolean field
  reads exactly as before, errors included.
\<close>

theorem disabled_config_disables_live_restore:
  assumes "disabled_config original = Ok d"
  shows "boolean_field d live_restore_key = Ok (Some False) \<and>
    (\<forall>k. k \<noteq> live_restore_key \<longrightarrow> boolean_field d k = boolean_field original k)"
  using assms by (rule disabled_config_fields)

theorem disabled_config_disables_live_restore_witness:
  "boolean_field sample_disabled live_restore_key = Ok (Some False)"
  using disabled_config_disables_live_restore [OF sample_config_disabled] by (rule conjunct1)

text \<open>
  The editor accepts every document in which \<open>live-restore\<close> is absent or a boolean and
  that leaves room for the inserted member below the size limit.
\<close>

theorem disabled_config_accepts:
  assumes "boolean_field original live_restore_key = Ok b" and "length original + 21 \<le> LIMIT"
  shows "\<exists>d. disabled_config original = Ok d"
  using assms by (rule disabled_config_Ok)

theorem disabled_config_accepts_witness: "\<exists>d. disabled_config sample_config = Ok d"
proof (rule disabled_config_accepts)
  show "boolean_field sample_config live_restore_key = Ok (Some True)"
    by (simp add: boolean_field_def sample_located)
  show "length sample_config + 21 \<le> LIMIT"
    by (simp add: sample_config_def LIMIT_def)
qed

text \<open>
  C18. A located value lies inside the document: the value is not empty, it ends at or before
  the closing brace and the closing brace is a position of the document, so that none of
  the slices \<open>disabled_config\<close> takes can panic.
\<close>

theorem located_value_in_bounds:
  assumes "locate data wanted = Ok (found, close, any)"
  shows "close < length data \<and> (\<forall>v. found = Some v \<longrightarrow> start v < stop v \<and> stop v \<le> close)"
  using assms by (rule locate_bounds)

theorem located_value_in_bounds_witness: "21 < length sample_config"
  using located_value_in_bounds [OF sample_located] by (rule conjunct1)

text \<open>
  C19. The scanner always returns: with the fuel its callers give, locating a key ends with a
  result or with one of the source's own error messages.
\<close>

theorem locate_returns: "locate data wanted \<noteq> Err OutOfFuel"
proof -
  have "finish data at \<noteq> Err OutOfFuel" for at
    by (simp add: finish_def and_then_Err_iff scanner_not_out_of_fuel)
  then have "members data \<noteq> Err OutOfFuel"
    by (auto simp: members_def and_then_Err_iff map_ok_Err_iff scan_from_not_out_of_fuel
        split: result.split if_splits)
  then show ?thesis by (simp add: locate_members map_ok_Err_iff)
qed


end
