(* ===== verification/Hostfs.thy ===== *)
theory Hostfs
  imports Prelude
begin

text \<open>
  The operating system as the sources use it: files named by paths, system calls that may
  fail, other processes that change files between two calls, programs that run and answer,
  and a clock. The sources call these; none of them is code of the repository, so they are
  the standard library's documented behaviour.

  A computation takes the environment, which fixes how every call ends, and the world, and
  returns an outcome and the new world. The environment is indexed by the number of calls
  made so far, so that a statement about all environments is a statement about every
  failure, every kill and every interleaving with other processes at a call.
\<close>

section \<open>Files, environment and world\<close>

record metadata =
  uid :: nat
  gid :: nat
  mode :: nat

text \<open>A directory carries its permission bits, a link its target; the rest are devices and sockets.\<close>

datatype node = Regular string metadata | Directory nat | Link string | Special

type_synonym fs = "string \<rightharpoonup> node"

text \<open>How a call ends: it does its work, it returns an error, or the process is killed at it.\<close>

datatype verdict = Pass | Fail | Crash

datatype child = Running | Exited bool string | Unavailable

text \<open>
  What a process that waits for a child's pipes can wake up for: a chunk read from standard
  output or standard error (None when the read fails, empty at the end), a notification of a
  child's exit (False when notifications end), or the operation being cancelled.
\<close>

datatype happening = Out_Chunk "string option" | Err_Chunk "string option" | Notified bool | Interrupted

record environment =
  verdict :: "nat \<Rightarrow> verdict"
  others :: "nat \<Rightarrow> fs \<Rightarrow> fs"
  torn :: "nat \<Rightarrow> nat"
  child :: "nat \<Rightarrow> string list \<Rightarrow> child"
  happenings :: "nat \<Rightarrow> string list \<Rightarrow> nat \<Rightarrow> happening list"
  child_pid :: "nat \<Rightarrow> nat"
  response :: "nat \<Rightarrow> (string, string) result"
  processes :: "nat \<Rightarrow> (string \<times> string option) list option"
  slack :: "nat \<Rightarrow> nat"
  process_id :: nat
  user_id :: nat
  listing :: "nat \<Rightarrow> string \<Rightarrow> string list option"
  cancelled :: "nat \<Rightarrow> bool"
  lock_held :: "nat \<Rightarrow> bool"
  free_space :: "nat \<Rightarrow> nat"
  canonical :: "string \<Rightarrow> string option"
  parallelism :: nat
  random_name :: "nat \<Rightarrow> string"

record world =
  files :: fs
  clock :: nat
  now :: nat
  commands :: "string list list"

datatype 'a outcome = Done 'a | Failed string | Crashed

type_synonym 'a io = "environment \<Rightarrow> world \<Rightarrow> 'a outcome \<times> world"

section \<open>Sequencing\<close>

definition return :: "'a \<Rightarrow> 'a io" where
  "return a env w = (Done a, w)"

definition bail :: "string \<Rightarrow> 'a io" where
  "bail e env w = (Failed e, w)"

definition bind :: "'a io \<Rightarrow> ('a \<Rightarrow> 'b io) \<Rightarrow> 'b io" where
  "bind c k env w =
     (case c env w of
        (Done a, w') \<Rightarrow> k a env w'
      | (Failed e, w') \<Rightarrow> (Failed e, w')
      | (Crashed, w') \<Rightarrow> (Crashed, w'))"

text \<open>The value of a closure called in place: an error is a value, a kill is not.\<close>

definition attempt :: "'a io \<Rightarrow> ('a, string) result io" where
  "attempt c env w =
     (case c env w of
        (Done a, w') \<Rightarrow> (Done (Ok a), w')
      | (Failed e, w') \<Rightarrow> (Done (Err e), w')
      | (Crashed, w') \<Rightarrow> (Crashed, w'))"

fun lift :: "('a, string) result \<Rightarrow> 'a io" where
  "lift (Ok a) = return a"
| "lift (Err e) = bail e"

lemma lift_cases: "lift r env w = (case r of Ok a \<Rightarrow> (Done a, w) | Err e \<Rightarrow> (Failed e, w))"
  by (cases r) (simp_all add: return_def bail_def)

abbreviation after :: "unit io \<Rightarrow> 'b io \<Rightarrow> 'b io" where
  "after c k \<equiv> bind c (\<lambda>_. k)"

definition ignoring :: "'a io \<Rightarrow> unit io" where
  "ignoring c = bind (attempt c) (\<lambda>_. return ())"

section \<open>System calls\<close>

definition syscall :: "(fs \<Rightarrow> ('a, string) result \<times> fs) \<Rightarrow> 'a io" where
  "syscall f env w =
     (let t = clock w; fs = others env t (files w) in
      case verdict env t of
        Pass \<Rightarrow>
          (case f fs of
             (Ok a, fs') \<Rightarrow> (Done a, w\<lparr>files := fs', clock := t + 1\<rparr>)
           | (Err e, fs') \<Rightarrow> (Failed e, w\<lparr>files := fs', clock := t + 1\<rparr>))
      | Fail \<Rightarrow> (Failed ''I/O error'', w\<lparr>files := fs, clock := t + 1\<rparr>)
      | Crash \<Rightarrow> (Crashed, w\<lparr>files := fs, clock := t + 1\<rparr>))"

text \<open>Opening a regular file without following links, and reading it through the descriptor.\<close>

definition open_regular :: "string \<Rightarrow> (string \<times> metadata) io" where
  "open_regular path = syscall (\<lambda>fs.
     (case fs path of
        Some (Regular contents m) \<Rightarrow> Ok (contents, m)
      | _ \<Rightarrow> Err ''not a regular file'', fs))"

text \<open>\<open>create_new\<close> with mode 0600: False when the path already exists.\<close>

definition private_file :: "environment \<Rightarrow> metadata" where
  "private_file env = \<lparr>uid = user_id env, gid = user_id env, mode = 384\<rparr>"

definition create_new :: "string \<Rightarrow> bool io" where
  "create_new path = (\<lambda>env. syscall (\<lambda>fs.
     if fs path \<noteq> None then (Ok False, fs)
     else (Ok True, fs(path \<mapsto> Regular [] (private_file env)))) env)"

fun update_node :: "(string \<Rightarrow> metadata \<Rightarrow> node) \<Rightarrow> string \<Rightarrow> fs \<Rightarrow> fs" where
  "update_node f path fs =
     (case fs path of Some (Regular contents m) \<Rightarrow> fs(path \<mapsto> f contents m) | _ \<Rightarrow> fs)"

definition chown :: "string \<Rightarrow> nat \<Rightarrow> nat \<Rightarrow> unit io" where
  "chown path u g = syscall (\<lambda>fs.
     (Ok (), update_node (\<lambda>contents m. Regular contents (m\<lparr>uid := u, gid := g\<rparr>)) path fs))"

definition set_permissions :: "string \<Rightarrow> nat \<Rightarrow> unit io" where
  "set_permissions path p = syscall (\<lambda>fs.
     (Ok (), update_node (\<lambda>contents m. Regular contents (m\<lparr>mode := p\<rparr>)) path fs))"

text \<open>A write that fails or is killed leaves a prefix of the bytes.\<close>

definition write_all :: "string \<Rightarrow> string \<Rightarrow> unit io" where
  "write_all path bytes env w =
     (let t = clock w;
          fs = others env t (files w);
          put = (\<lambda>b. w\<lparr>files := update_node (\<lambda>contents m. Regular b m) path fs, clock := t + 1\<rparr>)
      in case verdict env t of
           Pass \<Rightarrow> (Done (), put bytes)
         | Fail \<Rightarrow> (Failed ''I/O error'', put (take (torn env t) bytes))
         | Crash \<Rightarrow> (Crashed, put (take (torn env t) bytes)))"

definition sync_path :: "string \<Rightarrow> unit io" where
  "sync_path path = syscall (\<lambda>fs. (if fs path = None then Err ''not found'' else Ok (), fs))"

definition remove_file :: "string \<Rightarrow> unit io" where
  "remove_file path = syscall (\<lambda>fs.
     if fs path = None then (Err ''not found'', fs) else (Ok (), fs(path := None)))"

definition rename :: "string \<Rightarrow> string \<Rightarrow> unit io" where
  "rename from_path to_path = syscall (\<lambda>fs.
     case fs from_path of
       None \<Rightarrow> (Err ''not found'', fs)
     | Some n \<Rightarrow> (Ok (), fs(from_path := None, to_path \<mapsto> n)))"

definition hard_link :: "string \<Rightarrow> string \<Rightarrow> unit io" where
  "hard_link from_path to_path = syscall (\<lambda>fs.
     case fs from_path of
       None \<Rightarrow> (Err ''not found'', fs)
     | Some n \<Rightarrow> if fs to_path \<noteq> None then (Err ''exists'', fs) else (Ok (), fs(to_path \<mapsto> n)))"

text \<open>Links are followed one step; a link to a link counts as dangling.\<close>

definition follow :: "fs \<Rightarrow> string \<Rightarrow> node option" where
  "follow fs path = (case fs path of Some (Link target) \<Rightarrow> fs target | n \<Rightarrow> n)"

definition resolves :: "fs \<Rightarrow> string \<Rightarrow> bool" where
  "resolves fs path = (case follow fs path of None \<Rightarrow> False | Some (Link _) \<Rightarrow> False | Some _ \<Rightarrow> True)"

text \<open>\<open>Path::exists\<close> answers false when the call fails.\<close>

definition path_exists :: "string \<Rightarrow> bool io" where
  "path_exists path = bind (attempt (syscall (\<lambda>fs. (Ok (resolves fs path), fs))))
     (\<lambda>r. return (r = Ok True))"

definition symlink_metadata :: "string \<Rightarrow> unit io" where
  "symlink_metadata path = syscall (\<lambda>fs. (if fs path = None then Err ''not found'' else Ok (), fs))"

text \<open>Metadata of the node itself, without following a link; None when there is none.\<close>

definition lstat :: "string \<Rightarrow> node option io" where
  "lstat path = syscall (\<lambda>fs. (Ok (fs path), fs))"

definition read_contents :: "string \<Rightarrow> string io" where
  "read_contents path = syscall (\<lambda>fs.
     (case follow fs path of
        Some (Regular contents m) \<Rightarrow> Ok contents
      | None \<Rightarrow> Err ''not found''
      | Some _ \<Rightarrow> Err ''not a file'', fs))"

definition is_directory :: "node option \<Rightarrow> bool" where
  "is_directory n = (case n of Some (Directory _) \<Rightarrow> True | _ \<Rightarrow> False)"

definition is_regular :: "node \<Rightarrow> bool" where
  "is_regular n = (case n of Regular _ _ \<Rightarrow> True | _ \<Rightarrow> False)"

definition is_link :: "node option \<Rightarrow> bool" where
  "is_link n = (case n of Some (Link _) \<Rightarrow> True | _ \<Rightarrow> False)"

definition directory_mode :: "node \<Rightarrow> nat" where
  "directory_mode n = (case n of Directory m \<Rightarrow> m | _ \<Rightarrow> 0)"

definition set_directory_mode :: "string \<Rightarrow> nat \<Rightarrow> unit io" where
  "set_directory_mode path p = syscall (\<lambda>fs.
     case fs path of
       Some (Directory _) \<Rightarrow> (Ok (), fs(path \<mapsto> Directory p))
     | _ \<Rightarrow> (Err ''not a directory'', fs))"

fun make_directories :: "string list \<Rightarrow> fs \<Rightarrow> fs" where
  "make_directories [] fs = fs"
| "make_directories (p # ps) fs =
     make_directories ps (if fs p = None then fs(p \<mapsto> Directory 493) else fs)"

text \<open>The directory and the missing ones above it, which the caller lists.\<close>

definition create_dir_all :: "string list \<Rightarrow> string \<Rightarrow> unit io" where
  "create_dir_all uppers path = syscall (\<lambda>fs.
     if fs path \<noteq> None \<and> \<not> is_directory (follow fs path) then (Err ''exists'', fs)
     else (Ok (), make_directories (path # uppers) fs))"

definition create_directory :: "string \<Rightarrow> unit io" where
  "create_directory path = syscall (\<lambda>fs. if fs path \<noteq> None then (Err ''exists'', fs) else (Ok (), fs(path \<mapsto> Directory 493)))"

text \<open>\<open>fs::write\<close>: the file behind a link is created or emptied, then written.\<close>

definition destination :: "fs \<Rightarrow> string \<Rightarrow> string" where
  "destination fs path = (case fs path of Some (Link target) \<Rightarrow> target | _ \<Rightarrow> path)"

definition truncate_file :: "string \<Rightarrow> nat \<Rightarrow> string io" where
  "truncate_file path permissions = (\<lambda>env. syscall (\<lambda>fs.
     case follow fs path of
       None \<Rightarrow> (Ok (destination fs path),
         fs(destination fs path \<mapsto> Regular [] \<lparr>uid = user_id env, gid = user_id env, mode = permissions\<rparr>))
     | Some (Regular _ m) \<Rightarrow> (Ok (destination fs path), fs(destination fs path \<mapsto> Regular [] m))
     | Some _ \<Rightarrow> (Err ''not a file'', fs)) env)"

definition write_file :: "string \<Rightarrow> string \<Rightarrow> unit io" where
  "write_file path bytes = bind (truncate_file path 420) (\<lambda>target. write_all target bytes)"

definition directory_entries :: "string \<Rightarrow> string list option io" where
  "directory_entries path env w =
     (case syscall (\<lambda>fs. (Ok (), fs)) env w of
        (Done _, w') \<Rightarrow> (Done (listing env (clock w) path), w')
      | (Failed e, w') \<Rightarrow> (Done None, w')
      | (Crashed, w') \<Rightarrow> (Crashed, w'))"

text \<open>A question to the operating system that changes nothing.\<close>

definition query :: "(environment \<Rightarrow> nat \<Rightarrow> 'a) \<Rightarrow> 'a io" where
  "query f env w =
     (case syscall (\<lambda>fs. (Ok (), fs)) env w of
        (Done _, w') \<Rightarrow> (Done (f env (clock w)), w')
      | (Failed e, w') \<Rightarrow> (Failed e, w')
      | (Crashed, w') \<Rightarrow> (Crashed, w'))"

text \<open>\<open>Path::is_dir\<close> answers false when the call fails.\<close>

definition path_is_dir :: "string \<Rightarrow> bool io" where
  "path_is_dir path = bind (attempt (syscall (\<lambda>fs. (Ok (is_directory (follow fs path)), fs))))
     (\<lambda>r. return (r = Ok True))"

definition canonicalize :: "string \<Rightarrow> string io" where
  "canonicalize path = bind (query (\<lambda>env t. canonical env path)) (\<lambda>r. lift (ok_or r ''not found''))"

definition require :: "bool \<Rightarrow> string \<Rightarrow> unit io" where
  "require c message = lift (ensure c message)"

section \<open>Time and programs\<close>

definition sleep :: "nat \<Rightarrow> unit io" where
  "sleep ms env w = (Done (), w\<lparr>now := now w + ms + slack env (clock w), clock := clock w + 1\<rparr>)"

definition spawn :: "string list \<Rightarrow> unit io" where
  "spawn argv env w =
     (case syscall (\<lambda>fs. (Ok (), fs)) env w of
        (r, w') \<Rightarrow> (r, w'\<lparr>commands := commands w' @ [argv]\<rparr>))"

text \<open>One \<open>try_wait\<close> of a child.\<close>

definition try_wait :: "string list \<Rightarrow> child io" where
  "try_wait argv env w =
     (case syscall (\<lambda>fs. (Ok (), fs)) env w of
        (Done _, w') \<Rightarrow> (Done (child env (clock w) argv), w')
      | (Failed e, w') \<Rightarrow> (Failed e, w')
      | (Crashed, w') \<Rightarrow> (Crashed, w'))"

definition exchange :: "string io" where
  "exchange env w =
     (case syscall (\<lambda>fs. (Ok (), fs)) env w of
        (Done _, w') \<Rightarrow> lift (response env (clock w)) env (w'\<lparr>now := now w' + slack env (clock w)\<rparr>)
      | (Failed e, w') \<Rightarrow> (Failed e, w')
      | (Crashed, w') \<Rightarrow> (Crashed, w'))"

definition list_processes :: "(string \<times> string option) list option io" where
  "list_processes env w =
     (case syscall (\<lambda>fs. (Ok (), fs)) env w of
        (Done _, w') \<Rightarrow> (Done (processes env (clock w)), w')
      | (Failed e, w') \<Rightarrow> (Done None, w')
      | (Crashed, w') \<Rightarrow> (Crashed, w'))"

section \<open>Contracts\<close>

text \<open>
  \<open>holds env P c Q E\<close>: run from files that satisfy \<open>P\<close>, the computation leaves files that
  satisfy \<open>Q\<close> when it returns a value and \<open>E\<close> when it fails or is killed.
\<close>

definition holds ::
  "environment \<Rightarrow> (fs \<Rightarrow> bool) \<Rightarrow> 'a io \<Rightarrow> ('a \<Rightarrow> fs \<Rightarrow> bool) \<Rightarrow> (fs \<Rightarrow> bool) \<Rightarrow> bool"
where
  "holds env P c Q E \<longleftrightarrow> (\<forall>w. P (files w) \<longrightarrow>
     (case c env w of (Done a, w') \<Rightarrow> Q a (files w') | (_, w') \<Rightarrow> E (files w')))"

named_theorems io_rules \<open>contracts of the computations\<close>

lemma holdsD:
  "holds env P c Q E \<Longrightarrow> P (files w) \<Longrightarrow> c env w = (r, w') \<Longrightarrow>
     (case r of Done a \<Rightarrow> Q a (files w') | _ \<Rightarrow> E (files w'))"
  by (auto simp: holds_def split: outcome.splits)

lemma holds_return [io_rules]: "(\<And>fs. P fs \<Longrightarrow> Q a fs) \<Longrightarrow> holds env P (return a) Q E"
  by (simp add: holds_def return_def)

lemma holds_bail [io_rules]: "(\<And>fs. P fs \<Longrightarrow> E fs) \<Longrightarrow> holds env P (bail e) Q E"
  by (simp add: holds_def bail_def)

lemma holds_bind:
  assumes "holds env P c R E" and "\<And>a. holds env (R a) (k a) Q E"
  shows "holds env P (bind c k) Q E"
  using assms by (fastforce simp: holds_def bind_def split: prod.splits outcome.splits)

lemma holds_attempt:
  assumes "holds env P c (\<lambda>a. Q (Ok a)) E" and "\<And>e fs. E fs \<Longrightarrow> Q (Err e) fs"
  shows "holds env P (attempt c) Q E"
  using assms by (fastforce simp: holds_def attempt_def split: prod.splits outcome.splits)

lemma holds_weaken:
  assumes "holds env P c Q E" and "\<And>fs. P' fs \<Longrightarrow> P fs" "\<And>a fs. Q a fs \<Longrightarrow> Q' a fs" "\<And>fs. E fs \<Longrightarrow> E' fs"
  shows "holds env P' c Q' E'"
  using assms by (fastforce simp: holds_def split: prod.splits outcome.splits)

lemma holds_lift: "(\<And>fs a. P fs \<Longrightarrow> r = Ok a \<Longrightarrow> Q a fs) \<Longrightarrow> (\<And>fs. P fs \<Longrightarrow> E fs) \<Longrightarrow> holds env P (lift r) Q E"
  by (cases r) (simp_all add: holds_return holds_bail)

lemma holds_ignoring:
  assumes "holds env P c (\<lambda>_. P) P"
  shows "holds env P (ignoring c) (\<lambda>_. P) P"
  unfolding ignoring_def by (rule holds_bind, rule holds_attempt [OF assms], assumption, rule holds_return)

lemma holds_if:
  "(b \<Longrightarrow> holds env P c Q E) \<Longrightarrow> (\<not> b \<Longrightarrow> holds env P d Q E) \<Longrightarrow> holds env P (if b then c else d) Q E"
  by simp

text \<open>An assertion the other processes leave alone.\<close>

definition stable :: "environment \<Rightarrow> (fs \<Rightarrow> bool) \<Rightarrow> bool" where
  "stable env P \<longleftrightarrow> (\<forall>t fs. P fs \<longrightarrow> P (others env t fs))"

lemma holds_syscall:
  assumes "stable env P" and "\<And>fs. P fs \<Longrightarrow> E fs"
    and "\<And>fs a fs'. P fs \<Longrightarrow> f fs = (Ok a, fs') \<Longrightarrow> Q a fs'"
    and "\<And>fs e fs'. P fs \<Longrightarrow> f fs = (Err e, fs') \<Longrightarrow> E fs'"
  shows "holds env P (syscall f) Q E"
proof -
  have "P (others env t fs)" if "P fs" for t fs using assms(1) that by (simp add: stable_def)
  then show ?thesis
    by (auto simp: holds_def syscall_def Let_def split: verdict.splits prod.splits result.splits
        intro: assms(2) assms(3) [rotated] assms(4) [rotated])
qed

text \<open>Calls that change no file.\<close>

definition silent :: "'a io \<Rightarrow> bool" where
  "silent c \<longleftrightarrow> (\<forall>env P. stable env P \<longrightarrow> holds env P c (\<lambda>_. P) P)"

lemma silentI: "(\<And>env P. stable env P \<Longrightarrow> holds env P c (\<lambda>_. P) P) \<Longrightarrow> silent c"
  by (simp add: silent_def)

lemma silentD: "silent c \<Longrightarrow> stable env P \<Longrightarrow> holds env P c (\<lambda>_. P) P"
  by (simp add: silent_def)

lemma silent_syscall: "(\<And>fs. snd (f fs) = fs) \<Longrightarrow> silent (syscall f)"
  by (intro silentI holds_syscall) (metis snd_conv)+

lemma silent_return [io_rules]: "silent (return a)"
  by (intro silentI holds_return)

lemma silent_bail [io_rules]: "silent (bail e)"
  by (intro silentI holds_bail)

lemma silent_lift [io_rules]: "silent (lift r)"
  by (cases r) (simp_all add: silent_return silent_bail)

lemma silent_bind [io_rules]: "silent c \<Longrightarrow> (\<And>a. silent (k a)) \<Longrightarrow> silent (bind c k)"
  by (intro silentI holds_bind) (auto dest: silentD)

lemma silent_attempt [io_rules]: "silent c \<Longrightarrow> silent (attempt c)"
  by (intro silentI holds_attempt) (auto dest: silentD)

lemma silent_if [io_rules]: "silent c \<Longrightarrow> silent d \<Longrightarrow> silent (if b then c else d)"
  by simp

lemma silent_calls [io_rules]:
  "silent (open_regular path)" "silent (sync_path path)" "silent (symlink_metadata path)"
  "silent (lstat path)" "silent (read_contents path)"
  by (auto simp: open_regular_def sync_path_def symlink_metadata_def lstat_def read_contents_def
      intro!: silent_syscall)

lemma silent_require [io_rules]: "silent (require c message)"
  unfolding require_def by (rule silent_lift)

lemma silent_path_is_dir [io_rules]: "silent (path_is_dir path)"
  unfolding path_is_dir_def by (intro silent_bind silent_attempt silent_syscall silent_return) simp

lemma silent_path_exists [io_rules]: "silent (path_exists path)"
  unfolding path_exists_def by (intro silent_bind silent_attempt silent_syscall silent_return) simp

lemma silent_sleep [io_rules]: "silent (sleep ms)"
  by (simp add: silent_def holds_def sleep_def)

lemma silent_programs [io_rules]:
  "silent (spawn argv)" "silent (try_wait argv)" "silent exchange" "silent list_processes"
  "silent (query f)" "silent (directory_entries path)"
  unfolding spawn_def try_wait_def exchange_def list_processes_def query_def directory_entries_def silent_def
  by (auto simp: holds_def syscall_def stable_def Let_def lift_cases
      split: verdict.splits prod.splits result.splits)

section \<open>Laws of sequencing\<close>

lemma bind_return [simp]: "bind (return a) k = k a"
  by (simp add: bind_def return_def fun_eq_iff)

lemma bind_bail [simp]: "bind (bail e) k = bail e"
  by (simp add: bind_def bail_def fun_eq_iff)

lemma holds_bind_err:
  assumes "holds env P c R F" and "\<And>fs. F fs \<Longrightarrow> E fs" and "\<And>a. holds env (R a) (k a) Q E"
  shows "holds env P (bind c k) Q E"
  by (rule holds_bind [OF _ assms(3)], rule holds_weaken [OF assms(1)]) (simp_all add: assms(2))

lemma bind_assoc: "bind (bind c k) l = bind c (\<lambda>a. bind (k a) l)"
  by (auto simp: bind_def fun_eq_iff split: prod.split outcome.split)

lemma outcome_DoneD: "(case Done a of Done x \<Rightarrow> f x | Failed e \<Rightarrow> g | Crashed \<Rightarrow> h) \<Longrightarrow> f a"
  by simp

lemma silent_iff:
  "silent c \<longleftrightarrow> (\<forall>env P w r w'. stable env P \<longrightarrow> P (files w) \<longrightarrow> c env w = (r, w') \<longrightarrow> P (files w'))"
  unfolding silent_def holds_def
  by (intro iffI allI impI) (fastforce split: prod.splits outcome.splits)+

lemma silent_from_now: "(\<And>t. silent (c t)) \<Longrightarrow> silent (\<lambda>env w. c (now w + d) env w)"
  unfolding silent_iff by blast

lemma silent_canonicalize [io_rules]: "silent (canonicalize path)"
  unfolding canonicalize_def by (intro silent_bind silent_programs silent_lift)

lemma require_simps [simp]: "require True message = return ()" "require False message = bail message"
  by (simp_all add: require_def)

lemma holds_require:
  "(\<And>fs. P fs \<Longrightarrow> c \<Longrightarrow> Q () fs) \<Longrightarrow> (\<And>fs. P fs \<Longrightarrow> E fs) \<Longrightarrow> holds env P (require c message) Q E"
  by (cases c) (simp_all add: holds_return holds_bail)

section \<open>Assertions on a set of paths\<close>

definition watches :: "string set \<Rightarrow> (fs \<Rightarrow> bool) \<Rightarrow> bool" where
  "watches S P \<longleftrightarrow> (\<forall>fs fs'. (\<forall>p\<in>S. fs p = fs' p) \<longrightarrow> P fs = P fs')"

definition leaves :: "environment \<Rightarrow> string set \<Rightarrow> bool" where
  "leaves env S \<longleftrightarrow> (\<forall>t fs. \<forall>p\<in>S. others env t fs p = fs p)"

lemma watches_stable: "watches S P \<Longrightarrow> leaves env S \<Longrightarrow> stable env P"
  unfolding watches_def leaves_def stable_def by metis

lemma watches_update: "watches S P \<Longrightarrow> p \<notin> S \<Longrightarrow> P (fs(p := n)) = P fs"
  unfolding watches_def by (metis fun_upd_apply)

lemma watches_point: "p \<in> S \<Longrightarrow> watches S (\<lambda>fs. N (fs p))"
  by (simp add: watches_def)

lemma watches_conj: "watches S P \<Longrightarrow> watches S Q \<Longrightarrow> watches S (\<lambda>fs. P fs \<and> Q fs)"
  unfolding watches_def by blast

lemma watches_mono: "watches S P \<Longrightarrow> S \<subseteq> T \<Longrightarrow> watches T P"
  unfolding watches_def by blast

lemma leaves_mono: "leaves env T \<Longrightarrow> S \<subseteq> T \<Longrightarrow> leaves env S"
  unfolding leaves_def by blast

section \<open>Further laws\<close>

lemma holds_env: "holds env P (c env) Q E \<Longrightarrow> holds env P (\<lambda>e. c e e) Q E"
  by (simp add: holds_def)

lemma holds_or_err: "holds env P c Q E \<Longrightarrow> (\<And>fs. E fs \<Longrightarrow> E' fs) \<Longrightarrow> holds env P c Q E'"
  by (rule holds_weaken)


lemma holds_write_to:
  assumes "stable env (\<lambda>fs. J fs \<and> (\<exists>c. fs tmp = Some (Regular c m)))" and "\<And>fs n. J (fs(tmp := n)) = J fs"
  shows "holds env (\<lambda>fs. J fs \<and> (\<exists>c. fs tmp = Some (Regular c m))) (write_all tmp bytes)
    (\<lambda>_ fs. J fs \<and> fs tmp = Some (Regular bytes m)) J"
  unfolding holds_def
proof (intro allI impI)
  fix w :: world
  let ?fs = "others env (clock w) (files w)"
  assume "J (files w) \<and> (\<exists>c. files w tmp = Some (Regular c m))"
  then obtain c where "J ?fs" "?fs tmp = Some (Regular c m)"
    using assms(1) by (auto simp: stable_def)
  then show "case write_all tmp bytes env w of
      (Done a, w') \<Rightarrow> J (files w') \<and> files w' tmp = Some (Regular bytes m)
    | (_, w') \<Rightarrow> J (files w')"
    using assms(2) by (cases "verdict env (clock w)") (simp_all add: write_all_def Let_def)
qed

lemma bind_DoneE:
  assumes "bind c k env w = (Done b, w')"
  obtains a w1 where "c env w = (Done a, w1)" "k a env w1 = (Done b, w')"
  using assms by (auto simp: bind_def split: prod.splits outcome.splits)

lemma require_DoneD: "require c message env w = (Done u, w') \<Longrightarrow> c \<and> w' = w"
  by (cases c) (simp_all add: return_def bail_def)

lemma lift_DoneD: "lift r env w = (Done a, w') \<Longrightarrow> r = Ok a \<and> w' = w"
  by (cases r) (simp_all add: return_def bail_def)

lemma after_require_DoneE:
  assumes "after (require c message) k env w = (Done b, w')"
  obtains c "k env w = (Done b, w')"
  using assms by (auto elim!: bind_DoneE dest!: require_DoneD)

lemma after_lift_DoneE:
  assumes "after (lift r) k env w = (Done b, w')"
  obtains "r = Ok ()" "k env w = (Done b, w')"
  using assms by (auto elim!: bind_DoneE dest!: lift_DoneD)

lemma holds_syscall_faultless:
  assumes "\<And>t. verdict env t \<noteq> Fail" and "stable env P" and "\<And>fs. P fs \<Longrightarrow> E fs"
    and "\<And>fs a fs'. P fs \<Longrightarrow> f fs = (Ok a, fs') \<Longrightarrow> Q (Ok a) fs'"
    and "\<And>fs e fs'. P fs \<Longrightarrow> f fs = (Err e, fs') \<Longrightarrow> Q (Err e) fs'"
  shows "holds env P (attempt (syscall f)) Q E"
proof -
  have "P (others env t fs)" if "P fs" for t fs using assms(2) that by (simp add: stable_def)
  then show ?thesis
    using assms(1)
    by (auto simp: holds_def attempt_def syscall_def Let_def split: verdict.splits prod.splits result.splits
        intro: assms(3) assms(4) [rotated] assms(5) [rotated])
qed

lemma holds_pure_pre: "(\<And>fs. P fs \<Longrightarrow> C) \<Longrightarrow> (C \<Longrightarrow> holds env P c Q E) \<Longrightarrow> holds env P c Q E"
  by (cases "\<exists>fs. P fs") (auto simp: holds_def)

section \<open>Computations that are not killed\<close>

definition survives :: "environment \<Rightarrow> 'a io \<Rightarrow> bool" where
  "survives env c \<longleftrightarrow> (\<forall>w. fst (c env w) \<noteq> Crashed)"

definition unkilled :: "environment \<Rightarrow> bool" where
  "unkilled env \<longleftrightarrow> (\<forall>t. verdict env t \<noteq> Crash)"

lemma survives_pure: "survives env (return a)" "survives env (bail e)" "survives env (lift r)" "survives env (require b e)"
  by (cases r; cases b; simp add: survives_def return_def bail_def)+

lemma survives_bind: "survives env c \<Longrightarrow> (\<And>a. survives env (k a)) \<Longrightarrow> survives env (bind c k)"
  unfolding survives_def bind_def by (auto split: prod.splits outcome.splits) (metis fst_conv)+

lemma survives_attempt: "survives env c \<Longrightarrow> survives env (attempt c)"
  unfolding survives_def attempt_def by (auto split: prod.splits outcome.splits) (metis fst_conv)

lemma survives_ignoring: "survives env c \<Longrightarrow> survives env (ignoring c)"
  unfolding ignoring_def by (intro survives_bind survives_attempt survives_pure)

lemma survives_syscall: "unkilled env \<Longrightarrow> survives env (syscall f)"
  by (auto simp: survives_def unkilled_def syscall_def Let_def split: verdict.split prod.splits result.splits)

lemma survives_write_all: "unkilled env \<Longrightarrow> survives env (write_all p b)"
  by (auto simp: survives_def unkilled_def write_all_def Let_def split: verdict.split)

lemma survives_if: "survives env c \<Longrightarrow> survives env d \<Longrightarrow> survives env (if b then c else d)"
  by simp

lemma survives_calls:
  assumes "unkilled env"
  shows "survives env (create_new p)" "survives env (sync_path p)" "survives env (rename p q)"
    "survives env (remove_file p)"
proof -
  have "survives env (syscall f)" for f :: "fs \<Rightarrow> (bool, string) result \<times> fs"
    by (rule survives_syscall [OF assms])
  then show "survives env (create_new p)"
    unfolding create_new_def by (simp add: survives_def)
qed (simp_all add: sync_path_def rename_def remove_file_def survives_syscall assms)

lemma attempt_Done: "survives env c \<Longrightarrow> \<exists>r w'. attempt c env w = (Done r, w')"
proof -
  assume s: "survives env c"
  obtain x w' where x: "c env w = (x, w')" by fastforce
  with s have "x \<noteq> Crashed" unfolding survives_def by (metis fst_conv)
  with x show ?thesis by (cases x) (auto simp: attempt_def)
qed

lemma ignoring_Done: "survives env c \<Longrightarrow> \<exists>w'. ignoring c env w = (Done (), w')"
  using attempt_Done [of env c w] by (auto simp: ignoring_def bind_def return_def)

section \<open>Computations on undisturbed files\<close>

lemma reliable_syscall:
  assumes "\<And>t. verdict env t = Pass" "leaves env S" "p \<in> S"
    and "\<And>fs. fs p = files w p \<Longrightarrow> f fs = (Ok a, fs)"
  shows "\<exists>w'. syscall f env w = (Done a, w') \<and> files w' p = files w p"
proof -
  let ?fs = "others env (clock w) (files w)"
  have "?fs p = files w p" using assms(2,3) by (simp add: leaves_def)
  with assms(4) [of ?fs] assms(1) show ?thesis by (simp add: syscall_def Let_def)
qed

lemma reliable_lstat:
  assumes "\<And>t. verdict env t = Pass" "leaves env S" "p \<in> S"
  shows "\<exists>w'. lstat p env w = (Done (files w p), w') \<and> files w' p = files w p"
  unfolding lstat_def by (rule reliable_syscall [OF assms]) simp

lemma reliable_read:
  assumes "\<And>t. verdict env t = Pass" "leaves env S" "p \<in> S" "files w p = Some (Regular bytes m)"
  shows "\<exists>w'. read_contents p env w = (Done bytes, w') \<and> files w' p = files w p"
  unfolding read_contents_def by (rule reliable_syscall [OF assms(1-3)]) (simp add: follow_def assms(4))

section \<open>A concrete environment\<close>

text \<open>Nothing fails, nobody interferes and every program succeeds without output.\<close>

definition quiet :: environment where
  "quiet = \<lparr>verdict = \<lambda>_. Pass, others = \<lambda>_ fs. fs, torn = \<lambda>_. 0, child = \<lambda>_ _. Exited True [],
     happenings = \<lambda>_ _ _. [Out_Chunk (Some []), Err_Chunk (Some [])], child_pid = \<lambda>_. 99,
     response = \<lambda>_. Err ''refused'', processes = \<lambda>_. Some [], slack = \<lambda>_. 0, process_id = 7, user_id = 501,
     listing = \<lambda>_ _. Some [''notes''], cancelled = \<lambda>_. False, lock_held = \<lambda>_. False,
     free_space = \<lambda>_. 2 ^ 40, canonical = Some, parallelism = 8,
     random_name = \<lambda>_. ''a1b2c3''\<rparr>"

lemma quiet_leaves: "leaves quiet S"
  by (simp add: leaves_def quiet_def)

lemma quiet_faultless: "verdict quiet t \<noteq> Fail" "verdict quiet t = Pass"
  by (simp_all add: quiet_def)

lemma quiet_unkilled: "unkilled quiet"
  by (simp add: unkilled_def quiet_def)

lemma quiet_syscall:
  "syscall f quiet w = (case f (files w) of
       (Ok a, fs) \<Rightarrow> (Done a, w\<lparr>files := fs, clock := clock w + 1\<rparr>)
     | (Err e, fs) \<Rightarrow> (Failed e, w\<lparr>files := fs, clock := clock w + 1\<rparr>))"
  by (simp add: syscall_def quiet_def Let_def)

definition empty_world :: world where
  "empty_world = \<lparr>files = (\<lambda>_. None), clock = 0, now = 0, commands = []\<rparr>"

end
