(* ===== verification/Text.thy ===== *)
theory Text
  imports Utf8
begin

text \<open>
  Numbers, lines and paths as text: the standard library's decimal formatting and
  \<open>str::parse\<close> for unsigned integers, \<open>str::lines\<close>, and \<open>Path::parent\<close> and \<open>Path::join\<close>
  on paths without repeated or trailing separators.
\<close>

section \<open>Decimal numbers\<close>

definition digit :: "nat \<Rightarrow> char" where
  "digit n = char_of (48 + n)"

fun decimal :: "nat \<Rightarrow> string" where
  "decimal n = (if n < 10 then [digit n] else decimal (n div 10) @ [digit (n mod 10)])"

declare decimal.simps [simp del]

fun digits_value :: "nat \<Rightarrow> string \<Rightarrow> nat option" where
  "digits_value acc [] = Some acc"
| "digits_value acc (c # cs) =
     (if is_ascii_digit c then digits_value (acc * 10 + (byte c - 48)) cs else None)"

text \<open>\<open>str::parse\<close> of a w-bit unsigned integer: a plus sign is allowed, overflow is an error.\<close>

definition parse_unsigned :: "nat \<Rightarrow> string \<Rightarrow> nat option" where
  "parse_unsigned w s =
     (let ds = (case s of c # cs \<Rightarrow> if c = CHR ''+'' then cs else s | [] \<Rightarrow> []) in
      if ds = [] then None
      else case digits_value 0 ds of
             None \<Rightarrow> None
           | Some n \<Rightarrow> if n < 2 ^ w then Some n else None)"

lemma byte_digit [simp]: "n < 10 \<Longrightarrow> byte (digit n) = 48 + n"
  by (simp only: digit_def of_char_of) simp

lemma is_ascii_digit_digit [simp]: "n < 10 \<Longrightarrow> is_ascii_digit (digit n)"
  by (simp add: is_ascii_digit_def)

lemma digits_value_append:
  "digits_value acc (ds @ es) = Option.bind (digits_value acc ds) (\<lambda>n. digits_value n es)"
  by (induction acc ds rule: digits_value.induct) simp_all

lemma decimal_digits: "c \<in> set (decimal n) \<Longrightarrow> is_ascii_digit c"
proof (induction n rule: decimal.induct)
  case (1 n)
  then show ?case by (subst (asm) decimal.simps) (auto split: if_splits)
qed

lemma decimal_neq_Nil [simp]: "decimal n \<noteq> []"
  by (subst decimal.simps) simp

lemma digits_value_decimal: "digits_value 0 (decimal n) = Some n"
proof (induction n rule: decimal.induct)
  case (1 n)
  then show ?case by (subst decimal.simps) (simp add: digits_value_append)
qed

lemma parse_unsigned_decimal: "n < 2 ^ w \<Longrightarrow> parse_unsigned w (decimal n) = Some n"
proof -
  assume n: "n < 2 ^ w"
  obtain c cs where d: "decimal n = c # cs" by (cases "decimal n") simp_all
  then have "c \<noteq> CHR ''+''" using decimal_digits [of c n] by (auto simp: is_ascii_digit_def)
  with d n digits_value_decimal [of n] show ?thesis by (simp add: parse_unsigned_def)
qed

lemma decimal_inject: "decimal m = decimal n \<longleftrightarrow> m = n"
  by (metis digits_value_decimal option.inject)

section \<open>Lines\<close>

definition strip_cr :: "string \<Rightarrow> string" where
  "strip_cr s = (if s \<noteq> [] \<and> last s = CHR 0x0D then butlast s else s)"

definition lines_of :: "string \<Rightarrow> string list" where
  "lines_of s =
     (let pieces = split_on (CHR 0x0A) s in
      map strip_cr (butlast pieces) @ (if last pieces = [] then [] else [last pieces]))"

section \<open>Paths\<close>

definition parent :: "string \<Rightarrow> string option" where
  "parent path =
     (if path = [] \<or> path = ''/'' then None
      else let d = rev (dropWhile (\<lambda>c. c \<noteq> CHR ''/'') (rev path)) in
           Some (if length d \<le> 1 then d else butlast d))"

definition path_join :: "string \<Rightarrow> string \<Rightarrow> string" where
  "path_join path name =
     (if starts_with name ''/'' then name
      else if path = [] \<or> ends_with path ''/'' then path @ name
      else path @ ''/'' @ name)"

definition file_name :: "string \<Rightarrow> string" where
  "file_name path = rev (takeWhile (\<lambda>c. c \<noteq> CHR ''/'') (rev path))"

end
