(* ===== verification/Guest_Shutdown.thy ===== *)
theory Guest_Shutdown
  imports Guest_Config Hostfs Text
begin

text \<open>
  The shutdown sequence of the guest helper (src/guest/docker-shutdown.rs, lines 13 to 46 and
  369 to 709): the file replacement protocol on Docker's configuration and its backup, the
  programs it runs, the live-restore query, and the whole sequence.

  \<open>recoverable\<close> is the crash invariant: the configuration is the original, or it is the
  temporary one and the backup holds the original.
\<close>

section \<open>Files\<close>

definition CONFIG :: string where
  "CONFIG = ''/etc/docker/daemon.json''"

definition BACKUP :: string where
  "BACKUP = ''/etc/docker/.luhmen-shutdown-daemon.json''"

definition read_file :: "string \<Rightarrow> (string \<times> metadata) io" where
  "read_file path =
     bind (open_regular path) (\<lambda>(contents, m).
       if length contents > LIMIT then bail ''must be a regular file of at most 1 MiB''
       else return (contents, m))"

definition sync_directory :: "string \<Rightarrow> unit io" where
  "sync_directory path = sync_path path"

definition temporary_path :: "string \<Rightarrow> nat \<Rightarrow> nat \<Rightarrow> string" where
  "temporary_path directory pid number =
     path_join directory (''.luhmen-shutdown-'' @ decimal pid @ ''-'' @ decimal number)"

fun create_temporary :: "string \<Rightarrow> nat \<Rightarrow> nat \<Rightarrow> string io" where
  "create_temporary directory number 0 = bail ''too many abandoned Docker shutdown temporary files''"
| "create_temporary directory number (Suc left) = (\<lambda>env.
     let candidate = temporary_path directory (process_id env) number in
     bind (create_new candidate) (\<lambda>created.
       if created then return candidate
       else create_temporary directory (number + 1) left) env)"

definition fill_temporary :: "string \<Rightarrow> string \<Rightarrow> metadata \<Rightarrow> unit io" where
  "fill_temporary temporary bytes m =
     after (chown temporary (uid m) (gid m))
     (after (set_permissions temporary (mode m mod 0x1000))
     (after (write_all temporary bytes)
     (sync_path temporary)))"

definition write_temporary :: "string \<Rightarrow> string \<Rightarrow> metadata \<Rightarrow> string io" where
  "write_temporary path bytes m =
     bind (lift (ok_or (parent path) ''configuration has no parent'')) (\<lambda>directory.
     bind (create_temporary directory 0 100) (\<lambda>temporary.
     bind (attempt (fill_temporary temporary bytes m)) (\<lambda>result.
     after (if is_ok result then return () else ignoring (remove_file temporary))
     (lift (map_ok (\<lambda>_. temporary) result)))))"

definition parent_of :: "string \<Rightarrow> string" where
  "parent_of path = (case parent path of None \<Rightarrow> [] | Some d \<Rightarrow> d)"

definition replace_file :: "string \<Rightarrow> string \<Rightarrow> metadata \<Rightarrow> string \<Rightarrow> unit io" where
  "replace_file path bytes m expected =
     bind (write_temporary path bytes m) (\<lambda>temporary.
     bind (attempt
       (bind (read_file path) (\<lambda>(current, _).
        if current \<noteq> expected
        then bail ''configuration changed during shutdown; preserving the external edit''
        else after (rename temporary path) (sync_directory (parent_of path))))) (\<lambda>result.
     bind (path_exists temporary) (\<lambda>left_over.
     after (if left_over then ignoring (remove_file temporary) else return ())
     (lift result))))"

definition save_backup :: "string \<Rightarrow> string \<Rightarrow> metadata \<Rightarrow> unit io" where
  "save_backup path original m =
     bind (write_temporary path original m) (\<lambda>temporary.
     bind (attempt (after (hard_link temporary path) (sync_directory (parent_of path)))) (\<lambda>result.
     after (ignoring (remove_file temporary))
     (lift result)))"

section \<open>Programs\<close>

lemma now_try_wait: "try_wait argv env w = (r, w') \<Longrightarrow> now w' = now w"
  by (auto simp: try_wait_def syscall_def Let_def split: verdict.splits prod.splits)

text \<open>\<open>run\<close>: poll the child every 25 milliseconds until it ends or the deadline passes.\<close>

function wait_child :: "string list \<Rightarrow> nat \<Rightarrow> string io" where
  "wait_child argv deadline env w =
     (case try_wait argv env w of
        (Done (Exited success stdout), w') \<Rightarrow>
          if success then (Done stdout, w') else (Failed ''command failed'', w')
      | (Done Unavailable, w') \<Rightarrow> (Failed ''wait failed'', w')
      | (Done Running, w') \<Rightarrow>
          if now w' \<ge> deadline then (Failed ''command timed out'', w')
          else (case sleep 25 env w' of (_, w'') \<Rightarrow> wait_child argv deadline env w'')
      | (Failed e, w') \<Rightarrow> (Failed e, w')
      | (Crashed, w') \<Rightarrow> (Crashed, w'))"
  by pat_completeness auto

termination
  by (relation "measure (\<lambda>(argv, deadline, env, w). deadline - now w)")
    (auto simp: sleep_def dest!: now_try_wait [OF sym])

declare wait_child.simps [simp del]

definition run :: "string list \<Rightarrow> nat \<Rightarrow> string io" where
  "run argv timeout =
     after (spawn argv) (\<lambda>env w. wait_child argv (now w + timeout) env w)"

definition systemctl :: "string list \<Rightarrow> nat \<Rightarrow> string io" where
  "systemctl arguments timeout =
     bind (run (''systemctl'' # arguments) timeout) (\<lambda>stdout.
       if utf8_valid stdout then return stdout else bail ''invalid utf-8'')"

definition parse_state :: "string \<Rightarrow> (string \<times> string) list" where
  "parse_state output = rev (List.map_filter (split_once (CHR ''='')) (lines_of output))"

definition service_state :: "(string \<times> string) list io" where
  "service_state =
     bind (systemctl [''show'', ''docker.service'', ''-p'', ''ActiveState'', ''-p'', ''MainPID'', ''-p'', ''Result'']
        5000) (\<lambda>output. return (parse_state output))"

fun find_blank_line :: "string \<Rightarrow> nat option" where
  "find_blank_line s =
     (if length s < 4 then None
      else if take 4 s = [CHR 0x0D, CHR 0x0A, CHR 0x0D, CHR 0x0A] then Some 0
      else map_option Suc (find_blank_line (tl s)))"

declare find_blank_line.simps [simp del]

definition live_restore_enabled_key :: "nat list" where
  "live_restore_enabled_key = map of_char ''LiveRestoreEnabled''"

definition scan_message :: "'a scan \<Rightarrow> ('a, string) result" where
  "scan_message r =
     (case r of Ok a \<Rightarrow> Ok a | Err (Message e) \<Rightarrow> Err e | Err OutOfFuel \<Rightarrow> Err ''out of fuel'')"

definition parse_info :: "string \<Rightarrow> (bool, string) result" where
  "parse_info answer =
     and_then (ok_or (find_blank_line answer) ''Docker /info returned an invalid HTTP response'') (\<lambda>split.
     let headers = take split answer; body = drop (split + 4) answer in
     if \<not> utf8_valid headers then Err ''invalid utf-8''
     else if \<not> (case lines_of headers of [] \<Rightarrow> False | line # _ \<Rightarrow> contains_str line '' 200 '')
     then Err ''Docker /info did not return a successful response''
     else if length body > LIMIT then Err ''Docker /info exceeded 1 MiB''
     else and_then (scan_message (boolean_field body live_restore_enabled_key)) (\<lambda>b.
       ok_or b ''Docker /info did not report LiveRestoreEnabled''))"

definition live_restore :: "bool io" where
  "live_restore =
     bind exchange (\<lambda>answer. lift (parse_info (take (LIMIT + 4097) answer)))"

lemma now_live_restore: "live_restore env w = (r, w') \<Longrightarrow> now w \<le> now w'"
  by (auto simp: live_restore_def bind_def exchange_def syscall_def lift_cases Let_def
      split: verdict.splits prod.splits result.splits outcome.splits)

lemma now_attempt_live_restore: "attempt live_restore env w = (r, w') \<Longrightarrow> now w \<le> now w'"
  by (auto simp: attempt_def dest: now_live_restore split: prod.splits outcome.splits)

text \<open>The confirmation loop of \<open>reload_config\<close>, every 100 milliseconds until the deadline.\<close>

function await_reload :: "bool \<Rightarrow> nat \<Rightarrow> unit io" where
  "await_reload expected deadline env w =
     (case attempt live_restore env w of
        (Done r, w') \<Rightarrow>
          if r = Ok expected then (Done (), w')
          else if now w' \<ge> deadline
          then (Failed ''Docker did not confirm the live-restore configuration reload within 8 seconds'', w')
          else (case sleep 100 env w' of (_, w'') \<Rightarrow> await_reload expected deadline env w'')
      | (Failed e, w') \<Rightarrow> (Failed e, w')
      | (Crashed, w') \<Rightarrow> (Crashed, w'))"
  by pat_completeness auto

termination
  by (relation "measure (\<lambda>(expected, deadline, env, w). deadline - now w)")
    (auto simp: sleep_def dest!: now_attempt_live_restore [OF sym])

declare await_reload.simps [simp del]

definition main_pid :: "(string \<times> string) list \<Rightarrow> nat" where
  "main_pid state =
     (case map_of state ''MainPID'' of
        None \<Rightarrow> 0
      | Some v \<Rightarrow> (case parse_unsigned 32 v of None \<Rightarrow> 0 | Some pid \<Rightarrow> pid))"

definition reload_config :: "bool \<Rightarrow> unit io" where
  "reload_config expected =
     bind service_state (\<lambda>state.
     let pid = main_pid state in
     if map_of state ''ActiveState'' \<noteq> Some ''active'' \<or> pid \<le> 1
     then bail ''Docker is not active enough to reload its configuration''
     else bind (run [''kill'', ''-HUP'', decimal pid] 5000) (\<lambda>_.
       (\<lambda>env w. await_reload expected (now w + 8000) env w)))"

definition is_shim :: "string \<Rightarrow> bool" where
  "is_shim arguments =
     (let fields = split_on (CHR 0x00) arguments in
      contains_str (hd fields) ''containerd-shim''
      \<and> list_ex (\<lambda>(a, b). a = ''-namespace'' \<and> b = ''moby'') (zip fields (tl fields)))"

definition docker_shims_remain :: "bool io" where
  "docker_shims_remain =
     bind list_processes (\<lambda>listing.
       return (case listing of
         None \<Rightarrow> False
       | Some entries \<Rightarrow>
           list_ex (\<lambda>(name, cmdline).
             list_all is_ascii_digit name
             \<and> (case cmdline of None \<Rightarrow> False | Some arguments \<Rightarrow> is_shim arguments)) entries))"

section \<open>Restoration and the whole sequence\<close>

definition restore_file :: "string \<Rightarrow> string \<Rightarrow> metadata \<Rightarrow> string \<Rightarrow> unit io" where
  "restore_file config original m temporary =
     bind (read_file config) (\<lambda>(current, _).
       if current = temporary then replace_file config original m temporary
       else if current \<noteq> original
       then bail ''Docker configuration changed during shutdown; preserving the external edit and backup''
       else return ())"

definition restore_runtime :: "string \<Rightarrow> unit io" where
  "restore_runtime original =
     bind service_state (\<lambda>state.
       let active = map_of state ''ActiveState'' in
       if active = Some ''active''
       then bind (lift (scan_message (boolean_field original live_restore_key))) (\<lambda>b.
         reload_config (case b of None \<Rightarrow> False | Some b \<Rightarrow> b))
       else if active \<in> {Some ''inactive'', Some ''failed''} \<and> map_of state ''MainPID'' = Some ''0''
       then return ()
       else bail ''Docker is still transitioning; original configuration restored and recovery backup retained; wait and retry'')"

definition recover_from :: "string \<Rightarrow> string \<Rightarrow> unit io" where
  "recover_from config backup =
     bind (read_file backup) (\<lambda>(original, m).
     bind (lift (scan_message (disabled_config original))) (\<lambda>temporary.
     after (restore_file config original m temporary)
     (after (restore_runtime original)
     (after (remove_file backup)
     (sync_directory (parent_of backup))))))"

definition recover_backup :: "string \<Rightarrow> string \<Rightarrow> unit io" where
  "recover_backup config backup =
     bind (path_exists backup) (\<lambda>found.
     bind (if found then return True
           else bind (attempt (symlink_metadata backup)) (\<lambda>r. return (is_ok r))) (\<lambda>found.
     if \<not> found then return () else recover_from config backup))"

text \<open>The branch of \<open>shutdown\<close> for an active Docker, up to the assignment of \<open>restoration\<close>.\<close>

definition prepare :: "(string \<times> metadata \<times> string) option io" where
  "prepare =
     bind (read_file CONFIG) (\<lambda>(original, m).
     bind (lift (scan_message (disabled_config original))) (\<lambda>temporary.
     bind live_restore (\<lambda>enabled.
       if enabled
       then after (save_backup BACKUP original m)
            (after (replace_file CONFIG temporary m original)
            (return (Some (original, m, temporary))))
       else return None)))"

definition confirm :: "(string \<times> string) list \<Rightarrow> (string \<times> metadata \<times> string) option \<Rightarrow> unit io" where
  "confirm state restoration =
     after
       (case restoration of
          None \<Rightarrow> return ()
        | Some (original, m, temporary) \<Rightarrow>
            after (reload_config False) (restore_file CONFIG original m temporary))
     (bind service_state (\<lambda>state'.
      bind (if map_of state' ''MainPID'' \<noteq> map_of state ''MainPID'' then return True else live_restore)
        (\<lambda>changed.
        if changed then bail ''Docker changed during shutdown preparation; retry after it settles''
        else return ())))"

definition stop_docker :: "bool \<Rightarrow> unit io" where
  "stop_docker active =
     bind (systemctl [''stop'', ''docker.service'', ''docker.socket''] 150000) (\<lambda>_.
     bind service_state (\<lambda>stopped.
     bind (systemctl [''show'', ''docker.socket'', ''-p'', ''ActiveState'', ''--value''] 5000) (\<lambda>socket.
       if map_of stopped ''ActiveState'' \<noteq> Some ''inactive'' \<or> trim socket \<noteq> ''inactive''
       then bail ''Docker service and socket did not both stop cleanly''
       else if active \<and> map_of stopped ''Result'' \<noteq> Some ''success''
       then bail ''Docker service shutdown failed''
       else bind docker_shims_remain (\<lambda>remain.
         if remain
         then bail ''Docker container processes remain without an active daemon; recover Docker before graceful VM shutdown''
         else return ()))))"

definition finish_restoration ::
  "(string \<times> metadata \<times> string) option \<Rightarrow> (unit, string) result \<Rightarrow> unit io"
where
  "finish_restoration restoration result =
     (case restoration of
        None \<Rightarrow> lift result
      | Some (original, m, temporary) \<Rightarrow>
          after (restore_file CONFIG original m temporary)
          (after (if is_ok result then return () else restore_runtime original)
          (after (remove_file BACKUP)
          (after (sync_directory (parent_of BACKUP))
          (lift result)))))"

definition shutdown_recovered :: "unit io" where
  "shutdown_recovered =
     bind service_state (\<lambda>state.
      let active = (map_of state ''ActiveState'' = Some ''active'') in
      if \<not> active \<and> map_of state ''ActiveState'' \<notin> {Some ''inactive'', Some ''failed''}
      then bail ''Docker is busy; wait for its current operation and retry''
      else if active
      then bind (attempt prepare) (\<lambda>prepared.
        (case prepared of
           Err e \<Rightarrow> finish_restoration None (Err e)
         | Ok restoration \<Rightarrow>
             bind (attempt (after (confirm state restoration) (stop_docker True)))
               (finish_restoration restoration)))
      else bind (attempt (stop_docker False)) (finish_restoration None))"

definition shutdown :: "unit io" where
  "shutdown = after (recover_backup CONFIG BACKUP) shutdown_recovered"

end
