(* ===== verification/Guest_Protocol.thy ===== *)
theory Guest_Protocol
  imports Guest_Shutdown
begin

text \<open>
  Contracts of the shutdown sequence's file protocol. Assertions are predicates on the
  configuration and the backup (\<open>view\<close>), possibly with one temporary file of this process;
  a contract gives the assertion after a value and the one after an error or a kill, so that
  the second is an invariant of every interruption.
\<close>

section \<open>Contracts of the file protocol\<close>

definition temporaries :: "environment \<Rightarrow> string set" where
  "temporaries env = range (temporary_path ''/etc/docker'' (process_id env))"

text \<open>
  The assertions speak about the configuration and the backup, and about one temporary file
  of this process; \<open>undisturbed\<close> says that other processes leave these files alone.
\<close>

definition view :: "(node option \<Rightarrow> node option \<Rightarrow> bool) \<Rightarrow> fs \<Rightarrow> bool" where
  "view J fs = J (fs CONFIG) (fs BACKUP)"

definition with_temporary ::
  "(node option \<Rightarrow> node option \<Rightarrow> bool) \<Rightarrow> string \<Rightarrow> (node option \<Rightarrow> bool) \<Rightarrow> fs \<Rightarrow> bool"
where
  "with_temporary J tmp N fs \<longleftrightarrow> view J fs \<and> N (fs tmp)"

definition undisturbed :: "environment \<Rightarrow> bool" where
  "undisturbed env \<longleftrightarrow>
     (\<forall>t fs. \<forall>p\<in>insert CONFIG (insert BACKUP (temporaries env)). others env t fs p = fs p)"

lemma temporary_neq:
  "temporary_path ''/etc/docker'' pid n \<noteq> CONFIG" "temporary_path ''/etc/docker'' pid n \<noteq> BACKUP"
proof -
  obtain c cs where d: "decimal pid = c # cs" by (cases "decimal pid") simp_all
  have "c \<noteq> CHR ''d''" using decimal_digits [of c pid] d by (auto simp: is_ascii_digit_def)
  with d show "temporary_path ''/etc/docker'' pid n \<noteq> CONFIG" "temporary_path ''/etc/docker'' pid n \<noteq> BACKUP"
    by (simp_all add: temporary_path_def path_join_def CONFIG_def BACKUP_def ends_with_def)
qed

lemma temporaries_neq: "tmp \<in> temporaries env \<Longrightarrow> tmp \<noteq> CONFIG \<and> tmp \<noteq> BACKUP"
  by (auto simp: temporaries_def temporary_neq)

lemma config_neq_backup [simp]: "CONFIG \<noteq> BACKUP" "BACKUP \<noteq> CONFIG"
  by (simp_all add: CONFIG_def BACKUP_def)

lemma parents [simp]:
  "parent CONFIG = Some ''/etc/docker''" "parent BACKUP = Some ''/etc/docker''"
  "parent_of CONFIG = ''/etc/docker''" "parent_of BACKUP = ''/etc/docker''"
proof -
  show p: "parent CONFIG = Some ''/etc/docker''" "parent BACKUP = Some ''/etc/docker''" by code_simp+
  show "parent_of CONFIG = ''/etc/docker''" "parent_of BACKUP = ''/etc/docker''"
    by (simp_all add: parent_of_def p)
qed

lemma stable_view [io_rules]: "undisturbed env \<Longrightarrow> stable env (view J)"
  by (simp add: undisturbed_def stable_def view_def)

lemma stable_with_temporary [io_rules]:
  "undisturbed env \<Longrightarrow> tmp \<in> temporaries env \<Longrightarrow> stable env (with_temporary J tmp N)"
  by (simp add: undisturbed_def stable_def view_def with_temporary_def)

lemma view_update [simp]:
  "tmp \<in> temporaries env \<Longrightarrow> view J (fs(tmp := n)) = view J fs"
  using temporaries_neq [of tmp env] by (auto simp: view_def)

lemma with_temporaryD: "with_temporary J tmp N fs \<Longrightarrow> view J fs"
  by (simp add: with_temporary_def)

lemma holds_create_temporary:
  assumes "undisturbed env"
  shows "holds env (view J) (create_temporary ''/etc/docker'' number left)
    (\<lambda>tmp fs. tmp \<in> temporaries env \<and> with_temporary J tmp (\<lambda>n. \<exists>c m. n = Some (Regular c m)) fs) (view J)"
proof (induction left arbitrary: number)
  case 0
  show ?case by (simp add: holds_bail)
next
  case (Suc left)
  let ?c = "temporary_path ''/etc/docker'' (process_id env) number"
  have c: "?c \<in> temporaries env" by (simp add: temporaries_def)
  have "holds env (view J) (syscall (\<lambda>fs. if fs ?c \<noteq> None then (Ok False, fs)
        else (Ok True, fs(?c \<mapsto> Regular [] (private_file env)))))
      (\<lambda>created fs. if created then with_temporary J ?c (\<lambda>n. \<exists>c m. n = Some (Regular c m)) fs else view J fs)
      (view J)"
    using c by (intro holds_syscall stable_view assms) (auto simp: with_temporary_def split: if_splits)
  then have "holds env (view J) (create_new ?c)
      (\<lambda>created fs. if created then with_temporary J ?c (\<lambda>n. \<exists>c m. n = Some (Regular c m)) fs else view J fs)
      (view J)"
    by (simp add: holds_def create_new_def)
  then have "holds env (view J)
      (bind (create_new ?c) (\<lambda>created. if created then return ?c else create_temporary ''/etc/docker'' (number + 1) left))
      (\<lambda>tmp fs. tmp \<in> temporaries env \<and> with_temporary J tmp (\<lambda>n. \<exists>c m. n = Some (Regular c m)) fs) (view J)"
    by (rule holds_bind) (use c Suc in \<open>auto intro: holds_return\<close>)
  then show ?case by (simp add: holds_def Let_def)
qed

abbreviation published :: "metadata \<Rightarrow> metadata" where
  "published m \<equiv> \<lparr>uid = uid m, gid = gid m, mode = mode m mod 0x1000\<rparr>"

lemma holds_update_temporary:
  assumes "undisturbed env" "tmp \<in> temporaries env"
    and "\<And>n. N n \<Longrightarrow> \<exists>c m. n = Some (Regular c m)"
    and "\<And>c m. N (Some (Regular c m)) \<Longrightarrow> N' (Some (g c m))"
  shows "holds env (with_temporary J tmp N) (syscall (\<lambda>fs. (Ok (), update_node g tmp fs)))
    (\<lambda>_. with_temporary J tmp N') (view J)"
proof (intro holds_syscall stable_with_temporary assms(1,2))
  fix fs a fs'
  assume N: "with_temporary J tmp N fs" and f: "(Ok (), update_node g tmp fs) = (Ok a, fs')"
  then obtain c m where "fs tmp = Some (Regular c m)" "N (Some (Regular c m))"
    using assms(3) by (fastforce simp: with_temporary_def)
  with N f assms(2,4) show "with_temporary J tmp N' fs'" by (auto simp: with_temporary_def)
qed (auto dest: with_temporaryD)

lemma metadata_updates [simp]:
  "m\<lparr>uid := u, gid := g\<rparr> = \<lparr>uid = u, gid = g, mode = mode m\<rparr>"
  "m\<lparr>mode := p\<rparr> = \<lparr>uid = uid m, gid = gid m, mode = p\<rparr>"
  by (cases m; simp)+

lemma holds_write_temporary_bytes:
  assumes "undisturbed env" "tmp \<in> temporaries env"
  shows "holds env (with_temporary J tmp (\<lambda>n. \<exists>c. n = Some (Regular c m))) (write_all tmp bytes)
    (\<lambda>_. with_temporary J tmp (\<lambda>n. n = Some (Regular bytes m))) (view J)"
  unfolding holds_def
proof (intro allI impI)
  fix w :: world
  let ?N = "\<lambda>n. \<exists>c. n = Some (Regular c m)"
  assume "with_temporary J tmp ?N (files w)"
  then have "with_temporary J tmp ?N (others env (clock w) (files w))"
    using stable_with_temporary [OF assms, of J ?N] by (simp add: stable_def)
  then obtain c where "view J (others env (clock w) (files w))"
    "others env (clock w) (files w) tmp = Some (Regular c m)"
    by (auto simp: with_temporary_def)
  then show "case write_all tmp bytes env w of
      (Done a, w') \<Rightarrow> with_temporary J tmp (\<lambda>n. n = Some (Regular bytes m)) (files w')
    | (_, w') \<Rightarrow> view J (files w')"
    using assms(2) by (cases "verdict env (clock w)") (simp_all add: write_all_def Let_def with_temporary_def)
qed

lemma holds_fill_temporary:
  assumes "undisturbed env" "tmp \<in> temporaries env"
  shows "holds env (with_temporary J tmp (\<lambda>n. \<exists>c m. n = Some (Regular c m)))
    (fill_temporary tmp bytes m)
    (\<lambda>_. with_temporary J tmp (\<lambda>n. n = Some (Regular bytes (published m)))) (view J)"
proof -
  let ?owned = "\<lambda>n. \<exists>c p. n = Some (Regular c \<lparr>uid = uid m, gid = gid m, mode = p\<rparr>)"
  let ?set = "\<lambda>n. \<exists>c. n = Some (Regular c (published m))"
  let ?full = "\<lambda>n. n = Some (Regular bytes (published m))"
  have "holds env (with_temporary J tmp (\<lambda>n. \<exists>c m. n = Some (Regular c m)))
      (chown tmp (uid m) (gid m)) (\<lambda>_. with_temporary J tmp ?owned) (view J)"
    unfolding chown_def by (rule holds_update_temporary [OF assms]) auto
  moreover have "holds env (with_temporary J tmp ?owned)
      (set_permissions tmp (mode m mod 0x1000)) (\<lambda>_. with_temporary J tmp ?set) (view J)"
    unfolding set_permissions_def by (rule holds_update_temporary [OF assms]) auto
  moreover have "holds env (with_temporary J tmp ?set)
      (write_all tmp bytes) (\<lambda>_. with_temporary J tmp ?full) (view J)"
    by (rule holds_write_temporary_bytes [OF assms])
  moreover have "holds env (with_temporary J tmp ?full)
      (sync_path tmp) (\<lambda>_. with_temporary J tmp ?full) (view J)"
    using silentD [OF silent_calls(2) stable_with_temporary [OF assms]]
    by (rule holds_weaken) (auto dest: with_temporaryD)
  ultimately show ?thesis
    unfolding fill_temporary_def by (intro holds_bind) assumption+
qed

lemma holds_remove_temporary:
  assumes "undisturbed env" "tmp \<in> temporaries env"
  shows "holds env (view J) (remove_file tmp) (\<lambda>_. view J) (view J)"
  unfolding remove_file_def using assms(2)
  by (intro holds_syscall stable_view assms(1)) (auto split: if_splits)

lemma holds_write_temporary:
  assumes "undisturbed env" "parent path = Some ''/etc/docker''"
  shows "holds env (view J) (write_temporary path bytes m)
    (\<lambda>tmp fs. tmp \<in> temporaries env \<and> with_temporary J tmp (\<lambda>n. n = Some (Regular bytes (published m))) fs)
    (view J)"
proof -
  let ?T = "\<lambda>tmp fs. tmp \<in> temporaries env \<and> with_temporary J tmp (\<lambda>n. \<exists>c m. n = Some (Regular c m)) fs"
  let ?F = "\<lambda>tmp fs. tmp \<in> temporaries env \<and> with_temporary J tmp (\<lambda>n. n = Some (Regular bytes (published m))) fs"
  let ?G = "\<lambda>tmp (result :: (unit, string) result) fs. if is_ok result then ?F tmp fs else tmp \<in> temporaries env \<and> view J fs"
  have "holds env (?T tmp) (bind (attempt (fill_temporary tmp bytes m)) (\<lambda>result.
       after (if is_ok result then return () else ignoring (remove_file tmp))
       (lift (map_ok (\<lambda>_. tmp) result)))) ?F (view J)" for tmp
  proof (cases "tmp \<in> temporaries env")
    case True
    have "holds env (?T tmp) (attempt (fill_temporary tmp bytes m)) (?G tmp) (view J)"
      by (rule holds_attempt, rule holds_weaken [OF holds_fill_temporary [OF assms(1) True]])
        (use True in \<open>auto dest: with_temporaryD\<close>)
    moreover have "holds env (?G tmp result)
        (after (if is_ok result then return () else ignoring (remove_file tmp))
         (lift (map_ok (\<lambda>_. tmp) result))) ?F (view J)" for result
      using True
      by (cases result)
        (auto intro!: holds_return holds_bind [where R = "\<lambda>_. view J"] holds_bail
          holds_weaken [OF holds_ignoring [OF holds_remove_temporary [OF assms(1)]]])
    ultimately show ?thesis by (rule holds_bind)
  qed (simp add: holds_def)
  then show ?thesis
    unfolding write_temporary_def assms(2)
    by (auto intro!: holds_bind [OF holds_create_temporary [OF assms(1)]])
qed

lemma holds_read_file:
  assumes "stable env P"
  shows "holds env P (read_file path) (\<lambda>(c, m) fs. P fs \<and> fs path = Some (Regular c m)) P"
proof -
  have "holds env P (open_regular path) (\<lambda>(c, m) fs. P fs \<and> fs path = Some (Regular c m)) P"
    unfolding open_regular_def
    by (intro holds_syscall assms) (auto split: option.splits node.splits)
  then show ?thesis
    unfolding read_file_def by (rule holds_bind) (auto intro!: holds_return holds_bail split: prod.split)
qed

lemma view_mono: "view J fs \<Longrightarrow> (\<And>c b. J c b \<Longrightarrow> K c b) \<Longrightarrow> view K fs"
  by (simp add: view_def)

lemma holds_cleanup:
  assumes "undisturbed env" "tmp \<in> temporaries env"
  shows "holds env (view J)
    (bind (path_exists tmp) (\<lambda>left_over. if left_over then ignoring (remove_file tmp) else return ()))
    (\<lambda>_. view J) (view J)"
  by (rule holds_bind [OF silentD [OF silent_path_exists stable_view]])
    (use assms in \<open>auto intro!: holds_ignoring holds_remove_temporary holds_return\<close>)

lemma holds_replace_file:
  assumes env: "undisturbed env"
    and publish: "\<And>m0 b. J (Some (Regular expected m0)) b \<Longrightarrow> K (Some (Regular bytes (published m))) b"
  shows "holds env (view J) (replace_file CONFIG bytes m expected) (\<lambda>_. view K)
    (view (\<lambda>c b. J c b \<or> K c b))"
proof -
  let ?L = "\<lambda>c b. J c b \<or> K c b"
  let ?full = "\<lambda>n. n = Some (Regular bytes (published m))"
  let ?body = "\<lambda>tmp. bind (read_file CONFIG) (\<lambda>(current, _).
        if current \<noteq> expected
        then bail ''configuration changed during shutdown; preserving the external edit''
        else after (rename tmp CONFIG) (sync_directory (parent_of CONFIG)))"
  have body: "holds env (with_temporary J tmp ?full) (?body tmp) (\<lambda>_. view K) (view ?L)"
    if tmp: "tmp \<in> temporaries env" for tmp
  proof (rule holds_bind)
    show "holds env (with_temporary J tmp ?full) (read_file CONFIG)
        (\<lambda>(c, m) fs. with_temporary J tmp ?full fs \<and> fs CONFIG = Some (Regular c m)) (view ?L)"
      by (rule holds_weaken [OF holds_read_file [OF stable_with_temporary [OF env tmp]]])
        (auto dest!: with_temporaryD elim: view_mono)
    fix cm :: "string \<times> metadata"
    obtain c m0 where cm: "cm = (c, m0)" by (cases cm)
    have rename: "holds env (with_temporary (\<lambda>c' b. J c' b \<and> c' = Some (Regular expected m0)) tmp ?full)
        (rename tmp CONFIG) (\<lambda>_. view K) (view ?L)"
      unfolding rename_def using tmp temporaries_neq [OF tmp]
      by (intro holds_syscall stable_with_temporary env)
        (auto simp: with_temporary_def view_def intro: publish split: option.splits)
    have "holds env (with_temporary (\<lambda>c' b. J c' b \<and> c' = Some (Regular expected m0)) tmp ?full)
        (after (rename tmp CONFIG) (sync_directory (parent_of CONFIG))) (\<lambda>_. view K) (view ?L)"
      unfolding sync_directory_def
      by (rule holds_bind [OF rename], rule holds_weaken [OF silentD [OF silent_calls(2) stable_view [of env K, OF env]]])
        (auto elim: view_mono)
    then have "holds env (\<lambda>fs. with_temporary J tmp ?full fs \<and> fs CONFIG = Some (Regular expected m0))
        (after (rename tmp CONFIG) (sync_directory (parent_of CONFIG))) (\<lambda>_. view K) (view ?L)"
      by (rule holds_weaken) (auto simp: with_temporary_def view_def)
    then show "holds env ((\<lambda>(c, m) fs. with_temporary J tmp ?full fs \<and> fs CONFIG = Some (Regular c m)) cm)
        (case cm of (current, _) \<Rightarrow> if current \<noteq> expected
          then bail ''configuration changed during shutdown; preserving the external edit''
          else after (rename tmp CONFIG) (sync_directory (parent_of CONFIG))) (\<lambda>_. view K) (view ?L)"
      by (auto simp: cm with_temporary_def intro!: holds_bail elim: view_mono)
  qed
  let ?G = "\<lambda>result :: (unit, string) result. if is_ok result then view K else view ?L"
  have close: "holds env (view M) (bind (path_exists tmp) (\<lambda>left_over.
      after (if left_over then ignoring (remove_file tmp) else return ()) (lift result)))
      (\<lambda>_. view K) (view ?L)"
    if tmp: "tmp \<in> temporaries env" and M: "M = (if is_ok result then K else ?L)"
    for tmp M and result :: "(unit, string) result"
  proof -
    have "holds env (view M) (after (bind (path_exists tmp) (\<lambda>left_over.
        if left_over then ignoring (remove_file tmp) else return ())) (lift result)) (\<lambda>_. view K) (view ?L)"
    proof (rule holds_bind)
      show "holds env (view M) (bind (path_exists tmp) (\<lambda>left_over.
          if left_over then ignoring (remove_file tmp) else return ())) (\<lambda>_. view M) (view ?L)"
        by (rule holds_weaken [OF holds_cleanup [OF env tmp, of M]]) (auto simp: M elim: view_mono split: if_splits)
      show "holds env (view M) (lift result) (\<lambda>_. view K) (view ?L)"
        by (cases result) (auto simp: M intro!: holds_return holds_bail)
    qed
    then show ?thesis by (simp add: bind_assoc)
  qed
  have whole: "holds env (with_temporary J tmp ?full) (bind (attempt (?body tmp)) (\<lambda>result.
      bind (path_exists tmp) (\<lambda>left_over.
      after (if left_over then ignoring (remove_file tmp) else return ()) (lift result))))
      (\<lambda>_. view K) (view ?L)" if tmp: "tmp \<in> temporaries env" for tmp
  proof (rule holds_bind)
    show "holds env (with_temporary J tmp ?full) (attempt (?body tmp))
        (\<lambda>result. view (if is_ok result then K else ?L)) (view ?L)"
      by (rule holds_attempt, rule holds_weaken [OF body [OF tmp]]) simp_all
  qed (rule close [OF tmp refl])
  have "holds env (\<lambda>fs. tmp \<in> temporaries env \<and> with_temporary J tmp ?full fs) (bind (attempt (?body tmp)) (\<lambda>result.
      bind (path_exists tmp) (\<lambda>left_over.
      after (if left_over then ignoring (remove_file tmp) else return ()) (lift result))))
      (\<lambda>_. view K) (view ?L)" for tmp
    using whole [of tmp] by (cases "tmp \<in> temporaries env") (simp_all add: holds_def)
  then show ?thesis
    unfolding replace_file_def
    by (intro holds_bind_err [OF holds_write_temporary [OF env parents(1), of J]]) (auto elim: view_mono)
qed

lemma holds_save_backup:
  assumes env: "undisturbed env"
    and publish: "\<And>c. J c None \<Longrightarrow> K c (Some (Regular bytes (published m)))"
  shows "holds env (view J) (save_backup BACKUP bytes m) (\<lambda>_. view K)
    (view (\<lambda>c b. J c b \<or> K c b))"
proof -
  let ?L = "\<lambda>c b. J c b \<or> K c b"
  let ?full = "\<lambda>n. n = Some (Regular bytes (published m))"
  let ?body = "\<lambda>tmp. after (hard_link tmp BACKUP) (sync_directory (parent_of BACKUP))"
  have body: "holds env (with_temporary J tmp ?full) (?body tmp) (\<lambda>_. view K) (view ?L)"
    if tmp: "tmp \<in> temporaries env" for tmp
  proof (rule holds_bind)
    show "holds env (with_temporary J tmp ?full) (hard_link tmp BACKUP) (\<lambda>_. view K) (view ?L)"
      unfolding hard_link_def using tmp temporaries_neq [OF tmp]
      by (intro holds_syscall stable_with_temporary env)
        (auto simp: with_temporary_def view_def intro: publish split: option.splits if_splits)
    show "holds env (view K) (sync_directory (parent_of BACKUP)) (\<lambda>_. view K) (view ?L)"
      unfolding sync_directory_def
      by (rule holds_weaken [OF silentD [OF silent_calls(2) stable_view [of env K, OF env]]])
        (auto elim: view_mono)
  qed
  have rest: "holds env (with_temporary J tmp ?full) (bind (attempt (?body tmp)) (\<lambda>result.
      after (ignoring (remove_file tmp)) (lift result))) (\<lambda>_. view K) (view ?L)"
    if tmp: "tmp \<in> temporaries env" for tmp
  proof (rule holds_bind)
    show "holds env (with_temporary J tmp ?full) (attempt (?body tmp))
        (\<lambda>result. view (if is_ok result then K else ?L)) (view ?L)"
      by (rule holds_attempt, rule holds_weaken [OF body [OF tmp]]) simp_all
    show "holds env (view (if is_ok result then K else ?L))
        (after (ignoring (remove_file tmp)) (lift result)) (\<lambda>_. view K) (view ?L)" for result
      by (rule holds_bind_err [OF holds_ignoring [OF holds_remove_temporary [OF env tmp]]])
        (cases result; auto intro!: holds_return holds_bail elim: view_mono)+
  qed
  have "holds env (\<lambda>fs. tmp \<in> temporaries env \<and> with_temporary J tmp ?full fs)
      (bind (attempt (?body tmp)) (\<lambda>result. after (ignoring (remove_file tmp)) (lift result)))
      (\<lambda>_. view K) (view ?L)" for tmp
    using rest [of tmp] by (cases "tmp \<in> temporaries env") (simp_all add: holds_def)
  then show ?thesis
    unfolding save_backup_def
    by (intro holds_bind_err [OF holds_write_temporary [OF env parents(2), of J]]) (auto elim: view_mono)
qed

section \<open>The crash invariant\<close>

lemma silent_wait_child [io_rules]: "silent (wait_child argv deadline)"
proof -
  have "P (files w')"
    if "stable env P" "P (files w)" "wait_child argv deadline env w = (r, w')" for env P w r w'
    using that
  proof (induction argv deadline env w rule: wait_child.induct)
    case (1 argv deadline env w)
    obtain c w1 where wait: "try_wait argv env w = (c, w1)" by fastforce
    have P1: "P (files w1)"
      using silent_programs(2) [of argv] 1(2,3) wait unfolding silent_iff by blast
    have P2: "P (files w2)" if "sleep 25 env w1 = (s, w2)" for s w2
      using silent_sleep [of 25] 1(2) P1 that unfolding silent_iff by blast
    show ?case
    proof (cases "c = Done Running \<and> now w1 < deadline")
      case True
      then show ?thesis
        using 1 wait P2 by (auto simp: wait_child.simps [of argv deadline env w] split: prod.splits)
    next
      case False
      with 1(4) wait P1 show ?thesis
        by (auto simp: wait_child.simps [of argv deadline env w] split: outcome.splits child.splits if_splits)
    qed
  qed
  then show ?thesis unfolding silent_iff by blast
qed

lemma silent_live_restore [io_rules]: "silent live_restore"
  unfolding live_restore_def by (intro io_rules)

lemma silent_await_reload [io_rules]: "silent (await_reload expected deadline)"
proof -
  have "P (files w')"
    if "stable env P" "P (files w)" "await_reload expected deadline env w = (r, w')" for env P w r w'
    using that
  proof (induction expected deadline env w rule: await_reload.induct)
    case (1 expected deadline env w)
    obtain c w1 where poll: "attempt live_restore env w = (c, w1)" by fastforce
    have P1: "P (files w1)"
      using silent_attempt [OF silent_live_restore] 1(2,3) poll unfolding silent_iff by blast
    have P2: "P (files w2)" if "sleep 100 env w1 = (s, w2)" for s w2
      using silent_sleep [of 100] 1(2) P1 that unfolding silent_iff by blast
    show ?case
    proof (cases "\<exists>a. c = Done a \<and> a \<noteq> Ok expected \<and> now w1 < deadline")
      case True
      then show ?thesis
        using 1 poll P2 by (auto simp: await_reload.simps [of expected deadline env w] split: prod.splits)
    next
      case False
      with 1(4) poll P1 show ?thesis
        by (auto simp: await_reload.simps [of expected deadline env w] split: outcome.splits if_splits)
    qed
  qed
  then show ?thesis unfolding silent_iff by blast
qed

lemma silent_run [io_rules]: "silent (run argv timeout)"
  unfolding run_def by (intro io_rules silent_from_now)

lemma silent_service [io_rules]:
  "silent (systemctl arguments timeout)" "silent service_state" "silent docker_shims_remain"
  unfolding systemctl_def service_state_def docker_shims_remain_def by (intro io_rules)+

lemma silent_reload_config [io_rules]: "silent (reload_config expected)"
  unfolding reload_config_def Let_def by (intro io_rules silent_from_now)

lemma silent_restore_runtime [io_rules]: "silent (restore_runtime original)"
  unfolding restore_runtime_def Let_def by (intro io_rules)

lemma silent_stop_docker [io_rules]: "silent (stop_docker active)"
  unfolding stop_docker_def by (intro io_rules)

definition settled :: "string \<Rightarrow> metadata \<Rightarrow> node option \<Rightarrow> node option \<Rightarrow> bool" where
  "settled original m config backup \<longleftrightarrow> config = Some (Regular original m) \<and> backup = None"

definition clean :: "string \<Rightarrow> metadata \<Rightarrow> node option \<Rightarrow> node option \<Rightarrow> bool" where
  "clean original m config backup \<longleftrightarrow>
     config = Some (Regular original m) \<and> backup \<in> {None, Some (Regular original m)}"

definition recoverable :: "string \<Rightarrow> metadata \<Rightarrow> string \<Rightarrow> node option \<Rightarrow> node option \<Rightarrow> bool" where
  "recoverable original m temporary config backup \<longleftrightarrow>
     clean original m config backup \<or>
     config = Some (Regular temporary m) \<and> backup = Some (Regular original m)"

lemmas invariant_defs = settled_def clean_def recoverable_def

lemma published_id: "mode m < 0x1000 \<Longrightarrow> published m = m"
  by (cases m) simp

lemma holds_restore_file:
  assumes env: "undisturbed env" and m: "mode m < 0x1000"
  shows "holds env (view (recoverable original m temporary)) (restore_file CONFIG original m temporary)
    (\<lambda>_. view (clean original m)) (view (recoverable original m temporary))"
proof -
  let ?R = "recoverable original m temporary"
  have step: "holds env (\<lambda>fs. view ?R fs \<and> fs CONFIG = Some (Regular current m0))
      (if current = temporary then replace_file CONFIG original m temporary
       else if current \<noteq> original
       then bail ''Docker configuration changed during shutdown; preserving the external edit and backup''
       else return ()) (\<lambda>_. view (clean original m)) (view ?R)" for current m0
  proof (cases "current = temporary")
    case True
    have "holds env (view ?R) (replace_file CONFIG original m temporary) (\<lambda>_. view (clean original m))
        (view (\<lambda>c b. ?R c b \<or> clean original m c b))"
      by (rule holds_replace_file [OF env]) (auto simp: invariant_defs published_id [OF m])
    then show ?thesis
      using True by (auto elim!: holds_weaken simp: view_def recoverable_def)
  next
    case False
    then show ?thesis
      by (auto intro!: holds_return holds_bail simp: view_def invariant_defs)
  qed
  show ?thesis
    unfolding restore_file_def
    by (rule holds_bind [OF holds_read_file [OF stable_view [OF env]]]) (use step in auto)
qed

lemma holds_silent: "undisturbed env \<Longrightarrow> silent c \<Longrightarrow> holds env (view J) c (\<lambda>_. view J) (view J)"
  by (rule silentD [OF _ stable_view])

lemma holds_silent_imp:
  assumes "undisturbed env" "silent c" "\<And>fs. view J fs \<Longrightarrow> E fs"
  shows "holds env (view J) c (\<lambda>_. view J) E"
  using holds_silent [OF assms(1,2)] by (rule holds_weaken) (auto intro: assms(3))

lemma clean_recoverable: "view (clean original m) fs \<Longrightarrow> view (recoverable original m temporary) fs"
  by (simp add: view_def recoverable_def)

lemma settled_recoverable: "view (settled original m) fs \<Longrightarrow> view (recoverable original m temporary) fs"
  by (simp add: view_def invariant_defs)

lemma holds_remove_backup:
  assumes env: "undisturbed env"
  shows "holds env (view (clean original m)) (after (remove_file BACKUP) (sync_directory (parent_of BACKUP)))
    (\<lambda>_. view (settled original m)) (view (recoverable original m temporary))"
proof (rule holds_bind)
  show "holds env (view (clean original m)) (remove_file BACKUP)
      (\<lambda>_. view (settled original m)) (view (recoverable original m temporary))"
    unfolding remove_file_def
    by (intro holds_syscall stable_view env) (auto simp: view_def invariant_defs split: if_splits)
  show "holds env (view (settled original m)) (sync_directory (parent_of BACKUP))
      (\<lambda>_. view (settled original m)) (view (recoverable original m temporary))"
    unfolding sync_directory_def
    by (intro holds_silent_imp env silent_calls) (rule settled_recoverable)
qed

lemma holds_restore_and_remove:
  assumes env: "undisturbed env" and m: "mode m < 0x1000" and c: "silent c"
  shows "holds env (view (recoverable original m temporary))
    (after (restore_file CONFIG original m temporary)
     (after c (after (remove_file BACKUP) (sync_directory (parent_of BACKUP)))))
    (\<lambda>_. view (settled original m)) (view (recoverable original m temporary))"
  by (intro holds_bind [OF holds_restore_file [OF env m]] holds_bind [OF holds_silent_imp [OF env c]]
      holds_remove_backup env) (rule clean_recoverable)

lemma scan_message_Ok [simp]: "scan_message r = Ok a \<longleftrightarrow> r = Ok a"
  by (cases r) (auto simp: scan_message_def split: error.split)

text \<open>Recovery from a file seen as the backup.\<close>

lemma holds_recover_from:
  assumes env: "undisturbed env" and m: "mode m < 0x1000" and d: "disabled_config original = Ok temporary"
  shows "holds env (view (recoverable original m temporary)) (recover_from CONFIG BACKUP)
    (\<lambda>_. view (settled original m)) (view (recoverable original m temporary))"
  unfolding recover_from_def
proof (rule holds_bind [OF holds_read_file [OF stable_view [OF env]]])
  fix cm :: "string \<times> metadata"
  obtain c m0 where cm: "cm = (c, m0)" by (cases cm)
  let ?k = "\<lambda>(original, m). bind (lift (scan_message (disabled_config original))) (\<lambda>temporary.
       after (restore_file CONFIG original m temporary)
       (after (restore_runtime original)
       (after (remove_file BACKUP)
       (sync_directory (parent_of BACKUP)))))"
  let ?P = "\<lambda>fs. view (recoverable original m temporary) fs \<and> fs BACKUP = Some (Regular c m0)"
  have message: "scan_message (disabled_config original) = Ok temporary" using d by simp
  have "holds env (view (recoverable original m temporary)) (?k (original, m))
      (\<lambda>_. view (settled original m)) (view (recoverable original m temporary))"
    unfolding prod.case message lift.simps bind_return
    by (rule holds_restore_and_remove [OF env m silent_restore_runtime])
  then have "holds env ?P (?k (c, m0)) (\<lambda>_. view (settled original m)) (view (recoverable original m temporary))"
    by (cases "c = original \<and> m0 = m") (auto simp: holds_def view_def invariant_defs)
  then show "holds env ((\<lambda>(c, m') fs. view (recoverable original m temporary) fs \<and> fs BACKUP = Some (Regular c m')) cm)
      (?k cm) (\<lambda>_. view (settled original m)) (view (recoverable original m temporary))"
    by (simp add: cm)
qed

lemma holds_recover_backup:
  assumes env: "undisturbed env" and m: "mode m < 0x1000" and d: "disabled_config original = Ok temporary"
  shows "holds env (view (recoverable original m temporary)) (recover_backup CONFIG BACKUP)
    (\<lambda>_. view (recoverable original m temporary)) (view (recoverable original m temporary))"
proof -
  let ?R = "view (recoverable original m temporary)"
  have found: "silent (if found then return True else bind (attempt (symlink_metadata BACKUP)) (\<lambda>r. return (is_ok r)))"
    for found
    by (intro io_rules)
  have "holds env ?R (if \<not> found then return () else recover_from CONFIG BACKUP) (\<lambda>_. ?R) ?R" for found
    using holds_weaken [OF holds_recover_from [OF env m d], of ?R "\<lambda>_. ?R" ?R] settled_recoverable
    by (auto intro: holds_return)
  then show ?thesis
    unfolding recover_backup_def
    by (intro holds_bind [OF holds_silent [OF env silent_path_exists]] holds_bind [OF holds_silent [OF env found]])
qed

text \<open>
  When the first call of the run succeeds, the backup is seen if it is there, and recovery
  leaves the original configuration and no backup.
\<close>

section \<open>The whole sequence keeps the invariant\<close>

text \<open>
  When the first call of the run succeeds, the backup is seen if it is there, and recovery
  leaves the original configuration and no backup.
\<close>

lemma recover_backup_settles:
  assumes env: "undisturbed env" and m: "mode m < 0x1000" and d: "disabled_config original = Ok temporary"
    and pass: "verdict env (clock w) = Pass"
    and R: "view (recoverable original m temporary) (files w)"
    and run: "recover_backup CONFIG BACKUP env w = (Done u, w')"
  shows "view (settled original m) (files w')"
proof -
  let ?fs = "others env (clock w) (files w)"
  let ?w = "w\<lparr>files := ?fs, clock := clock w + 1\<rparr>"
  have R': "view (recoverable original m temporary) ?fs"
    using stable_view [OF env] R by (simp add: stable_def)
  have seen: "path_exists BACKUP env w = (Done (resolves ?fs BACKUP), ?w)"
    using pass by (simp add: path_exists_def bind_def attempt_def syscall_def Let_def return_def)
  show ?thesis
  proof (cases "?fs BACKUP")
    case None
    with R' have S: "view (settled original m) (files ?w)" by (simp add: view_def invariant_defs)
    have absent: "holds env (view (settled original m)) (symlink_metadata BACKUP)
        (\<lambda>_ _. False) (view (settled original m))"
      unfolding symlink_metadata_def
      by (intro holds_syscall stable_view env) (auto simp: view_def settled_def split: if_splits)
    have "holds env (view (settled original m)) (bind (attempt (symlink_metadata BACKUP)) (\<lambda>r. return (is_ok r)))
        (\<lambda>found fs. view (settled original m) fs \<and> \<not> found) (view (settled original m))"
      by (rule holds_bind [OF holds_attempt
            [where Q = "\<lambda>r fs. view (settled original m) fs \<and> \<not> is_ok r", OF holds_weaken [OF absent]]])
        (auto intro: holds_return)
    then have "holds env (view (settled original m))
        (bind (bind (attempt (symlink_metadata BACKUP)) (\<lambda>r. return (is_ok r))) (\<lambda>found.
         if \<not> found then return () else k)) (\<lambda>_. view (settled original m)) (view (settled original m))" for k
      by (rule holds_bind) (auto simp: holds_def return_def)
    note rest = holdsD [OF this S]
    have "resolves ?fs BACKUP = False" using None by (simp add: resolves_def follow_def)
    note seen' = seen [unfolded this]
    from run [unfolded recover_backup_def bind_def [of "path_exists BACKUP"] seen' prod.case outcome.case if_False]
    show ?thesis by (rule rest [THEN outcome_DoneD])
  next
    case (Some n)
    with R' have "resolves ?fs BACKUP" by (auto simp: view_def invariant_defs resolves_def follow_def)
    with seen run have "recover_from CONFIG BACKUP env ?w = (Done u, w')"
      by (simp add: recover_backup_def bind_def [of "path_exists BACKUP"])
    from holdsD [OF holds_recover_from [OF env m d] _ this] R' show ?thesis by simp
  qed
qed

lemma view_conj: "view (\<lambda>c b. S c b \<and> c = n) = (\<lambda>fs. view S fs \<and> fs CONFIG = n)"
  by (simp add: view_def fun_eq_iff)

lemma holds_prepare:
  assumes env: "undisturbed env" and m: "mode m < 0x1000" and d: "disabled_config original = Ok temporary"
    and S: "\<And>c b. S c b \<Longrightarrow> recoverable original m temporary c b"
  shows "holds env (view S) prepare
    (\<lambda>r fs. (r = None \<longrightarrow> view S fs) \<and> (r \<noteq> None \<longrightarrow> r = Some (original, m, temporary)
       \<and> view (recoverable original m temporary) fs))
    (view (recoverable original m temporary))"
proof -
  let ?R = "recoverable original m temporary"
  let ?Q = "\<lambda>r fs. (r = None \<longrightarrow> view S fs) \<and> (r \<noteq> None \<longrightarrow> r = Some (original, m, temporary) \<and> view ?R fs)"
  have publish: "holds env (view (\<lambda>c b. S c b \<and> c = Some (Regular c0 m0)))
      (after (save_backup BACKUP c0 m0) (after (replace_file CONFIG t m0 c0) (return (Some (c0, m0, t))))) ?Q (view ?R)"
    if t: "disabled_config c0 = Ok t" for c0 m0 t
  proof -
    let ?K = "\<lambda>c b. c0 = original \<and> m0 = m \<and> c = Some (Regular original m) \<and> b = Some (Regular original m)"
    let ?K' = "\<lambda>c b. c0 = original \<and> m0 = m \<and> c = Some (Regular temporary m) \<and> b = Some (Regular original m)"
    have save: "holds env (view (\<lambda>c b. S c b \<and> c = Some (Regular c0 m0))) (save_backup BACKUP c0 m0)
        (\<lambda>_. view ?K) (view (\<lambda>c b. S c b \<and> c = Some (Regular c0 m0) \<or> ?K c b))"
      by (rule holds_save_backup [OF env]) (auto dest!: S simp: invariant_defs published_id [OF m])
    have replace: "holds env (view ?K) (replace_file CONFIG t m0 c0) (\<lambda>_. view ?K')
        (view (\<lambda>c b. ?K c b \<or> ?K' c b))"
      using t d by (intro holds_replace_file [OF env]) (auto simp: published_id [OF m])
    have ret: "holds env (view ?K') (return (Some (c0, m0, t))) ?Q (view ?R)"
      using t d by (intro holds_return) (auto simp: view_def recoverable_def)
    show ?thesis
      by (rule holds_bind_err [OF save _ holds_bind_err [OF replace _ ret]])
        (auto simp: view_def invariant_defs dest!: S)
  qed
  have decide: "holds env (view (\<lambda>c b. S c b \<and> c = Some (Regular c0 m0)))
      (bind (lift (scan_message (disabled_config c0))) (\<lambda>t.
       bind live_restore (\<lambda>enabled.
       if enabled
       then after (save_backup BACKUP c0 m0) (after (replace_file CONFIG t m0 c0) (return (Some (c0, m0, t))))
       else return None))) ?Q (view ?R)" for c0 m0
  proof (cases "scan_message (disabled_config c0)")
    case (Ok t)
    then have t: "disabled_config c0 = Ok t" by simp
    show ?thesis
      unfolding Ok lift.simps bind_return
    proof (rule holds_bind [OF holds_silent_imp [OF env silent_live_restore]])
      show "holds env (view (\<lambda>c b. S c b \<and> c = Some (Regular c0 m0)))
          (if enabled
           then after (save_backup BACKUP c0 m0) (after (replace_file CONFIG t m0 c0) (return (Some (c0, m0, t))))
           else return None) ?Q (view ?R)" for enabled
        using publish [OF t] by (auto intro!: holds_return simp: view_def)
    qed (auto simp: view_def S)
  next
    case (Err e)
    then show ?thesis by (auto intro!: holds_bail simp: view_def S)
  qed
  show ?thesis
    unfolding prepare_def
  proof (rule holds_bind_err [OF holds_read_file [OF stable_view [OF env]]])
    fix cm :: "string \<times> metadata"
    show "holds env ((\<lambda>(c, m) fs. view S fs \<and> fs CONFIG = Some (Regular c m)) cm)
      (case cm of (c0, m0) \<Rightarrow> bind (lift (scan_message (disabled_config c0))) (\<lambda>t.
       bind live_restore (\<lambda>enabled.
       if enabled
       then after (save_backup BACKUP c0 m0) (after (replace_file CONFIG t m0 c0) (return (Some (c0, m0, t))))
       else return None))) ?Q (view ?R)"
      using decide [of "fst cm" "snd cm"] unfolding view_conj by (simp only: case_prod_unfold)
  qed (auto simp: view_def S)
qed

lemma holds_confirm:
  assumes env: "undisturbed env" and m: "mode m < 0x1000"
    and r: "r = None \<or> r = Some (original, m, temporary)"
    and J: "J = (if r = None then S else recoverable original m temporary)"
  shows "holds env (view J) (after (confirm state r) (stop_docker True)) (\<lambda>_. view J) (view J)"
proof -
  have tail: "silent (bind service_state (\<lambda>state'.
      bind (if map_of state' ''MainPID'' \<noteq> map_of state ''MainPID'' then return True else live_restore)
        (\<lambda>changed. if changed then bail ''Docker changed during shutdown preparation; retry after it settles''
          else return ())))"
    by (intro io_rules)
  have restore: "holds env (view (recoverable original m temporary))
      (after (reload_config False) (restore_file CONFIG original m temporary))
      (\<lambda>_. view (recoverable original m temporary)) (view (recoverable original m temporary))"
    by (rule holds_bind [OF holds_silent [OF env silent_reload_config]], rule holds_weaken [OF holds_restore_file [OF env m]])
      (auto intro: clean_recoverable)
  have "holds env (view J) (case r of None \<Rightarrow> return ()
      | Some (original, m, temporary) \<Rightarrow> after (reload_config False) (restore_file CONFIG original m temporary))
      (\<lambda>_. view J) (view J)"
    using r restore J by (auto intro: holds_return)
  then have "holds env (view J) (confirm state r) (\<lambda>_. view J) (view J)"
    unfolding confirm_def by (rule holds_bind) (rule holds_silent [OF env tail])
  then show ?thesis by (rule holds_bind) (rule holds_silent [OF env silent_stop_docker])
qed

lemma holds_finish_restoration:
  assumes env: "undisturbed env" and m: "mode m < 0x1000"
    and r: "r = None \<or> r = Some (original, m, temporary)"
    and J: "J = (if r = None then S else recoverable original m temporary)"
    and S: "\<And>c b. settled original m c b \<Longrightarrow> S c b" "\<And>c b. S c b \<Longrightarrow> recoverable original m temporary c b"
  shows "holds env (view J) (finish_restoration r result) (\<lambda>_. view S) (view (recoverable original m temporary))"
  using r
proof
  assume "r = None"
  then show ?thesis
    using J S(2) by (cases result) (auto simp: finish_restoration_def view_def intro: holds_return holds_bail)
next
  assume r: "r = Some (original, m, temporary)"
  have c: "silent (if is_ok result then return () else restore_runtime original)" by (intro io_rules)
  have "holds env (view (recoverable original m temporary))
      (after (after (restore_file CONFIG original m temporary)
        (after (if is_ok result then return () else restore_runtime original)
        (after (remove_file BACKUP) (sync_directory (parent_of BACKUP)))))
       (lift result)) (\<lambda>_. view S) (view (recoverable original m temporary))"
    by (rule holds_bind [OF holds_restore_and_remove [OF env m c]])
      (auto intro!: holds_lift simp: view_def invariant_defs S(1))
  then show ?thesis using r J by (simp add: finish_restoration_def bind_assoc)
qed

lemma holds_shutdown_from:
  assumes env: "undisturbed env" and m: "mode m < 0x1000" and d: "disabled_config original = Ok temporary"
    and S: "\<And>c b. settled original m c b \<Longrightarrow> S c b" "\<And>c b. S c b \<Longrightarrow> recoverable original m temporary c b"
  shows "holds env (view S) shutdown_recovered (\<lambda>_. view S) (view (recoverable original m temporary))"
proof -
  let ?R = "view (recoverable original m temporary)"
  have S': "view S fs \<Longrightarrow> ?R fs" for fs using S(2) by (simp add: view_def)
  have inactive: "holds env (view S) (bind (attempt (stop_docker False)) (finish_restoration None)) (\<lambda>_. view S) ?R"
    by (rule holds_bind [OF holds_silent_imp [OF env silent_attempt [OF silent_stop_docker]]])
      (auto intro: S' holds_finish_restoration [OF env m _ _ S])
  have finish: "holds env (if r = None then view S else ?R)
      (bind (attempt (after (confirm state r) (stop_docker True))) (finish_restoration r)) (\<lambda>_. view S) ?R"
    if r: "r = None \<or> r = Some (original, m, temporary)" for state r
  proof -
    define J where J: "J = (if r = None then S else recoverable original m temporary)"
    have "holds env (view J) (attempt (after (confirm state r) (stop_docker True))) (\<lambda>_. view J) (view J)"
      by (rule holds_attempt [OF holds_confirm [OF env m r J]])
    then have "holds env (view J) (bind (attempt (after (confirm state r) (stop_docker True))) (finish_restoration r))
        (\<lambda>_. view S) ?R"
    proof (rule holds_bind_err)
      show "view J fs \<Longrightarrow> ?R fs" for fs using S' by (simp add: J split: if_splits)
      show "holds env (view J) (finish_restoration r result) (\<lambda>_. view S) ?R" for result
        by (rule holds_finish_restoration [OF env m r J S])
    qed
    then show ?thesis by (auto simp: J split: if_splits)
  qed
  have active: "holds env (view S) (bind (attempt prepare) (\<lambda>prepared.
        (case prepared of
           Err e \<Rightarrow> finish_restoration None (Err e)
         | Ok restoration \<Rightarrow>
             bind (attempt (after (confirm state restoration) (stop_docker True)))
               (finish_restoration restoration)))) (\<lambda>_. view S) ?R" for state
  proof (rule holds_bind [OF holds_attempt])
    show "holds env (view S) prepare
      (\<lambda>r. (\<lambda>q fs. case q of Err e \<Rightarrow> ?R fs | Ok r \<Rightarrow> (r = None \<longrightarrow> view S fs) \<and> (r \<noteq> None \<longrightarrow> r = Some (original, m, temporary) \<and> ?R fs)) (Ok r)) ?R"
      using holds_prepare [OF env m d S(2)] by simp
  next
    fix q :: "((string \<times> metadata \<times> string) option, string) result"
    show "holds env (\<lambda>fs. case q of Err e \<Rightarrow> ?R fs | Ok r \<Rightarrow> (r = None \<longrightarrow> view S fs) \<and> (r \<noteq> None \<longrightarrow> r = Some (original, m, temporary) \<and> ?R fs))
      (case q of
           Err e \<Rightarrow> finish_restoration None (Err e)
         | Ok restoration \<Rightarrow>
             bind (attempt (after (confirm state restoration) (stop_docker True)))
               (finish_restoration restoration)) (\<lambda>_. view S) ?R"
    proof (cases q)
      case (Ok r)
      show ?thesis
      proof (cases "r = None \<or> r = Some (original, m, temporary)")
        case True
        with finish [OF True, of state] Ok show ?thesis by (auto elim!: holds_weaken)
      next
        case False
        with Ok show ?thesis by (auto simp: holds_def)
      qed
    qed (auto simp: finish_restoration_def intro: holds_bail)
  qed simp
  show ?thesis
    unfolding shutdown_recovered_def Let_def
    by (rule holds_bind [OF holds_silent_imp [OF env silent_service(2)]])
      (use active inactive in \<open>auto intro: holds_bail S'\<close>)
qed

end
