(* ===== verification/Trace.thy ===== *)
theory Trace
  imports Hostfs
begin

text \<open>
  What computations leave in the log of commands and on the clock. The locale
  \<open>world_relation\<close> is a relation on worlds that system calls respect, \<open>logging_relation\<close> one
  that running an allowed program respects as well. Instances: no command was run, commands
  were only added, and only commands of a set were added.
\<close>

section \<open>What a run leaves in the world\<close>

text \<open>
  A relation on worlds that every system call respects is respected by every computation
  built from them. A client adds the programs when the relation allows their log.
\<close>

definition obeys :: "environment \<Rightarrow> (world \<Rightarrow> world \<Rightarrow> bool) \<Rightarrow> 'a io \<Rightarrow> bool" where
  "obeys env R c \<longleftrightarrow> (\<forall>w r w'. c env w = (r, w') \<longrightarrow> R w w')"

lemma obeysI: "(\<And>w r w'. c env w = (r, w') \<Longrightarrow> R w w') \<Longrightarrow> obeys env R c"
  by (simp add: obeys_def)

lemma obeysD: "obeys env R c \<Longrightarrow> c env w = (r, w') \<Longrightarrow> R w w'"
  by (simp add: obeys_def)

locale world_relation =
  fixes env :: environment and R :: "world \<Rightarrow> world \<Rightarrow> bool"
  assumes refl: "R w w"
    and trans: "R u v \<Longrightarrow> R v w \<Longrightarrow> R u w"
    and step: "R w (w\<lparr>files := fs, clock := clock w + 1, now := t\<rparr>)"
begin

lemma step_calls: "R w (w\<lparr>files := fs, clock := clock w + 1\<rparr>)" "R w (w\<lparr>now := t, clock := clock w + 1\<rparr>)"
  using step [where w = w and fs = fs and t = "now w"] step [where w = w and fs = "files w" and t = t]
  by (cases w; simp)+

lemma pure: "obeys env R (return a)" "obeys env R (bail e)" "obeys env R (lift r)"
  by (cases r; simp add: obeys_def return_def bail_def refl)+

lemma bind: "obeys env R c \<Longrightarrow> (\<And>a. obeys env R (k a)) \<Longrightarrow> obeys env R (bind c k)"
  by (auto simp: obeys_def bind_def split: prod.splits outcome.splits) (blast intro: trans)

text \<open>The continuation may use that the first computation returned its value.\<close>

lemma bind_returned:
  assumes "obeys env R c" "\<And>a w w'. c env w = (Done a, w') \<Longrightarrow> obeys env R (k a)"
  shows "obeys env R (bind c k)"
  using assms by (auto simp: obeys_def bind_def split: prod.splits outcome.splits) (blast intro: trans)

lemma attempt: "obeys env R c \<Longrightarrow> obeys env R (attempt c)"
  by (auto simp: obeys_def attempt_def split: prod.splits outcome.splits)

lemma choice: "obeys env R c \<Longrightarrow> obeys env R d \<Longrightarrow> obeys env R (if b then c else d)"
  by simp

lemma ignoring: "obeys env R c \<Longrightarrow> obeys env R (ignoring c)"
  unfolding ignoring_def by (intro bind attempt pure)

lemma syscall: "obeys env R (syscall f)"
  using step_calls
  by (auto simp: obeys_def syscall_def Let_def split: verdict.splits prod.splits result.splits)

lemma calls:
  "obeys env R (open_regular p)" "obeys env R (create_new p)" "obeys env R (chown p u g)"
  "obeys env R (set_permissions p x)" "obeys env R (sync_path p)" "obeys env R (remove_file p)"
  "obeys env R (rename p q)" "obeys env R (hard_link p q)" "obeys env R (symlink_metadata p)"
proof -
  show "obeys env R (create_new p)"
    unfolding create_new_def obeys_def using obeysD [OF syscall] by blast
qed (unfold open_regular_def chown_def set_permissions_def sync_path_def
    remove_file_def rename_def hard_link_def symlink_metadata_def; rule syscall)+

lemma path_exists: "obeys env R (path_exists p)"
  unfolding path_exists_def by (intro bind attempt syscall pure)

lemma write_all: "obeys env R (write_all p b)"
  using step_calls by (auto simp: obeys_def write_all_def Let_def split: verdict.splits)

lemma sleep: "obeys env R (sleep ms)"
  using step_calls(2) by (auto simp: obeys_def sleep_def)

lemma asks: "obeys env R (try_wait argv)" "obeys env R exchange" "obeys env R list_processes"
  using step_calls(1) step
  by (auto simp: obeys_def try_wait_def exchange_def list_processes_def syscall_def lift_cases Let_def
      split: verdict.splits result.splits)

lemma more_calls:
  "obeys env R (lstat p)" "obeys env R (read_contents p)" "obeys env R (set_directory_mode p x)"
  "obeys env R (create_dir_all ps p)"
  unfolding lstat_def read_contents_def set_directory_mode_def create_dir_all_def by (rule syscall)+

lemma questions: "obeys env R (query f)" "obeys env R (directory_entries p)"
  using step_calls(1)
  by (auto simp: obeys_def query_def directory_entries_def syscall_def Let_def split: verdict.splits)

lemma require: "obeys env R (require b e)"
  unfolding require_def by (rule pure)

lemma path_is_dir: "obeys env R (path_is_dir p)"
  unfolding path_is_dir_def by (intro bind attempt syscall pure)

lemma canonicalize: "obeys env R (canonicalize p)"
  unfolding canonicalize_def by (intro bind questions pure)

lemmas basic = pure bind attempt ignoring calls path_exists write_all sleep asks
  more_calls questions require path_is_dir canonicalize

end

locale logging_relation = world_relation +
  fixes allowed :: "string list \<Rightarrow> bool"
  assumes logged: "allowed argv \<Longrightarrow> R w (w\<lparr>commands := commands w @ [argv]\<rparr>)"
begin

lemma spawn: "allowed argv \<Longrightarrow> obeys env R (spawn argv)"
proof -
  assume a: "allowed argv"
  have "R w (w1\<lparr>commands := commands w1 @ [argv]\<rparr>)"
    if "Hostfs.syscall (\<lambda>fs. (Ok (), fs)) env w = (r, w1)" for w w1 and r :: "unit outcome"
    using trans [OF obeysD [OF syscall that] logged [OF a]] .
  then show ?thesis by (auto simp: obeys_def spawn_def split: prod.splits)
qed

end

section \<open>Instances\<close>

definition same_commands :: "world \<Rightarrow> world \<Rightarrow> bool" where
  "same_commands w w' \<longleftrightarrow> commands w' = commands w \<and> clock w \<le> clock w'"

definition extends_commands :: "world \<Rightarrow> world \<Rightarrow> bool" where
  "extends_commands w w' \<longleftrightarrow> (\<exists>l. commands w' = commands w @ l) \<and> clock w \<le> clock w'"

text \<open>Only commands that satisfy \<open>P\<close> were run.\<close>

definition adds :: "(string list \<Rightarrow> bool) \<Rightarrow> world \<Rightarrow> world \<Rightarrow> bool" where
  "adds P w w' \<longleftrightarrow> (\<exists>l. commands w' = commands w @ l \<and> (\<forall>a\<in>set l. P a)) \<and> clock w \<le> clock w'"

interpretation same: world_relation env same_commands for env
  by unfold_locales (auto simp: same_commands_def)

interpretation ext: logging_relation env extends_commands "\<lambda>_. True" for env
  by unfold_locales (auto simp: extends_commands_def)

interpretation adds: logging_relation env "adds P" P for env P
proof unfold_locales
  fix u v w
  assume "adds P u v" "adds P v w"
  then obtain k l where "commands v = commands u @ k" "commands w = commands v @ l" "\<forall>a\<in>set k. P a" "\<forall>a\<in>set l. P a"
    "clock u \<le> clock w"
    by (auto simp: adds_def)
  then have "commands w = commands u @ (k @ l)" "\<forall>a\<in>set (k @ l). P a" by auto
  with \<open>clock u \<le> clock w\<close> show "adds P u w" unfolding adds_def by blast
qed (auto simp: adds_def)

lemma adds_mono: "adds P w w' \<Longrightarrow> (\<And>a. P a \<Longrightarrow> Q a) \<Longrightarrow> adds Q w w'"
  by (auto simp: adds_def)

end
