(* ===== verification/Guest_Trace.thy ===== *)
theory Guest_Trace
  imports Guest_Protocol Trace
begin

text \<open>
  What a run of the shutdown sequence leaves in the log of commands and on the clock. The
  locale \<open>world_relation\<close> is a relation on worlds that system calls respect, \<open>logging_relation\<close>
  one that running a program respects as well; they are instantiated by "no command was run"
  and "commands were only added". From these a successful shutdown is shown to have asked
  systemctl to stop Docker and to have seen both units inactive.
\<close>


section \<open>The shutdown sequence respects the relations\<close>

context world_relation begin

lemma create_temporary: "obeys env R (create_temporary d n left)"
proof (induction left arbitrary: n)
  case (Suc left)
  have "obeys env R (bind (create_new p) (\<lambda>created. if created then return p else create_temporary d (n + 1) left))"
    for p
    by (intro basic choice Suc)
  then show ?case by (auto simp: obeys_def Let_def)
qed (simp add: pure)

lemma write_temporary: "obeys env R (write_temporary p b m)"
  unfolding write_temporary_def fill_temporary_def by (intro basic choice create_temporary)

lemma read_file: "obeys env R (read_file p)"
  unfolding read_file_def by (auto intro!: basic choice split: prod.split)

lemma replace_file: "obeys env R (replace_file p b m e)"
  unfolding replace_file_def sync_directory_def
  by (auto intro!: basic write_temporary read_file split: prod.split)

lemma save_backup: "obeys env R (save_backup p b m)"
  unfolding save_backup_def sync_directory_def by (intro basic write_temporary)

lemma restore_file: "obeys env R (restore_file p b m t)"
  unfolding restore_file_def by (auto intro!: basic read_file replace_file split: prod.split)

lemma live_restore: "obeys env R live_restore"
  unfolding live_restore_def by (intro basic)

lemma wait_child: "obeys env R (wait_child argv deadline)"
proof -
  have "R w w'" if "env' = env" "wait_child argv deadline env' w = (r, w')" for env' w r w'
    using that
  proof (induction argv deadline env' w rule: wait_child.induct)
    case (1 argv deadline env' w)
    note env = 1(2)
    obtain c w1 where poll: "try_wait argv env w = (c, w1)" by fastforce
    note R1 = obeysD [OF asks(1) poll]
    show ?case
    proof (cases "c = Done Running \<and> now w1 < deadline")
      case True
      obtain s w2 where nap: "sleep 25 env w1 = (s, w2)" by fastforce
      have "R w2 w'" using 1(1,3) env poll nap True by (auto simp: wait_child.simps [of argv deadline env w])
      with R1 obeysD [OF sleep nap] show ?thesis by (blast intro: trans)
    next
      case False
      with 1(3) env poll R1 show ?thesis
        by (auto simp: wait_child.simps [of argv deadline env w] split: outcome.splits child.splits if_splits)
    qed
  qed
  then show ?thesis by (simp add: obeys_def)
qed

lemma await_reload: "obeys env R (await_reload expected deadline)"
proof -
  have "R w w'" if "env' = env" "await_reload expected deadline env' w = (r, w')" for env' w r w'
    using that
  proof (induction expected deadline env' w rule: await_reload.induct)
    case (1 expected deadline env' w)
    note env = 1(2)
    obtain c w1 where poll: "Hostfs.attempt Guest_Shutdown.live_restore env w = (c, w1)" by fastforce
    note R1 = obeysD [OF attempt [OF live_restore] poll]
    show ?case
    proof (cases "\<exists>a. c = Done a \<and> a \<noteq> Ok expected \<and> now w1 < deadline")
      case True
      obtain s w2 where nap: "Hostfs.sleep 100 env w1 = (s, w2)" by fastforce
      have "R w2 w'" using 1(1,3) env poll nap True by (auto simp: await_reload.simps [of expected deadline env w])
      with R1 obeysD [OF sleep nap] show ?thesis by (blast intro: trans)
    next
      case False
      with 1(3) env poll R1 show ?thesis
        by (auto simp: await_reload.simps [of expected deadline env w] split: outcome.splits if_splits)
    qed
  qed
  then show ?thesis by (simp add: obeys_def)
qed

lemma docker_shims_remain: "obeys env R docker_shims_remain"
  unfolding docker_shims_remain_def by (intro basic)

lemma finish_success: "obeys env R (finish_restoration r (Ok ()))"
  unfolding finish_restoration_def sync_directory_def
  by (auto intro!: basic restore_file split: option.split)

end

text \<open>The programs the helper runs.\<close>

definition guest_program :: "string list \<Rightarrow> bool" where
  "guest_program argv \<longleftrightarrow> argv \<noteq> [] \<and> hd argv \<in> {''systemctl'', ''kill''}"

lemma guest_programs [simp]: "guest_program (''systemctl'' # a)" "guest_program (''kill'' # a)"
  by (simp_all add: guest_program_def)

locale guest_relation = logging_relation +
  assumes guest: "guest_program argv \<Longrightarrow> allowed argv"
begin

lemma run: "guest_program argv \<Longrightarrow> obeys env R (run argv timeout)"
  unfolding run_def by (intro bind spawn guest) (use wait_child in \<open>auto simp: obeys_def\<close>)

lemma service: "obeys env R (systemctl args timeout)" "obeys env R service_state"
  unfolding service_state_def systemctl_def by (intro basic choice run guest_programs)+

lemma reload_config: "obeys env R (reload_config e)"
  unfolding reload_config_def Let_def
  by (intro basic choice service run guest_programs) (use await_reload in \<open>auto simp: obeys_def\<close>)

lemma restore_runtime: "obeys env R (restore_runtime b)"
  unfolding restore_runtime_def Let_def by (intro basic choice service reload_config)

lemma recover_backup: "obeys env R (recover_backup c b)"
  unfolding recover_backup_def recover_from_def sync_directory_def
  by (auto intro!: basic choice restore_file restore_runtime read_file split: prod.split)

lemma prepare: "obeys env R prepare"
  unfolding prepare_def
  by (auto intro!: basic choice read_file live_restore save_backup replace_file split: prod.split)

lemma confirm: "obeys env R (confirm s r)"
  unfolding confirm_def
  by (auto intro!: basic choice reload_config restore_file service live_restore split: option.split)

lemma stop_docker: "obeys env R (stop_docker a)"
  unfolding stop_docker_def by (intro basic choice service docker_shims_remain)

lemma finish_restoration: "obeys env R (finish_restoration r q)"
  unfolding finish_restoration_def sync_directory_def
  by (auto intro!: basic choice restore_file restore_runtime reload_config service
      split: option.split prod.split result.split)

lemma shutdown: "obeys env R shutdown"
  unfolding shutdown_def shutdown_recovered_def Let_def
  by (auto intro!: basic recover_backup service prepare confirm stop_docker finish_restoration split: result.split)

end

interpretation guest_ext: guest_relation env extends_commands "\<lambda>_. True" for env
  by unfold_locales simp

interpretation guest_adds: guest_relation env "adds guest_program" guest_program for env
  by unfold_locales

section \<open>What a successful shutdown has observed\<close>

definition stop_command :: "string list" where
  "stop_command = [''systemctl'', ''stop'', ''docker.service'', ''docker.socket'']"

definition show_service :: "string list" where
  "show_service = [''systemctl'', ''show'', ''docker.service'', ''-p'', ''ActiveState'', ''-p'', ''MainPID'', ''-p'', ''Result'']"

definition show_socket :: "string list" where
  "show_socket = [''systemctl'', ''show'', ''docker.socket'', ''-p'', ''ActiveState'', ''--value'']"

text \<open>Between two worlds, the program ended successfully with an output that satisfies \<open>P\<close>.\<close>

definition answered :: "environment \<Rightarrow> world \<Rightarrow> world \<Rightarrow> string list \<Rightarrow> (string \<Rightarrow> bool) \<Rightarrow> bool" where
  "answered env w w' argv P \<longleftrightarrow>
     (\<exists>t out. clock w \<le> t \<and> t < clock w' \<and> child env t argv = Exited True out \<and> P out)"

lemma answered_weaken:
  assumes "answered env v v' argv P" and "clock w \<le> clock v" "clock v' \<le> clock w'" "\<And>x. P x \<Longrightarrow> Q x"
  shows "answered env w w' argv Q"
  using assms unfolding answered_def by (meson le_trans less_le_trans)

lemma wait_child_answered:
  "wait_child argv deadline env w = (Done out, w') \<Longrightarrow> answered env w w' argv (\<lambda>x. x = out)"
proof (induction argv deadline env w rule: wait_child.induct)
  case (1 argv deadline env w)
  obtain c w1 where poll: "try_wait argv env w = (c, w1)" by fastforce
  have tick: "c = Done a \<Longrightarrow> a = child env (clock w) argv \<and> clock w1 = clock w + 1" for a
    using poll by (auto simp: try_wait_def syscall_def Let_def split: verdict.splits prod.splits)
  show ?case
  proof (cases "c = Done Running \<and> now w1 < deadline")
    case True
    obtain s w2 where nap: "sleep 25 env w1 = (s, w2)" by fastforce
    have "answered env w2 w' argv (\<lambda>x. x = out)"
      using 1 poll nap True by (auto simp: wait_child.simps [of argv deadline env w])
    moreover have "clock w \<le> clock w2"
      using obeysD [OF same.asks(1) poll] obeysD [OF same.sleep nap] by (simp add: same_commands_def)
    ultimately show ?thesis by (rule answered_weaken) simp_all
  next
    case False
    with 1(2) poll have "c = Done (Exited True out)" "w' = w1"
      by (auto simp: wait_child.simps [of argv deadline env w] split: outcome.splits child.splits if_splits)
    with tick show ?thesis unfolding answered_def by (metis le_refl less_add_one)
  qed
qed

lemma run_answered:
  assumes "run argv timeout env w = (Done out, w')"
  shows "commands w' = commands w @ [argv] \<and> answered env w w' argv (\<lambda>x. x = out) \<and> clock w \<le> clock w'"
proof -
  from assms obtain w1 where sp: "spawn argv env w = (Done (), w1)"
    and wc: "wait_child argv (now w1 + timeout) env w1 = (Done out, w')"
    unfolding run_def by (auto elim!: bind_DoneE)
  have "commands w1 = commands w @ [argv]"
    using sp by (auto simp: spawn_def syscall_def Let_def split: verdict.splits prod.splits)
  moreover have "clock w \<le> clock w1" using obeysD [OF ext.spawn sp] by (simp add: extends_commands_def)
  moreover have "commands w' = commands w1" "clock w1 \<le> clock w'"
    using obeysD [OF same.wait_child wc] by (simp_all add: same_commands_def)
  ultimately show ?thesis
    using answered_weaken [OF wait_child_answered [OF wc], of w w'] by simp
qed

lemma systemctl_answered:
  "systemctl args timeout env w = (Done out, w') \<Longrightarrow>
     commands w' = commands w @ [''systemctl'' # args] \<and> answered env w w' (''systemctl'' # args) (\<lambda>x. x = out)
     \<and> clock w \<le> clock w'"
  unfolding systemctl_def
  by (auto elim!: bind_DoneE dest!: run_answered simp: return_def bail_def split: if_splits)

lemma service_state_answered:
  "service_state env w = (Done st, w') \<Longrightarrow>
     commands w' = commands w @ [show_service] \<and> answered env w w' show_service (\<lambda>x. parse_state x = st)
     \<and> clock w \<le> clock w'"
proof -
  assume "service_state env w = (Done st, w')"
  then obtain out where out: "systemctl (tl show_service) 5000 env w = (Done out, w')" "parse_state out = st"
    unfolding service_state_def show_service_def list.sel by (auto elim!: bind_DoneE simp: return_def)
  have "''systemctl'' # tl show_service = show_service" by (simp add: show_service_def)
  with systemctl_answered [OF out(1)] show ?thesis
    using out(2) by (auto elim: answered_weaken)
qed

lemma stop_docker_answered:
  assumes "stop_docker active env w = (Done u, w')"
  shows "commands w' = commands w @ [stop_command, show_service, show_socket]
    \<and> answered env w w' stop_command (\<lambda>_. True)
    \<and> answered env w w' show_service (\<lambda>x. map_of (parse_state x) ''ActiveState'' = Some ''inactive'')
    \<and> answered env w w' show_socket (\<lambda>x. trim x = ''inactive'')
    \<and> clock w \<le> clock w'"
proof -
  from assms obtain o1 w1 st w2 o3 w3 where stop: "systemctl (tl stop_command) 150000 env w = (Done o1, w1)"
    and service: "service_state env w1 = (Done st, w2)"
    and socket: "systemctl (tl show_socket) 5000 env w2 = (Done o3, w3)"
    and rest: "(if map_of st ''ActiveState'' \<noteq> Some ''inactive'' \<or> trim o3 \<noteq> ''inactive''
       then bail ''Docker service and socket did not both stop cleanly''
       else if active \<and> map_of st ''Result'' \<noteq> Some ''success''
       then bail ''Docker service shutdown failed''
       else bind docker_shims_remain (\<lambda>remain.
         if remain
         then bail ''Docker container processes remain without an active daemon; recover Docker before graceful VM shutdown''
         else return ())) env w3 = (Done u, w')"
    unfolding stop_docker_def stop_command_def show_socket_def list.sel by (elim bind_DoneE) blast
  from rest have state: "map_of st ''ActiveState'' = Some ''inactive''" "trim o3 = ''inactive''"
    by (auto simp: bail_def split: if_splits)
  obtain remain where "docker_shims_remain env w3 = (Done remain, w')"
    using rest by (auto simp: bail_def return_def elim!: bind_DoneE split: if_splits)
  then have last: "commands w' = commands w3" "clock w3 \<le> clock w'"
    using obeysD [OF same.docker_shims_remain] by (auto simp: same_commands_def)
  note a = systemctl_answered [OF stop] service_state_answered [OF service] systemctl_answered [OF socket]
  have heads: "''systemctl'' # tl stop_command = stop_command" "''systemctl'' # tl show_socket = show_socket"
    by (simp_all add: stop_command_def show_socket_def)
  have "answered env w w' stop_command (\<lambda>_. True)"
    using a(1) heads by (auto elim!: answered_weaken) (use a last in linarith)
  moreover have "answered env w w' show_service (\<lambda>x. map_of (parse_state x) ''ActiveState'' = Some ''inactive'')"
    using a(2) by (elim conjE answered_weaken) (use a last state in \<open>auto\<close>)
  moreover have "answered env w w' show_socket (\<lambda>x. trim x = ''inactive'')"
    using a(3) unfolding heads by (elim conjE answered_weaken) (use a last state in \<open>auto\<close>)
  ultimately show ?thesis using a last heads by auto
qed


lemma attempt_DoneD:
  "attempt c env w = (Done r, w') \<Longrightarrow> (\<exists>a. r = Ok a \<and> c env w = (Done a, w')) \<or> (\<exists>e. r = Err e)"
  by (auto simp: attempt_def split: prod.splits outcome.splits)

lemma finish_restoration_DoneD: "finish_restoration r result env w = (Done u, w') \<Longrightarrow> result = Ok ()"
  by (cases result; cases r)
    (auto simp: finish_restoration_def bail_def bind_assoc elim!: bind_DoneE split: prod.splits)

lemma stop_then_finish:
  assumes "bind (attempt (after c (stop_docker active))) (finish_restoration r) env w = (Done u, w')"
    and c: "obeys env extends_commands c"
  shows "\<exists>w1 w2. extends_commands w w1 \<and> stop_docker active env w1 = (Done (), w2) \<and> same_commands w2 w'"
proof -
  from assms(1) obtain q w2 where q: "attempt (after c (stop_docker active)) env w = (Done q, w2)"
    and fin: "finish_restoration r q env w2 = (Done u, w')"
    by (elim bind_DoneE)
  from fin have Ok: "q = Ok ()" by (rule finish_restoration_DoneD)
  with attempt_DoneD [OF q] obtain w1 where "c env w = (Done (), w1)" "stop_docker active env w1 = (Done (), w2)"
    by (auto elim!: bind_DoneE)
  with fin Ok show ?thesis
    using obeysD [OF c] obeysD [OF same.finish_success] by blast
qed

lemma shutdown_Done:
  assumes "shutdown env w = (Done u, w')"
  shows "\<exists>active w1 w2. extends_commands w w1 \<and> stop_docker active env w1 = (Done (), w2) \<and> same_commands w2 w'"
proof -
  from assms obtain w1 st w2 where recovered: "recover_backup CONFIG BACKUP env w = (Done (), w1)"
    and st: "service_state env w1 = (Done st, w2)"
    and rest: "(let active = (map_of st ''ActiveState'' = Some ''active'') in
      if \<not> active \<and> map_of st ''ActiveState'' \<notin> {Some ''inactive'', Some ''failed''}
      then bail ''Docker is busy; wait for its current operation and retry''
      else if active
      then bind (attempt prepare) (\<lambda>prepared.
        (case prepared of
           Err e \<Rightarrow> finish_restoration None (Err e)
         | Ok restoration \<Rightarrow>
             bind (attempt (after (confirm st restoration) (stop_docker True)))
               (finish_restoration restoration)))
      else bind (attempt (stop_docker False)) (finish_restoration None)) env w2 = (Done u, w')"
    unfolding shutdown_def shutdown_recovered_def by (auto elim!: bind_DoneE)
  have ext: "extends_commands w w2"
    using ext.trans [OF obeysD [OF guest_ext.recover_backup recovered] obeysD [OF guest_ext.service(2) st]] .
  show ?thesis
  proof (cases "map_of st ''ActiveState'' = Some ''active''")
    case True
    with rest obtain q w3 where q: "attempt prepare env w2 = (Done q, w3)"
      and after: "(case q of
           Err e \<Rightarrow> finish_restoration None (Err e)
         | Ok restoration \<Rightarrow>
             bind (attempt (after (confirm st restoration) (stop_docker True)))
               (finish_restoration restoration)) env w3 = (Done u, w')"
      by (auto elim!: bind_DoneE)
    then obtain r where "bind (attempt (after (confirm st r) (stop_docker True)))
               (finish_restoration r) env w3 = (Done u, w')"
      by (cases q) (auto dest!: finish_restoration_DoneD)
    from stop_then_finish [OF this guest_ext.confirm] ext.trans [OF ext obeysD [OF ext.attempt [OF guest_ext.prepare] q]]
    show ?thesis using ext.trans by blast
  next
    case False
    have "after (return ()) (stop_docker False) = stop_docker False" by simp
    with rest False have "bind (attempt (after (return ()) (stop_docker False))) (finish_restoration None) env w2
        = (Done u, w')"
      by (auto simp: bail_def Let_def split: if_splits)
    from stop_then_finish [OF this ext.pure(1)] show ?thesis using ext.trans [OF ext] by blast
  qed
qed

end
