(* ===== verification/Guest_Safety.thy ===== *)
theory Guest_Safety
  imports Guest_Trace
begin

text \<open>
  The safety of the guest shutdown helper: its file protocol is atomic, respects edits made by
  others and never loses the configuration, and a successful run has restored it and has
  stopped Docker. A concrete environment (\<open>calm\<close>) runs the sequence to its end.
\<close>

section \<open>A concrete environment\<close>

definition reply :: "string list \<Rightarrow> string" where
  "reply argv =
     (if argv = show_service then ''ActiveState=inactive'' @ [CHR 0x0A] @ ''MainPID=0''
      else if argv = show_socket then ''inactive'' @ [CHR 0x0A] else [])"

definition calm :: environment where
  "calm = \<lparr>verdict = \<lambda>_. Pass, others = \<lambda>_ fs. fs, torn = \<lambda>_. 0,
     child = \<lambda>_ argv. Exited True (reply argv), happenings = \<lambda>_ _ _. [], child_pid = \<lambda>_. 0,
     response = \<lambda>_. Err ''refused'', processes = \<lambda>_. Some [], slack = \<lambda>_. 0, process_id = 7, user_id = 0,
     listing = \<lambda>_ _. None, cancelled = \<lambda>_. False, lock_held = \<lambda>_. False, free_space = \<lambda>_. 0,
     canonical = Some, parallelism = 4, random_name = \<lambda>_. []\<rparr>"

definition owner :: metadata where
  "owner = \<lparr>uid = 0, gid = 0, mode = 420\<rparr>"

definition interrupted_world :: world where
  "interrupted_world = \<lparr>files = [''/etc/docker'' \<mapsto> Directory 493, CONFIG \<mapsto> Regular sample_disabled owner, BACKUP \<mapsto> Regular sample_config owner],
     clock = 0, now = 0, commands = []\<rparr>"

definition settled_world :: world where
  "settled_world = \<lparr>files = [''/etc/docker'' \<mapsto> Directory 493, CONFIG \<mapsto> Regular sample_config owner],
     clock = 0, now = 0, commands = []\<rparr>"

lemma calm_undisturbed: "undisturbed calm"
  by (simp add: undisturbed_def calm_def)

lemma interrupted_recoverable:
  "recoverable sample_config owner sample_disabled
     (files interrupted_world CONFIG) (files interrupted_world BACKUP)"
  by (simp add: invariant_defs interrupted_world_def)

lemma calm_syscall:
  "syscall f calm w = (case f (files w) of
       (Ok a, fs) \<Rightarrow> (Done a, w\<lparr>files := fs, clock := clock w + 1\<rparr>)
     | (Err e, fs) \<Rightarrow> (Failed e, w\<lparr>files := fs, clock := clock w + 1\<rparr>))"
  by (simp add: syscall_def calm_def Let_def)

lemma calm_run:
  "run argv timeout calm w = (Done (reply argv), w\<lparr>clock := clock w + 2, commands := commands w @ [argv]\<rparr>)"
  by (simp add: run_def bind_def spawn_def calm_syscall wait_child.simps [of argv] try_wait_def)
    (simp add: calm_def)

lemma calm_service_state:
  "service_state calm w = (Done [(''MainPID'', ''0''), (''ActiveState'', ''inactive'')],
     w\<lparr>clock := clock w + 2, commands := commands w @ [show_service]\<rparr>)"
proof -
  have "utf8_valid (reply show_service)" "parse_state (reply show_service) = [(''MainPID'', ''0''), (''ActiveState'', ''inactive'')]"
    by code_simp+
  then show ?thesis
    unfolding service_state_def systemctl_def bind_def calm_run show_service_def [symmetric]
    by (simp add: return_def)
qed

lemma calm_stop_docker:
  "stop_docker False calm w = (Done (),
     w\<lparr>clock := clock w + 7, commands := commands w @ [stop_command, show_service, show_socket]\<rparr>)"
proof -
  have "utf8_valid (reply show_socket)" "trim (reply show_socket) = ''inactive''" "utf8_valid (reply stop_command)"
    by code_simp+
  then show ?thesis
    unfolding stop_docker_def systemctl_def bind_def calm_run calm_service_state
      stop_command_def [symmetric] show_socket_def [symmetric]
    by (simp add: return_def docker_shims_remain_def list_processes_def bind_def calm_syscall)
      (simp add: calm_def)
qed

lemma settled_run:
  "shutdown calm settled_world = (Done (),
     settled_world\<lparr>clock := 11, commands := [show_service, stop_command, show_service, show_socket]\<rparr>)"
proof -
  have "recover_backup CONFIG BACKUP calm settled_world = (Done (), settled_world\<lparr>clock := 2\<rparr>)"
    by (simp add: recover_backup_def bind_def path_exists_def attempt_def calm_syscall symlink_metadata_def
        return_def settled_world_def resolves_def follow_def BACKUP_def CONFIG_def)
  then show ?thesis
    unfolding shutdown_def shutdown_recovered_def bind_def
    by (simp add: calm_service_state calm_stop_docker attempt_def finish_restoration_def settled_world_def return_def)
qed
section \<open>Properties\<close>

lemma holdsI_outcome:
  assumes "holds env P c Q E" "P (files w)" "c env w = (r, w')" "\<And>a fs. Q a fs \<Longrightarrow> X fs" "\<And>fs. E fs \<Longrightarrow> X fs"
  shows "X (files w')"
  using holdsD [OF assms(1-3)] assms(4,5) by (cases r) auto

text \<open>
  C1. The shutdown helper never loses Docker's configuration. Whatever system call fails and
  wherever the helper is killed, the configuration file is the original one, or it is the
  temporary one and the backup holds the original, contents and metadata; so a later run can
  always recover it.
\<close>

theorem shutdown_is_recoverable:
  assumes "undisturbed env" "mode m < 0x1000" "disabled_config original = Ok temporary"
    and "recoverable original m temporary (files w CONFIG) (files w BACKUP)"
    and "shutdown env w = (r, w')"
  shows "recoverable original m temporary (files w' CONFIG) (files w' BACKUP)"
proof -
  have "holds env (view (recoverable original m temporary)) shutdown
      (\<lambda>_. view (recoverable original m temporary)) (view (recoverable original m temporary))"
    unfolding shutdown_def
    by (rule holds_bind [OF holds_recover_backup [OF assms(1-3)]], rule holds_shutdown_from [OF assms(1-3)])
      (auto simp: invariant_defs)
  from holdsI_outcome [OF this _ assms(5)] assms(4) show ?thesis by (auto simp: view_def)
qed

theorem shutdown_is_recoverable_witness:
  "recoverable sample_config owner sample_disabled
     (files (snd (shutdown calm interrupted_world)) CONFIG) (files (snd (shutdown calm interrupted_world)) BACKUP)"
  by (rule shutdown_is_recoverable [OF calm_undisturbed _ sample_config_disabled interrupted_recoverable,
        of "fst (shutdown calm interrupted_world)"])
    (simp_all add: owner_def)



text \<open>
  C17. Replacing the configuration is atomic and respects external edits: whatever fails or
  is killed, the file is the node that was there or the complete new one, the backup is
  untouched, and a change happened only when the contents were the expected ones.
\<close>

theorem replace_file_is_atomic:
  assumes "undisturbed env" and "replace_file CONFIG bytes m expected env w = (r, w')"
  shows "files w' BACKUP = files w BACKUP \<and>
    (files w' CONFIG = files w CONFIG \<or>
     files w' CONFIG = Some (Regular bytes (published m)) \<and>
     (\<exists>m0. files w CONFIG = Some (Regular expected m0)))"
proof -
  let ?J = "\<lambda>c b. c = files w CONFIG \<and> b = files w BACKUP"
  let ?K = "\<lambda>c b. b = files w BACKUP \<and> c = Some (Regular bytes (published m))
    \<and> (\<exists>m0. files w CONFIG = Some (Regular expected m0))"
  have "holds env (view ?J) (replace_file CONFIG bytes m expected) (\<lambda>_. view ?K) (view (\<lambda>c b. ?J c b \<or> ?K c b))"
    by (rule holds_replace_file [OF assms(1)]) metis
  from holdsI_outcome [OF this _ assms(2), of "view (\<lambda>c b. ?J c b \<or> ?K c b)"] show ?thesis
    by (auto simp: view_def)
qed

theorem replace_file_is_atomic_witness:
  "files (snd (replace_file CONFIG sample_disabled owner sample_config calm settled_world)) BACKUP = None"
  using replace_file_is_atomic [OF calm_undisturbed surjective_pairing,
      of sample_disabled owner sample_config settled_world]
  by (simp add: settled_world_def CONFIG_def BACKUP_def)

text \<open>
  A backup is published once: when a file already stands at the backup's path, saving a
  backup fails and leaves both that file and the configuration as they were.
\<close>

theorem save_backup_never_overwrites:
  assumes "undisturbed env" and "files w BACKUP = Some n" and "save_backup BACKUP bytes m env w = (r, w')"
  shows "r \<noteq> Done () \<and> files w' BACKUP = Some n \<and> files w' CONFIG = files w CONFIG"
proof -
  let ?J = "\<lambda>c b. c = files w CONFIG \<and> b = Some n"
  have h: "holds env (view ?J) (save_backup BACKUP bytes m) (\<lambda>_. view (\<lambda>_ _. False)) (view (\<lambda>c b. ?J c b \<or> False))"
    by (rule holds_save_backup [OF assms(1)]) auto
  from holdsD [OF h _ assms(3)] assms(2) show ?thesis
    by (cases r) (auto simp: view_def)
qed

theorem save_backup_never_overwrites_witness:
  "files (snd (save_backup BACKUP sample_disabled owner calm interrupted_world)) BACKUP
    = Some (Regular sample_config owner)"
  using save_backup_never_overwrites [OF calm_undisturbed _ surjective_pairing,
      of interrupted_world "Regular sample_config owner"]
  by (simp add: interrupted_world_def)

text \<open>
  C16. Recovery preserves external edits: when the configuration is neither the backup's
  original nor the temporary one derived from it, recovery does not succeed in changing
  anything; the edited configuration and the backup both stay.
\<close>

theorem recovery_preserves_external_edit:
  assumes "undisturbed env" and "disabled_config original = Ok temporary"
    and "files w BACKUP = Some (Regular original m)" and "files w CONFIG = Some (Regular edited m')"
    and "edited \<noteq> original" and "edited \<noteq> temporary"
    and "recover_backup CONFIG BACKUP env w = (r, w')"
  shows "files w' CONFIG = files w CONFIG \<and> files w' BACKUP = files w BACKUP"
proof -
  let ?J = "\<lambda>c b. c = Some (Regular edited m') \<and> b = Some (Regular original m)"
  have message: "scan_message (disabled_config original) = Ok temporary" using assms(2) by simp
  have restore: "holds env (view ?J) (restore_file CONFIG original m temporary) (\<lambda>_ _. False) (view ?J)"
    unfolding restore_file_def
    by (rule holds_bind [OF holds_read_file [OF stable_view [OF assms(1)]]])
      (use assms(5,6) in \<open>auto simp: holds_def view_def bail_def\<close>)
  have from_backup: "holds env (view ?J) (recover_from CONFIG BACKUP) (\<lambda>_. view ?J) (view ?J)"
    unfolding recover_from_def
  proof (rule holds_bind [OF holds_read_file [OF stable_view [OF assms(1)]]])
    fix cm :: "string \<times> metadata"
    let ?k = "\<lambda>(original, m). bind (lift (scan_message (disabled_config original))) (\<lambda>temporary.
       after (restore_file CONFIG original m temporary) (after (restore_runtime original)
       (after (remove_file BACKUP) (sync_directory (parent_of BACKUP)))))"
    have "holds env (view ?J) (?k (original, m)) (\<lambda>_. view ?J) (view ?J)"
      unfolding prod.case message lift.simps bind_return
      by (rule holds_bind [OF restore]) (simp add: holds_def)
    then show "holds env ((\<lambda>(c, m) fs. view ?J fs \<and> fs BACKUP = Some (Regular c m)) cm) (?k cm)
        (\<lambda>_. view ?J) (view ?J)"
      by (cases "cm = (original, m)") (auto simp: holds_def view_def)
  qed
  have seen: "silent (if found then return True else bind (attempt (symlink_metadata BACKUP)) (\<lambda>r. return (is_ok r)))"
    for found
    by (intro io_rules)
  have "holds env (view ?J) (recover_backup CONFIG BACKUP) (\<lambda>_. view ?J) (view ?J)"
    unfolding recover_backup_def
    by (intro holds_bind [OF holds_silent [OF assms(1) silent_path_exists]]
        holds_bind [OF holds_silent [OF assms(1) seen]])
      (auto intro: from_backup holds_return)
  from holdsI_outcome [OF this _ assms(7), of "view ?J"] assms(3,4) show ?thesis by (auto simp: view_def)
qed

definition edited_world :: world where
  "edited_world = interrupted_world\<lparr>files := (files interrupted_world)(CONFIG \<mapsto> Regular ''{}'' owner)\<rparr>"

theorem recovery_preserves_external_edit_witness:
  "files (snd (recover_backup CONFIG BACKUP calm edited_world)) CONFIG = Some (Regular ''{}'' owner)"
proof -
  have "files edited_world BACKUP = Some (Regular sample_config owner)"
    "files edited_world CONFIG = Some (Regular ''{}'' owner)"
    "''{}'' \<noteq> sample_config" "''{}'' \<noteq> sample_disabled"
    by (simp_all add: edited_world_def interrupted_world_def sample_config_def sample_disabled_def)
  from recovery_preserves_external_edit [OF calm_undisturbed sample_config_disabled this surjective_pairing] this(2)
  show ?thesis by simp
qed

text \<open>
  C11. The virtual machine is powered off only after Docker stopped: when the shutdown
  succeeds, the last programs it ran are the stop of service and socket and the two status
  queries, all of them ended successfully, and systemd reported both units inactive.
\<close>

theorem successful_shutdown_stopped_docker:
  assumes "shutdown env w = (Done (), w')"
  shows "\<exists>earlier. commands w' = earlier @ [stop_command, show_service, show_socket]
    \<and> answered env w w' stop_command (\<lambda>_. True)
    \<and> answered env w w' show_service (\<lambda>x. map_of (parse_state x) ''ActiveState'' = Some ''inactive'')
    \<and> answered env w w' show_socket (\<lambda>x. trim x = ''inactive'')"
proof -
  from shutdown_Done [OF assms] obtain active w1 w2 where
    steps: "extends_commands w w1" "stop_docker active env w1 = (Done (), w2)" "same_commands w2 w'" by blast
  then have le: "clock w \<le> clock w1" "clock w2 \<le> clock w'" "commands w' = commands w2"
    by (auto simp: extends_commands_def same_commands_def)
  from stop_docker_answered [OF steps(2)] le show ?thesis
    by (intro exI [of _ "commands w1"]) (auto elim: answered_weaken)
qed

theorem successful_shutdown_stopped_docker_witness:
  "answered calm settled_world (settled_world\<lparr>clock := 11,
     commands := [show_service, stop_command, show_service, show_socket]\<rparr>) stop_command (\<lambda>_. True)"
  using successful_shutdown_stopped_docker [OF settled_run] by blast

end
