(* ===== verification/Cancel.thy ===== *)
theory Cancel
  imports Prelude
begin

text \<open>
  The cancellation latch (src/src/cancel.rs). tokio's watch channel is a cell with a version
  that every write advances; a subscriber remembers the version it has seen. A waiter looks
  at the cell and sleeps until the version moves, or returns when the channel is closed.
\<close>

record cancellation =
  state :: bool
  generation :: nat

definition cancellation_new :: cancellation where
  "cancellation_new = \<lparr>state = False, generation = 0\<rparr>"

definition cancel :: "cancellation \<Rightarrow> cancellation" where
  "cancel c = \<lparr>state = True, generation = generation c + 1\<rparr>"

definition is_cancelled :: "cancellation \<Rightarrow> bool" where
  "is_cancelled c \<longleftrightarrow> state c"

text \<open>A waiter: not subscribed, asleep with the version it has seen, or returned.\<close>

datatype waiter = Asleep nat | Returned

text \<open>One look of the waiter's loop: \<open>borrow_and_update\<close>, then \<open>changed\<close>.\<close>

definition look :: "cancellation \<Rightarrow> waiter" where
  "look c = (if state c then Returned else Asleep (generation c))"

fun wake :: "cancellation \<Rightarrow> waiter \<Rightarrow> waiter" where
  "wake c (Asleep seen) = (if generation c \<noteq> seen then look c else Asleep seen)"
| "wake c Returned = Returned"

text \<open>Cancellers and waiters run interleaved; the latch is shared by all clones.\<close>

inductive latch_step :: "cancellation \<times> waiter list \<Rightarrow> cancellation \<times> waiter list \<Rightarrow> bool" where
  Cancels: "latch_step (c, ws) (cancel c, ws)"
| Subscribes: "latch_step (c, ws) (c, ws @ [look c])"
| Wakes: "i < length ws \<Longrightarrow> latch_step (c, ws) (c, ws[i := wake c (ws ! i)])"

inductive_cases latch_stepE: "latch_step (c, ws) s"

inductive reachable_latch :: "cancellation \<times> waiter list \<Rightarrow> bool" where
  Init: "reachable_latch (cancellation_new, [])"
| Step: "reachable_latch s \<Longrightarrow> latch_step s s' \<Longrightarrow> reachable_latch s'"

text \<open>
  The latch invariant: nobody has returned before the cancellation, and a waiter that sleeps
  while it is set has not seen the version that set it.
\<close>

definition latch_ok :: "cancellation \<times> waiter list \<Rightarrow> bool" where
  "latch_ok s \<longleftrightarrow> (case s of (c, ws) \<Rightarrow>
     (\<not> state c \<longrightarrow> Returned \<notin> set ws) \<and>
     (\<forall>seen. Asleep seen \<in> set ws \<longrightarrow> seen \<le> generation c \<and> (state c \<longrightarrow> seen < generation c)))"

lemma latch_ok_step: "latch_step s s' \<Longrightarrow> latch_ok s \<Longrightarrow> latch_ok s'"
proof (induction rule: latch_step.induct)
  case (Cancels c ws)
  then show ?case by (fastforce simp: latch_ok_def cancel_def)
next
  case (Subscribes c ws)
  then show ?case by (auto simp: latch_ok_def look_def)
next
  case (Wakes i ws c)
  have w: "ws ! i \<in> set ws" using Wakes by simp
  have new: "\<not> state c \<Longrightarrow> wake c (ws ! i) \<noteq> Returned"
    "wake c (ws ! i) = Asleep seen \<Longrightarrow> seen \<le> generation c \<and> (state c \<longrightarrow> seen < generation c)" for seen
    using Wakes w by (cases "ws ! i"; auto simp: latch_ok_def look_def split: if_splits)+
  have "set (ws[i := wake c (ws ! i)]) \<subseteq> insert (wake c (ws ! i)) (set ws)"
    by (rule set_update_subset_insert)
  with new Wakes show ?case unfolding latch_ok_def by auto
qed

lemma reachable_latch_ok: "reachable_latch s \<Longrightarrow> latch_ok s"
proof (induction rule: reachable_latch.induct)
  case Init
  show ?case by (simp add: latch_ok_def cancellation_new_def)
qed (rule latch_ok_step)

lemma latch_step_keeps: "latch_step (c, ws) (c', ws') \<Longrightarrow> is_cancelled c \<Longrightarrow> is_cancelled c'"
  by (auto simp: is_cancelled_def cancel_def elim: latch_stepE)

text \<open>
  C33. The latch is permanent and wakes everybody: in every reachable state in which it is
  set, it stays set after any step, and each waiter, whether it subscribed before or after
  the cancellation, has returned or returns when it is polled next; while it is not set
  nobody has returned.
\<close>

theorem latch_wakes_all:
  assumes "reachable_latch (c, ws)"
  shows "(if is_cancelled c
          then (\<forall>c' ws'. latch_step (c, ws) (c', ws') \<longrightarrow> is_cancelled c') \<and> look c = Returned
            \<and> (\<forall>w\<in>set ws. wake c w = Returned)
          else Returned \<notin> set ws)"
proof -
  have "latch_ok (c, ws)" using assms by (rule reachable_latch_ok)
  moreover have "wake c w = Returned" if "state c" "w \<in> set ws" "latch_ok (c, ws)" for w
    using that by (cases w) (auto simp: latch_ok_def look_def)
  ultimately show ?thesis using latch_step_keeps by (auto simp: is_cancelled_def look_def latch_ok_def)
qed

theorem latch_wakes_all_witness:
  "wake (cancel cancellation_new) (look cancellation_new) = Returned"
proof -
  have "reachable_latch (cancel cancellation_new, [look cancellation_new])"
    by (rule reachable_latch.Step [OF reachable_latch.Step [OF reachable_latch.Init]])
      (use latch_step.Subscribes [of cancellation_new "[]"] latch_step.Cancels in auto)
  from latch_wakes_all [OF this] show ?thesis by (simp add: is_cancelled_def cancel_def)
qed

end
