(* ===== verification/Config.thy ===== *)
theory Config
  imports Hostfs Text "HOL-Library.Sublist"
begin

text \<open>
  The saved configuration and the state directory (src/src/config.rs): mount arguments, the
  schema and the checks of the mounts against the host, the state path, its ownership marker
  and the atomic write every saved file goes through. Numbers are the code's u16 and u32
  values as naturals; only comparisons are made of them.
\<close>

section \<open>Paths\<close>

definition is_absolute :: "string \<Rightarrow> bool" where
  "is_absolute path \<longleftrightarrow> starts_with path ''/''"

definition path_components :: "string \<Rightarrow> string list" where
  "path_components path = filter (\<lambda>c. c \<noteq> [] \<and> c \<noteq> ''.'') (split_on (CHR ''/'') path)"

text \<open>\<open>Path::starts_with\<close> and equality of paths compare components.\<close>

definition path_starts_with :: "string \<Rightarrow> string \<Rightarrow> bool" where
  "path_starts_with path base \<longleftrightarrow>
     is_absolute path = is_absolute base \<and> prefix (path_components base) (path_components path)"

definition path_eq :: "string \<Rightarrow> string \<Rightarrow> bool" where
  "path_eq p q \<longleftrightarrow> is_absolute p = is_absolute q \<and> path_components p = path_components q"

function ancestors :: "string \<Rightarrow> string list" where
  "ancestors path = path # (case parent path of None \<Rightarrow> [] | Some p \<Rightarrow> ancestors p)"
  by pat_completeness auto
termination
proof (relation "measure length")
  fix path p
  assume p: "parent path = Some p"
  let ?d = "rev (dropWhile (\<lambda>c. c \<noteq> CHR ''/'') (rev path))"
  have le: "length ?d \<le> length path" using length_dropWhile_le [of _ "rev path"] by simp
  show "(p, path) \<in> measure length"
  proof (cases "length ?d \<le> 1")
    case False
    with p le show ?thesis by (auto simp: parent_def Let_def split: if_splits)
  next
    case True
    with p have "p = ?d" "path \<noteq> []" "path \<noteq> ''/''" by (auto simp: parent_def Let_def split: if_splits)
    moreover have "?d = path \<Longrightarrow> path = ''/'' \<or> path = []"
    proof -
      assume eq: "?d = path"
      then have "length path \<le> 1" using True by simp
      then consider "path = []" | c where "path = [c]" by (cases path) (auto simp: le_Suc_eq)
      then show ?thesis using eq by cases (auto split: if_splits)
    qed
    moreover have "length ?d = length path \<Longrightarrow> ?d = path"
      using takeWhile_dropWhile_id [of "\<lambda>c. c \<noteq> CHR ''/''" "rev path"]
      by (metis append_eq_append_conv append_self_conv2 length_rev rev_rev_ident)
    ultimately show ?thesis using le by (cases "length ?d = length path") auto
  qed
qed simp

declare ancestors.simps [simp del]

text \<open>The part of a path below one of its ancestors.\<close>

definition strip_ancestor :: "string \<Rightarrow> string \<Rightarrow> string" where
  "strip_ancestor path ancestor =
     (if ancestor = ''/'' then drop 1 path else drop (length ancestor + 1) path)"

definition with_extension :: "string \<Rightarrow> string \<Rightarrow> string" where
  "with_extension path extension =
     (let name = file_name path;
          above = take (length path - length name) path;
          stem = rev (drop 1 (dropWhile (\<lambda>c. c \<noteq> CHR ''.'') (rev name)))
      in above @ (if stem = [] then name else stem) @ ''.'' @ extension)"

section \<open>The configuration\<close>

definition LIMA_VERSION :: string where
  "LIMA_VERSION = ''2.2.0''"

definition NAME :: string where
  "NAME = ''luhmen''"

definition OWNER :: string where
  "OWNER = ''luhmen-state-v1'' @ [CHR 0x0A]"

record mount =
  mount_path :: string
  writable :: bool

record config =
  schema_version :: nat
  cpus :: nat
  memory_gib :: nat
  disk_gib :: nat
  mounts :: "mount list"
  nested_virtualization :: bool

definition unsupported_text :: "string \<Rightarrow> bool" where
  "unsupported_text text \<longleftrightarrow>
     contains_any text [CHR 0x0A, CHR 0x0D, CHR 0x00] \<or> contains_str text ''{{''"

definition split_mount :: "string \<Rightarrow> string \<times> bool" where
  "split_mount value =
     (case strip_suffix value '':rw'' of
        Some p \<Rightarrow> (p, True)
      | None \<Rightarrow> (case strip_suffix value '':ro'' of Some p \<Rightarrow> p | None \<Rightarrow> value, False))"

definition parse_mount :: "string \<Rightarrow> mount io" where
  "parse_mount value =
     (let (p, w) = split_mount value in
      bind (canonicalize p) (\<lambda>p.
      bind (path_is_dir p) (\<lambda>directory.
      after (require directory ''mount must be a directory'')
      (after (require (utf8_valid p) ''mount path must be UTF-8'')
      (after (require (\<not> unsupported_text p) ''unsupported mount path'')
      (after (require (\<not> path_eq p ''/'') ''sharing the filesystem root is not supported'')
      (return \<lparr>mount_path = p, writable = w\<rparr>)))))))"

definition validate_schema :: "config \<Rightarrow> (unit, string) result" where
  "validate_schema c =
     and_then (ensure (schema_version c = 1) ''unsupported configuration schema'') (\<lambda>_.
     and_then (ensure (1 \<le> cpus c \<and> cpus c \<le> 64) ''cpus must be between 1 and 64'') (\<lambda>_.
     and_then (ensure (2 \<le> memory_gib c \<and> memory_gib c \<le> 256) ''memory must be between 2 and 256 GiB'') (\<lambda>_.
     and_then (ensure (10 \<le> disk_gib c \<and> disk_gib c \<le> 2048) ''disk must be between 10 and 2048 GiB'') (\<lambda>_.
     and_then (ensure (length (mounts c) \<le> 32) ''at most 32 mounts are supported'') (\<lambda>_.
     for_each (\<lambda>m. ensure (is_absolute (mount_path m)) ''mount path must be absolute'') (mounts c))))))"

definition disjoint_paths :: "string \<Rightarrow> string \<Rightarrow> bool" where
  "disjoint_paths p q \<longleftrightarrow> \<not> path_starts_with p q \<and> \<not> path_starts_with q p"

fun validate_mounts :: "string \<Rightarrow> mount list \<Rightarrow> mount list \<Rightarrow> unit io" where
  "validate_mounts state earlier [] = return ()"
| "validate_mounts state earlier (m # ms) =
     bind (path_is_dir (mount_path m)) (\<lambda>directory.
     after (require directory ''mount directory is missing or not absolute'')
     (bind (canonicalize (mount_path m)) (\<lambda>canonical_path.
     after (require (path_eq canonical_path (mount_path m)) ''mount path changed or contains a symlink; restore the original directory'')
     (after (require (disjoint_paths state (mount_path m)) ''mounts must not overlap luhmen's state directory'')
     (after (require (utf8_valid (mount_path m)) ''mount path must be UTF-8'')
     (after (require (\<not> unsupported_text (mount_path m)) ''unsupported mount path'')
     (after (lift (for_each (\<lambda>other. ensure (disjoint_paths (mount_path m) (mount_path other))
         ''mount directories must not overlap'') earlier))
     (validate_mounts state (earlier @ [m]) ms))))))))"

fun first_existing :: "string list \<Rightarrow> string io" where
  "first_existing [] = bail ''path has no existing ancestor''"
| "first_existing (p # ps) = bind (path_exists p) (\<lambda>found. if found then return p else first_existing ps)"

definition canonical_destination :: "string \<Rightarrow> string io" where
  "canonical_destination p =
     bind (first_existing (ancestors p)) (\<lambda>ancestor.
     bind (canonicalize ancestor) (\<lambda>real. return (path_join real (strip_ancestor p ancestor))))"

definition validate_config :: "config \<Rightarrow> string \<Rightarrow> unit io" where
  "validate_config c state =
     after (lift (validate_schema c))
     (bind (canonical_destination state) (\<lambda>state. validate_mounts state [] (mounts c)))"

section \<open>The state directory\<close>

definition socket_path :: "string \<Rightarrow> string" where
  "socket_path state = path_join state ''lima/luhmen/sock/docker.sock''"

text \<open>The arguments are the values of LUHMEN_HOME and HOME.\<close>

definition state_path :: "string option \<Rightarrow> string option \<Rightarrow> string io" where
  "state_path luhmen_home home =
     bind (lift (case luhmen_home of
         Some p \<Rightarrow> Ok p
       | None \<Rightarrow> map_ok (\<lambda>h. path_join h ''.local/share/luhmen'') (ok_or home ''HOME is not set''))) (\<lambda>p.
     after (require (is_absolute p) ''LUHMEN_HOME must be absolute'')
     (after (require (''..'' \<notin> set (path_components p)) (''state path cannot contain '' @ [CHR 0x27] @ ''..'' @ [CHR 0x27]))
     (after (require (utf8_valid p) ''state path must be UTF-8'')
     (bind (attempt (lstat p)) (\<lambda>meta.
     after (require (\<not> (case meta of Ok n \<Rightarrow> is_link n | Err _ \<Rightarrow> False)) ''state directory cannot be a symlink'')
     (bind (canonical_destination p) (\<lambda>p.
     after (require (length (socket_path p) < 104)
       ''state path is too long for a Unix socket; set a shorter LUHMEN_HOME'')
     (return p))))))))"

definition write_and_publish :: "string \<Rightarrow> string \<Rightarrow> string \<Rightarrow> unit io" where
  "write_and_publish temporary path bytes =
     bind (create_new temporary) (\<lambda>created.
     after (require created ''file exists'')
     (after (write_all temporary bytes)
     (after (sync_path temporary)
     (after (rename temporary path)
     (bind (lift (ok_or (parent path) ''file has no parent'')) sync_path)))))"

definition atomic_write :: "string \<Rightarrow> string \<Rightarrow> unit io" where
  "atomic_write path bytes = (\<lambda>env.
     (let temporary = with_extension path (''tmp-'' @ decimal (process_id env)) in
      bind (attempt (write_and_publish temporary path bytes)) (\<lambda>result.
      after (if is_ok result then return () else ignoring (remove_file temporary))
      (lift result))) env)"

definition publish_owner :: "string \<Rightarrow> unit io" where
  "publish_owner path =
     after (set_directory_mode path 448) (atomic_write (path_join path ''owner'') OWNER)"

text \<open>The permission bits of group and others are the low six.\<close>

definition ensure_owned :: "string \<Rightarrow> bool \<Rightarrow> unit io" where
  "ensure_owned path create =
     bind (attempt (lstat path)) (\<lambda>meta.
       case meta of
         Ok (Some node) \<Rightarrow>
           after (require (is_directory (Some node)) ''state path must be a real directory'')
           (bind (path_exists (path_join path ''owner'')) (\<lambda>marked.
             if marked then
               bind (read_contents (path_join path ''owner'')) (\<lambda>text.
               after (require (text = OWNER) ''state ownership marker does not match'')
               (require (directory_mode node mod 64 = 0) ''state directory must have mode 0700''))
             else if \<not> create then bail ''refusing an unowned state directory''
             else bind (directory_entries path) (\<lambda>entries.
               after (require (entries = Some []) ''refusing an unowned state directory'')
               (publish_owner path))))
       | _ \<Rightarrow>
           if \<not> create then bail ''luhmen has not been created; run `luhmen create`''
           else after (create_dir_all (ancestors path) path) (publish_owner path))"

section \<open>Atomic writes\<close>

lemma holds_write_and_publish:
  assumes S: "leaves env (insert tmp S)" "tmp \<notin> S" "watches S J" "watches S K"
    and publish: "\<And>fs. J fs \<Longrightarrow> K (fs(target \<mapsto> Regular bytes (private_file env)))"
  shows "holds env J (write_and_publish tmp target bytes) (\<lambda>_. K) (\<lambda>fs. J fs \<or> K fs)"
proof -
  let ?m = "private_file env"
  have stab: "stable env (\<lambda>fs. J fs \<and> N (fs tmp))" for N
    using S(1,3) by (intro watches_stable [where S = "insert tmp S"] watches_conj watches_point)
      (auto intro: watches_mono)
  have J: "stable env J" and K: "stable env K"
    using S by (auto intro!: watches_stable [where S = S] intro: leaves_mono)
  have upd: "J (fs(tmp := n)) = J fs" for fs n
    using S(2,3) by (intro watches_update)
  have create: "holds env J (create_new tmp)
      (\<lambda>created fs. J fs \<and> (created \<longrightarrow> fs tmp = Some (Regular [] ?m))) J"
    unfolding create_new_def
    by (rule holds_env [where c = "\<lambda>e. syscall (\<lambda>fs. if fs tmp \<noteq> None then (Ok False, fs)
        else (Ok True, fs(tmp \<mapsto> Regular [] (private_file e))))"], rule holds_syscall [OF J])
      (auto simp: upd split: if_splits)
  have put: "holds env (\<lambda>fs. J fs \<and> (\<exists>c. fs tmp = Some (Regular c ?m))) (write_all tmp bytes)
      (\<lambda>_ fs. J fs \<and> fs tmp = Some (Regular bytes ?m)) J"
    by (rule holds_write_to [OF stab upd])
  have sync: "holds env (\<lambda>fs. J fs \<and> fs tmp = Some (Regular bytes ?m)) (sync_path tmp)
      (\<lambda>_ fs. J fs \<and> fs tmp = Some (Regular bytes ?m)) (\<lambda>fs. J fs \<and> fs tmp = Some (Regular bytes ?m))"
    by (rule silentD [OF silent_calls(2) stab])
  have rename: "holds env (\<lambda>fs. J fs \<and> fs tmp = Some (Regular bytes ?m)) (rename tmp target) (\<lambda>_. K) J"
    unfolding rename_def
    by (rule holds_syscall [OF stab]) (auto simp: upd intro!: publish)
  have close: "holds env K (bind (lift (ok_or (parent target) ''file has no parent'')) sync_path) (\<lambda>_. K) K"
    by (rule silentD [OF _ K]) (intro io_rules)
  have "holds env (\<lambda>fs. J fs \<and> (created \<longrightarrow> fs tmp = Some (Regular [] ?m)))
      (after (require created ''file exists'')
       (after (write_all tmp bytes) (after (sync_path tmp) (after (rename tmp target)
        (bind (lift (ok_or (parent target) ''file has no parent'')) sync_path))))) (\<lambda>_. K) (\<lambda>fs. J fs \<or> K fs)"
    for created
  proof (cases created)
    case True
    have "holds env (\<lambda>fs. J fs \<and> (\<exists>c. fs tmp = Some (Regular c ?m)))
       (after (write_all tmp bytes) (after (sync_path tmp) (after (rename tmp target)
        (bind (lift (ok_or (parent target) ''file has no parent'')) sync_path)))) (\<lambda>_. K) (\<lambda>fs. J fs \<or> K fs)"
      by (rule holds_bind_err [OF put _ holds_bind_err [OF sync _ holds_bind_err [OF rename _ holds_or_err [OF close]]]])
        auto
    then show ?thesis using True by (auto elim!: holds_weaken)
  qed (auto intro: holds_bail)
  then show ?thesis
    unfolding write_and_publish_def by (intro holds_bind_err [OF create]) auto
qed

lemma holds_remove_watched:
  assumes "leaves env (insert tmp S)" "tmp \<notin> S" "watches S J"
  shows "holds env J (ignoring (remove_file tmp)) (\<lambda>_. J) J"
proof (rule holds_ignoring)
  have "stable env J" using assms by (auto intro!: watches_stable [where S = S] intro: leaves_mono)
  moreover have "J (fs(tmp := None)) = J fs" for fs using assms(2,3) by (intro watches_update)
  ultimately show "holds env J (remove_file tmp) (\<lambda>_. J) J"
    unfolding remove_file_def by (intro holds_syscall) (auto split: if_splits)
qed

definition temporary_of :: "environment \<Rightarrow> string \<Rightarrow> string" where
  "temporary_of env target = with_extension target (''tmp-'' @ decimal (process_id env))"

text \<open>
  The contract of the atomic write: from a state that satisfies \<open>J\<close> it either leaves \<open>J\<close> or
  publishes the complete file, and when it returns it has published.
\<close>

lemma holds_atomic_write:
  assumes S: "leaves env (insert (temporary_of env target) S)" "temporary_of env target \<notin> S"
    "watches S J" "watches S K"
    and publish: "\<And>fs. J fs \<Longrightarrow> K (fs(target \<mapsto> Regular bytes (private_file env)))"
  shows "holds env J (atomic_write target bytes) (\<lambda>_. K) (\<lambda>fs. J fs \<or> K fs)"
proof -
  let ?tmp = "temporary_of env target"
  let ?G = "\<lambda>result :: (unit, string) result. if is_ok result then K else (\<lambda>fs. J fs \<or> K fs)"
  have watches: "watches S (?G result)" for result
    using S(3,4) by (auto simp: watches_def)
  have "holds env J (attempt (write_and_publish ?tmp target bytes)) ?G (\<lambda>fs. J fs \<or> K fs)"
    by (rule holds_attempt, rule holds_weaken [OF holds_write_and_publish [OF S publish]]) simp_all
  moreover have "holds env (?G result) (after (if is_ok result then return () else ignoring (remove_file ?tmp))
      (lift result)) (\<lambda>_. K) (\<lambda>fs. J fs \<or> K fs)" for result
  proof (cases result)
    case (Err e)
    have "holds env (\<lambda>fs. J fs \<or> K fs) (ignoring (remove_file ?tmp)) (\<lambda>_ fs. J fs \<or> K fs) (\<lambda>fs. J fs \<or> K fs)"
      using watches [of "Err e"] by (intro holds_remove_watched [OF S(1,2)]) simp
    then show ?thesis unfolding Err by (auto intro: holds_bind holds_bail)
  qed (auto intro!: holds_return)
  ultimately have "holds env J (bind (attempt (write_and_publish ?tmp target bytes)) (\<lambda>result.
      after (if is_ok result then return () else ignoring (remove_file ?tmp)) (lift result)))
      (\<lambda>_. K) (\<lambda>fs. J fs \<or> K fs)"
    by (rule holds_bind)
  then show ?thesis
    by (simp add: holds_def atomic_write_def temporary_of_def Let_def cong: if_cong)
qed

section \<open>Validated mounts\<close>

definition supported_mount :: "string \<Rightarrow> mount \<Rightarrow> bool" where
  "supported_mount state m \<longleftrightarrow>
     disjoint_paths state (mount_path m) \<and> utf8_valid (mount_path m) \<and> \<not> unsupported_text (mount_path m)"

definition separate :: "mount \<Rightarrow> mount \<Rightarrow> bool" where
  "separate a b \<longleftrightarrow> disjoint_paths (mount_path a) (mount_path b)"

lemma disjoint_paths_sym: "disjoint_paths p q \<Longrightarrow> disjoint_paths q p"
  by (simp add: disjoint_paths_def)

lemma validate_mounts_Done:
  assumes "validate_mounts state earlier ms env w = (Done u, w')"
  shows "(\<forall>m\<in>set ms. supported_mount state m \<and> (\<forall>o'\<in>set earlier. separate m o')) \<and> sorted_wrt separate ms"
  using assms
proof (induction state earlier ms arbitrary: w rule: validate_mounts.induct)
  case (2 state earlier m ms)
  from "2.prems" obtain w1 where
    checks: "disjoint_paths state (mount_path m)" "utf8_valid (mount_path m)" "\<not> unsupported_text (mount_path m)"
      "for_each (\<lambda>other. ensure (disjoint_paths (mount_path m) (mount_path other)) ''mount directories must not overlap'') earlier = Ok ()"
    and rest: "validate_mounts state (earlier @ [m]) ms env w1 = (Done u, w')"
    unfolding validate_mounts.simps by (elim bind_DoneE after_require_DoneE after_lift_DoneE) blast
  from "2.IH" [OF rest] checks show ?case
    by (auto simp: supported_mount_def separate_def intro: disjoint_paths_sym)
qed simp

lemma validate_config_Done:
  assumes "validate_config c state env w = (Done u, w')"
  shows "validate_schema c = Ok () \<and> sorted_wrt separate (mounts c)
    \<and> (\<exists>real w1 w2. canonical_destination state env w1 = (Done real, w2)
         \<and> (\<forall>m\<in>set (mounts c). supported_mount real m))"
  using assms unfolding validate_config_def
  by (elim after_lift_DoneE bind_DoneE) (auto dest!: validate_mounts_Done)

lemma validate_schema_iff:
  "validate_schema c = Ok () \<longleftrightarrow>
     schema_version c = 1 \<and> cpus c \<in> {1..64} \<and> memory_gib c \<in> {2..256} \<and> disk_gib c \<in> {10..2048}
     \<and> length (mounts c) \<le> 32 \<and> (\<forall>m\<in>set (mounts c). is_absolute (mount_path m))"
  by (auto simp: validate_schema_def)

section \<open>The state path and its owner\<close>

lemma state_path_Done:
  assumes "state_path luhmen_home home env w = (Done p, w')"
  shows "length (socket_path p) < 104"
  using assms unfolding state_path_def
  by (elim bind_DoneE after_require_DoneE) (auto simp: return_def)

lemma silent_first_existing [io_rules]: "silent (first_existing ps)"
  by (induction ps) (auto intro!: io_rules)

lemma silent_canonical_destination [io_rules]: "silent (canonical_destination p)"
  unfolding canonical_destination_def by (intro io_rules silent_first_existing)

lemma silent_validate_mounts [io_rules]: "silent (validate_mounts state earlier ms)"
  by (induction state earlier ms rule: validate_mounts.induct) (simp_all, (intro io_rules; assumption?)+)

lemma silent_validate_config [io_rules]: "silent (validate_config c state)"
  unfolding validate_config_def by (intro io_rules silent_validate_mounts silent_canonical_destination)

lemma silent_ensure_owned [io_rules]: "silent (ensure_owned p False)"
  unfolding ensure_owned_def
  by (auto intro!: io_rules split: result.split option.split)

lemma holds_ensure_owned_foreign:
  assumes env: "leaves env {p, path_join p ''owner''}" and faultless: "\<And>t. verdict env t \<noteq> Fail"
    and foreign: "\<And>t. listing env t p \<noteq> Some []"
  shows "holds env (\<lambda>fs. fs p = Some (Directory m) \<and> fs (path_join p ''owner'') = None)
    (ensure_owned p create) (\<lambda>_ _. False) (\<lambda>fs. fs p = Some (Directory m) \<and> fs (path_join p ''owner'') = None)"
proof -
  let ?P = "\<lambda>fs. fs p = Some (Directory m) \<and> fs (path_join p ''owner'') = None"
  have "watches {p, path_join p ''owner''} ?P" by (intro watches_conj watches_point) simp_all
  then have stab: "stable env ?P" using env by (rule watches_stable)
  have meta: "holds env ?P (attempt (lstat p)) (\<lambda>meta fs. ?P fs \<and> meta = Ok (Some (Directory m))) ?P"
    unfolding lstat_def by (rule holds_syscall_faultless [OF faultless stab]) auto
  have unmarked: "holds env ?P (path_exists (path_join p ''owner'')) (\<lambda>marked fs. ?P fs \<and> \<not> marked) ?P"
    unfolding path_exists_def
    by (rule holds_bind [OF holds_syscall_faultless
          [where Q = "\<lambda>r fs. ?P fs \<and> r \<noteq> Ok True", OF faultless stab]])
      (auto simp: resolves_def follow_def intro: holds_return)
  have entries: "holds env ?P (directory_entries p) (\<lambda>e fs. ?P fs \<and> e \<noteq> Some []) ?P"
  proof -
    have "?P (others env t fs)" if "?P fs" for t fs using stab that by (simp add: stable_def)
    then show ?thesis
      using foreign
      by (auto simp: holds_def directory_entries_def syscall_def Let_def split: verdict.splits)
  qed
  have tail: "holds env (\<lambda>fs. ?P fs \<and> \<not> marked)
      (if marked then
         bind (read_contents (path_join p ''owner'')) (\<lambda>text.
         after (require (text = OWNER) ''state ownership marker does not match'')
         (require (directory_mode (Directory m) mod 64 = 0) ''state directory must have mode 0700''))
       else if \<not> create then bail ''refusing an unowned state directory''
       else bind (directory_entries p) (\<lambda>entries.
         after (require (entries = Some []) ''refusing an unowned state directory'') (publish_owner p)))
      (\<lambda>_ _. False) ?P" for marked
  proof (rule holds_pure_pre [where C = "\<not> marked"])
    assume unmarked: "\<not> marked"
    have "holds env ?P (bind (directory_entries p) (\<lambda>entries.
         after (require (entries = Some []) ''refusing an unowned state directory'') (publish_owner p)))
      (\<lambda>_ _. False) ?P"
    proof (rule holds_bind [OF entries])
      show "holds env (\<lambda>fs. ?P fs \<and> e \<noteq> Some [])
          (after (require (e = Some []) ''refusing an unowned state directory'') (publish_owner p)) (\<lambda>_ _. False) ?P"
        for e
        by (rule holds_pure_pre [where C = "e \<noteq> Some []"]) (auto intro: holds_bail)
    qed
    with unmarked show ?thesis by (auto intro: holds_bail)
  qed simp
  show ?thesis
    unfolding ensure_owned_def
  proof (rule holds_bind [OF meta])
    fix meta
    let ?k = "\<lambda>meta. case meta of
         Ok (Some node) \<Rightarrow>
           after (require (is_directory (Some node)) ''state path must be a real directory'')
           (bind (path_exists (path_join p ''owner'')) (\<lambda>marked.
             if marked then
               bind (read_contents (path_join p ''owner'')) (\<lambda>text.
               after (require (text = OWNER) ''state ownership marker does not match'')
               (require (directory_mode node mod 64 = 0) ''state directory must have mode 0700''))
             else if \<not> create then bail ''refusing an unowned state directory''
             else bind (directory_entries p) (\<lambda>entries.
               after (require (entries = Some []) ''refusing an unowned state directory'')
               (publish_owner p))))
       | _ \<Rightarrow>
           if \<not> create then bail ''luhmen has not been created; run `luhmen create`''
           else after (create_dir_all (ancestors p) p) (publish_owner p)"
    have is_directory: "is_directory (Some (Directory m)) = True" by (simp add: is_directory_def)
    have "holds env ?P (?k (Ok (Some (Directory m)))) (\<lambda>_ _. False) ?P"
      unfolding result.case option.case is_directory
      by (simp only: require_simps bind_return) (rule holds_bind [OF unmarked tail])
    then show "holds env (\<lambda>fs. ?P fs \<and> meta = Ok (Some (Directory m))) (?k meta) (\<lambda>_ _. False) ?P"
      by (cases "meta = Ok (Some (Directory m))") (simp_all add: holds_def)
  qed
qed

section \<open>Properties\<close>

text \<open>
  C21. Every saved file is written atomically: whatever fails or is killed, the file is the
  node that was there or the complete new one, and a write that returns has replaced it.
\<close>

theorem atomic_write_is_atomic:
  assumes "leaves env {target, temporary_of env target}" and "temporary_of env target \<noteq> target"
    and "atomic_write target bytes env w = (r, w')"
  shows "files w' target \<in> {files w target, Some (Regular bytes (private_file env))}
    \<and> (r = Done () \<longrightarrow> files w' target = Some (Regular bytes (private_file env)))"
proof -
  let ?J = "\<lambda>fs. fs target = files w target" and ?K = "\<lambda>fs. fs target = Some (Regular bytes (private_file env))"
  have "holds env ?J (atomic_write target bytes) (\<lambda>_. ?K) (\<lambda>fs. ?J fs \<or> ?K fs)"
    using assms(1,2)
    by (intro holds_atomic_write [where S = "{target}"] watches_point) (auto intro: leaves_mono)
  from holdsD [OF this _ assms(3)] show ?thesis by (cases r) auto
qed

theorem atomic_write_is_atomic_witness:
  "files (snd (atomic_write ''/s/owner'' OWNER quiet empty_world)) ''/s/owner''
     \<in> {None, Some (Regular OWNER (private_file quiet))}"
proof -
  have "temporary_of quiet ''/s/owner'' \<noteq> ''/s/owner''" by code_simp
  from atomic_write_is_atomic [OF quiet_leaves this surjective_pairing, of OWNER empty_world] show ?thesis
    by (simp add: empty_world_def)
qed

text \<open>
  C22. A configuration that passes validation shares only separate directories: no mount lies
  in or above another, none lies in or above the resolved state directory, and every mount
  path is text the template can carry.
\<close>

theorem validated_mounts_are_separate:
  assumes "validate_config c state env w = (Done u, w')"
  shows "validate_schema c = Ok () \<and> sorted_wrt separate (mounts c)
    \<and> (\<exists>real w1 w2. canonical_destination state env w1 = (Done real, w2)
         \<and> (\<forall>m\<in>set (mounts c). supported_mount real m))"
  using assms by (rule validate_config_Done)

definition sample_saved :: config where
  "sample_saved = \<lparr>schema_version = 1, cpus = 4, memory_gib = 4, disk_gib = 30,
     mounts = [\<lparr>mount_path = ''/a'', writable = True\<rparr>, \<lparr>mount_path = ''/b'', writable = False\<rparr>],
     nested_virtualization = False\<rparr>"

definition sample_host :: world where
  "sample_host = \<lparr>files = [''/s'' \<mapsto> Directory 448, ''/a'' \<mapsto> Directory 493, ''/b'' \<mapsto> Directory 493],
     clock = 0, now = 0, commands = []\<rparr>"

lemma sample_validates: "fst (validate_config sample_saved ''/s'' quiet sample_host) = Done ()"
  by code_simp

theorem validated_mounts_are_separate_witness:
  "sorted_wrt separate (mounts sample_saved)"
  using validated_mounts_are_separate [of sample_saved "''/s''" quiet sample_host "()"
      "snd (validate_config sample_saved ''/s'' quiet sample_host)"] sample_validates
  by (metis prod.collapse)



text \<open>
  The state path leaves room for the Engine socket: the socket below an accepted path
  fits Darwin's 104-byte socket address with its terminator.
\<close>

theorem state_path_fits_socket:
  assumes "state_path luhmen_home home env w = (Done p, w')"
  shows "length (socket_path p) < 104"
  using assms by (rule state_path_Done)

lemma sample_state_path: "fst (state_path (Some ''/s'') None quiet sample_host) = Done ''/s/''"
  by code_simp

theorem state_path_fits_socket_witness: "length (socket_path ''/s/'') < 104"
  using state_path_fits_socket [of "Some ''/s''" None quiet sample_host "''/s/''"
      "snd (state_path (Some ''/s'') None quiet sample_host)"] sample_state_path
  by (metis prod.collapse)

end
