(* ===== verification/Storage.thy ===== *)
theory Storage
  imports Config "HOL-Library.Word"
begin

text \<open>
  Read-only storage accounting (src/src/storage.rs). The file system is a view: what stat and
  readdir answer at each tick, so that it may change between any two calls, and the time at
  each tick. A walk counts its system calls and clock readings as ticks. Byte counts and
  counters are 64-bit words.
\<close>

section \<open>The file system a walk sees\<close>

datatype file_kind = Regular_File | Directory_File | Link_File | Other_File

record metadata =
  file_kind :: file_kind
  uid :: "32 word"
  gid :: "32 word"
  dev :: "64 word"
  ino :: "64 word"
  nlink :: "64 word"
  len :: "64 word"
  blocks :: "64 word"

datatype io_error = Not_Found | Other_Error string

record view =
  symlink_metadata :: "nat \<Rightarrow> string \<Rightarrow> (metadata, io_error) result"
  read_dir :: "nat \<Rightarrow> string \<Rightarrow> ((string, string) result list, string) result"
  free_space :: "nat \<Rightarrow> string \<Rightarrow> (64 word, io_error) result"
  nanos :: "nat \<Rightarrow> nat"

section \<open>Reports\<close>

record directory_usage =
  usage_path :: string
  usage_exists :: "bool option"
  root_uid :: "32 word option"
  root_gid :: "32 word option"
  complete :: bool
  file_logical_bytes :: "64 word"
  file_allocated_bytes :: "64 word"
  files_counted :: "64 word"
  entries_seen :: "64 word"
  hardlinks_skipped :: "64 word"
  symlinks_skipped :: "64 word"
  other_entries_skipped :: "64 word"
  entry_limit :: "64 word"
  time_limit_ms :: "64 word"
  usage_errors :: "string list"
  additional_errors :: "64 word"

record image_usage =
  image_path :: string
  image_exists :: "bool option"
  logical_bytes :: "64 word option"
  allocated_bytes :: "64 word option"
  hard_link_count :: "64 word option"
  image_error :: "string option"

record storage_summary =
  report_version :: nat
  host_available_bytes :: "64 word option"
  vm_directory :: directory_usage
  backing_images :: "image_usage list"
  shared_lima_cache :: "directory_usage option"
  report_errors :: "string list"

definition ENTRY_LIMIT :: "64 word" where
  "ENTRY_LIMIT = 10000"

definition TIME_LIMIT :: nat where
  "TIME_LIMIT = 2000000000"

definition DEPTH_LIMIT :: nat where
  "DEPTH_LIMIT = 64"

definition ERROR_LIMIT :: nat where
  "ERROR_LIMIT = 32"

section \<open>Checked arithmetic\<close>

definition checked_add :: "64 word \<Rightarrow> 64 word \<Rightarrow> 64 word option" where
  "checked_add a b = (if unat a + unat b < 2 ^ 64 then Some (a + b) else None)"

definition checked_mul :: "64 word \<Rightarrow> 64 word \<Rightarrow> 64 word option" where
  "checked_mul a b = (if unat a * unat b < 2 ^ 64 then Some (a * b) else None)"

section \<open>Metadata without links\<close>

fun io_message :: "io_error \<Rightarrow> string" where
  "io_message Not_Found = ''No such file or directory (os error 2)''"
| "io_message (Other_Error e) = e"

text \<open>
  The loop over the components: \<open>path\<close> is the part already checked, \<open>found\<close> its metadata
  and \<open>t\<close> the tick of the next call.
\<close>

fun check_components ::
    "view \<Rightarrow> nat \<Rightarrow> string \<Rightarrow> metadata option \<Rightarrow> string list \<Rightarrow> (metadata, io_error) result \<times> nat" where
  "check_components v t path found [] = (ok_or found (Other_Error ''empty storage path''), t)"
| "check_components v t path found (c # cs) =
     (if c = ''..'' then (Err (Other_Error (''storage path cannot contain '' @ [CHR 0x27] @ ''..'' @ [CHR 0x27])), t)
      else let p = path_join path c in
        case symlink_metadata v t p of
          Err e \<Rightarrow> (Err e, Suc t)
        | Ok m \<Rightarrow>
            if file_kind m = Link_File then (Err (Other_Error (''refusing symlink in storage path: '' @ p)), Suc t)
            else check_components v (Suc t) p (Some m) cs)"

definition checked_metadata :: "view \<Rightarrow> nat \<Rightarrow> string \<Rightarrow> (metadata, io_error) result \<times> nat" where
  "checked_metadata v t path =
     (if \<not> is_absolute path then (Err (Other_Error ''storage path must be absolute''), t)
      else check_components v t [] None (''/'' # path_components path))"

section \<open>The walk\<close>

record walk =
  usage :: directory_usage
  seen :: "(64 word \<times> 64 word) list"
  start_nanos :: nat
  time_limit :: nat
  stopped :: bool
  tick :: nat

definition note_error :: "string \<Rightarrow> string \<Rightarrow> walk \<Rightarrow> walk" where
  "note_error path message w =
     (let u = (usage w)\<lparr>complete := False\<rparr> in
      w\<lparr>usage := if length (usage_errors u) < ERROR_LIMIT
          then u\<lparr>usage_errors := usage_errors u @ [path @ '': '' @ message]\<rparr>
          else u\<lparr>additional_errors := additional_errors u + 1\<rparr>\<rparr>)"

text \<open>The clock is read only when the entry limit is not reached.\<close>

definition within_budget :: "view \<Rightarrow> string \<Rightarrow> walk \<Rightarrow> bool \<times> walk" where
  "within_budget v path w =
     (if stopped w then (False, w)
      else if entry_limit (usage w) \<le> entries_seen (usage w)
      then (False, note_error path ''entry limit reached; totals are partial'' w\<lparr>stopped := True\<rparr>)
      else if time_limit w \<le> nanos v (tick w) - start_nanos w
      then (False, note_error path ''scan time limit reached; totals are partial'' w\<lparr>stopped := True, tick := Suc (tick w)\<rparr>)
      else (True, w\<lparr>tick := Suc (tick w)\<rparr>))"

definition insert_seen :: "metadata \<Rightarrow> walk \<Rightarrow> walk" where
  "insert_seen m w = w\<lparr>seen := (dev m, ino m) # seen w\<rparr>"

definition already_seen :: "metadata \<Rightarrow> walk \<Rightarrow> bool" where
  "already_seen m w \<longleftrightarrow> (dev m, ino m) \<in> set (seen w)"

abbreviation on_usage :: "(directory_usage \<Rightarrow> directory_usage) \<Rightarrow> walk \<Rightarrow> walk" where
  "on_usage f w \<equiv> w\<lparr>usage := f (usage w)\<rparr>"

definition count_file :: "string \<Rightarrow> metadata \<Rightarrow> walk \<Rightarrow> walk" where
  "count_file path m w =
     (if already_seen m w then on_usage (\<lambda>u. u\<lparr>hardlinks_skipped := hardlinks_skipped u + 1\<rparr>) w
      else let w = insert_seen m w; u = usage w in
        case (checked_add (file_logical_bytes u) (len m),
              Option.bind (checked_mul (blocks m) 512) (checked_add (file_allocated_bytes u))) of
          (Some logical, Some allocated) \<Rightarrow>
            w\<lparr>usage := u\<lparr>file_logical_bytes := logical, file_allocated_bytes := allocated,
                files_counted := files_counted u + 1\<rparr>\<rparr>
        | _ \<Rightarrow> note_error path ''byte count exceeds u64; totals are partial'' w)"

text \<open>One entry of a directory; \<open>descend\<close> walks a directory one level deeper.\<close>

definition visit_entry ::
    "(string \<Rightarrow> walk \<Rightarrow> walk) \<Rightarrow> view \<Rightarrow> string \<Rightarrow> 64 word \<Rightarrow> (string, string) result \<Rightarrow> walk \<Rightarrow> walk" where
  "visit_entry descend v path device entry w0 =
     (let w = on_usage (\<lambda>u. u\<lparr>entries_seen := entries_seen u + 1\<rparr>) w0 in
      case entry of
        Err e \<Rightarrow> note_error path e w
      | Ok name \<Rightarrow>
          let entry_path = path_join path name; w' = w\<lparr>tick := Suc (tick w)\<rparr> in
          case symlink_metadata v (tick w) entry_path of
            Err e \<Rightarrow> note_error entry_path (io_message e) w'
          | Ok m \<Rightarrow>
              if file_kind m = Link_File then on_usage (\<lambda>u. u\<lparr>symlinks_skipped := symlinks_skipped u + 1\<rparr>) w'
              else if dev m \<noteq> device then note_error entry_path ''different filesystem skipped; totals are partial'' w'
              else if file_kind m = Directory_File then descend entry_path w'
              else if file_kind m = Regular_File then count_file entry_path m w'
              else on_usage (\<lambda>u. u\<lparr>other_entries_skipped := other_entries_skipped u + 1\<rparr>) w')"

fun visit_entries ::
    "(string \<Rightarrow> walk \<Rightarrow> walk) \<Rightarrow> view \<Rightarrow> string \<Rightarrow> 64 word \<Rightarrow> (string, string) result list \<Rightarrow> walk \<Rightarrow> walk" where
  "visit_entries descend v path device [] w = w"
| "visit_entries descend v path device (e # es) w =
     (case within_budget v path w of
        (False, w) \<Rightarrow> w
      | (True, w) \<Rightarrow> visit_entries descend v path device es (visit_entry descend v path device e w))"

text \<open>The metadata check and the readdir of one directory: its entries, if it is to be walked.\<close>

definition open_directory :: "view \<Rightarrow> 64 word \<Rightarrow> string \<Rightarrow> walk \<Rightarrow> (string, string) result list option \<times> walk" where
  "open_directory v device path w0 =
     (case checked_metadata v (tick w0) path of
        (Err e, t) \<Rightarrow> (None, note_error path (io_message e) w0\<lparr>tick := t\<rparr>)
      | (Ok m, t) \<Rightarrow>
          let w = w0\<lparr>tick := t\<rparr> in
          if \<not> (file_kind m = Directory_File \<and> dev m = device)
          then (None, note_error path ''directory changed or crosses a filesystem; totals are partial'' w)
          else if already_seen m w then (None, note_error path ''directory already visited; totals are partial'' w)
          else let w' = (insert_seen m w)\<lparr>tick := Suc t\<rparr> in
            case read_dir v t path of
              Err e \<Rightarrow> (None, note_error path e w')
            | Ok entries \<Rightarrow> (Some entries, w'))"

text \<open>
  The recursion of \<open>Walk::directory\<close>. The first argument is DEPTH\_LIMIT + 1 - depth, so that
  0 is a depth over the limit; the budget is asked before the depth.
\<close>

fun directory :: "nat \<Rightarrow> view \<Rightarrow> 64 word \<Rightarrow> string \<Rightarrow> walk \<Rightarrow> walk" where
  "directory 0 v device path w =
     (case within_budget v path w of
        (False, w) \<Rightarrow> w
      | (True, w) \<Rightarrow> note_error path ''directory depth limit reached; totals are partial'' w)"
| "directory (Suc room) v device path w =
     (case within_budget v path w of
        (False, w) \<Rightarrow> w
      | (True, w) \<Rightarrow>
          (case open_directory v device path w of
             (None, w) \<Rightarrow> w
           | (Some entries, w) \<Rightarrow> visit_entries (\<lambda>p. directory room v device p) v path device entries w))"

section \<open>Scans and reports\<close>

definition as_millis :: "nat \<Rightarrow> 64 word" where
  "as_millis time = (let ms = time div 1000000 in if ms < 2 ^ 64 then of_nat ms else - 1)"

definition fresh_usage :: "string \<Rightarrow> 64 word \<Rightarrow> nat \<Rightarrow> directory_usage" where
  "fresh_usage path limit time =
     \<lparr>usage_path = path, usage_exists = None, root_uid = None, root_gid = None, complete = True,
      file_logical_bytes = 0, file_allocated_bytes = 0, files_counted = 0, entries_seen = 0,
      hardlinks_skipped = 0, symlinks_skipped = 0, other_entries_skipped = 0, entry_limit = limit,
      time_limit_ms = as_millis time, usage_errors = [], additional_errors = 0\<rparr>"

definition scan_walk :: "view \<Rightarrow> nat \<Rightarrow> string \<Rightarrow> 64 word \<Rightarrow> nat \<Rightarrow> walk" where
  "scan_walk v t path limit time =
     (let w = \<lparr>usage = fresh_usage path limit time, seen = [], start_nanos = nanos v t, time_limit = time,
        stopped = False, tick = Suc t\<rparr> in
      case checked_metadata v (Suc t) path of
        (Ok m, t') \<Rightarrow>
          let w = w\<lparr>usage := (usage w)\<lparr>usage_exists := Some True, root_uid := Some (uid m), root_gid := Some (gid m)\<rparr>,
            tick := t'\<rparr> in
          if file_kind m = Directory_File then directory (DEPTH_LIMIT + 1) v (dev m) path w
          else note_error path ''storage root is not a directory'' w
      | (Err Not_Found, t') \<Rightarrow> w\<lparr>usage := (usage w)\<lparr>usage_exists := Some False\<rparr>, tick := t'\<rparr>
      | (Err e, t') \<Rightarrow> note_error path (io_message e) w\<lparr>tick := t'\<rparr>)"

definition scan :: "view \<Rightarrow> nat \<Rightarrow> string \<Rightarrow> 64 word \<Rightarrow> nat \<Rightarrow> directory_usage \<times> nat" where
  "scan v t path limit time = (let w = scan_walk v t path limit time in (usage w, tick w))"

definition inspect_image :: "view \<Rightarrow> nat \<Rightarrow> string \<Rightarrow> image_usage \<times> nat" where
  "inspect_image v t path =
     (let image = \<lparr>image_path = path, image_exists = None, logical_bytes = None, allocated_bytes = None,
        hard_link_count = None, image_error = None\<rparr> in
      case checked_metadata v t path of
        (Ok m, t') \<Rightarrow>
          (if file_kind m = Regular_File then
             let bytes = checked_mul (blocks m) 512 in
             image\<lparr>image_exists := Some True, logical_bytes := Some (len m), allocated_bytes := bytes,
               hard_link_count := Some (nlink m),
               image_error := if bytes = None then Some ''allocated byte count exceeds u64'' else None\<rparr>
           else image\<lparr>image_exists := Some True, image_error := Some ''backing image is not a regular file''\<rparr>, t')
      | (Err Not_Found, t') \<Rightarrow> (image\<lparr>image_exists := Some False\<rparr>, t')
      | (Err e, t') \<Rightarrow> (image\<lparr>image_error := Some (io_message e)\<rparr>, t'))"

fun available_from :: "view \<Rightarrow> nat \<Rightarrow> string list \<Rightarrow> (64 word, io_error) result \<times> nat" where
  "available_from v t [] = (Err (Other_Error ''no existing state directory ancestor''), t)"
| "available_from v t (a # as) =
     (case checked_metadata v t a of
        (Ok m, t') \<Rightarrow>
          if file_kind m = Directory_File then (free_space v t' a, Suc t')
          else (Err (Other_Error ''state ancestor is not a directory''), t')
      | (Err Not_Found, t') \<Rightarrow> available_from v t' as
      | (Err e, t') \<Rightarrow> (Err e, t'))"

definition available_space :: "view \<Rightarrow> nat \<Rightarrow> string \<Rightarrow> (64 word, io_error) result \<times> nat" where
  "available_space v t path = available_from v t (ancestors path)"

fun inspect_images :: "view \<Rightarrow> nat \<Rightarrow> string list \<Rightarrow> image_usage list" where
  "inspect_images v t [] = []"
| "inspect_images v t (p # ps) = (let (image, t') = inspect_image v t p in image # inspect_images v t' ps)"

definition inspect_paths :: "view \<Rightarrow> nat \<Rightarrow> string \<Rightarrow> string option \<Rightarrow> storage_summary" where
  "inspect_paths v t state cache =
     (let vm = path_join state ''lima/luhmen'';
        (available, t1) = available_space v t state;
        (shared, t2) = (case cache of None \<Rightarrow> (None, t1)
          | Some path \<Rightarrow> let (u, t') = scan v t1 path ENTRY_LIMIT TIME_LIMIT in (Some u, t'));
        (vm_usage, t3) = scan v t2 vm ENTRY_LIMIT TIME_LIMIT in
      \<lparr>report_version = 1,
       host_available_bytes = (case available of Ok n \<Rightarrow> Some n | Err _ \<Rightarrow> None),
       vm_directory = vm_usage,
       backing_images = inspect_images v t3 (map (path_join vm) [''disk'', ''image'', ''basedisk'', ''diffdisk'']),
       shared_lima_cache = shared,
       report_errors = (case available of Ok n \<Rightarrow> [] | Err e \<Rightarrow> [''host available space: '' @ io_message e])
         @ (if cache = None then [''HOME is not set; shared Lima cache location is unknown''] else [])\<rparr>)"

text \<open>The home directory is that of the environment.\<close>

definition inspect_storage :: "view \<Rightarrow> nat \<Rightarrow> string option \<Rightarrow> string \<Rightarrow> storage_summary" where
  "inspect_storage v t home state =
     inspect_paths v t state (map_option (\<lambda>h. path_join h ''Library/Caches/lima'') home)"

section \<open>Well-formed reports\<close>

lemma unat_inc: "unat (x :: 64 word) + 1 < 2 ^ 64 \<Longrightarrow> unat (x + 1) = unat x + 1"
  by (simp add: unat_word_ariths)

lemma word_less_inc: "x < (y :: 64 word) \<Longrightarrow> unat (x + 1) = unat x + 1 \<and> x + 1 \<le> y"
proof -
  assume "x < y"
  then have "unat x < unat y" by (simp add: word_less_nat_alt)
  moreover have "unat y < 2 ^ 64" using unsigned_less [of y] by simp
  ultimately have "unat (x + 1) = unat x + 1" by (intro unat_inc) simp
  with \<open>unat x < unat y\<close> show ?thesis by (simp add: word_le_nat_alt)
qed

text \<open>The errors met, kept or only counted.\<close>

definition errors_met :: "directory_usage \<Rightarrow> nat" where
  "errors_met u = length (usage_errors u) + unat (additional_errors u)"

definition well_formed_usage :: "directory_usage \<Rightarrow> bool" where
  "well_formed_usage u \<longleftrightarrow>
     entries_seen u \<le> entry_limit u
     \<and> unat (files_counted u) + unat (hardlinks_skipped u) + unat (symlinks_skipped u) + unat (other_entries_skipped u)
         \<le> unat (entries_seen u)
     \<and> length (usage_errors u) \<le> ERROR_LIMIT
     \<and> (length (usage_errors u) < ERROR_LIMIT \<longrightarrow> additional_errors u = 0)
     \<and> (complete u \<longleftrightarrow> usage_errors u = [])
     \<and> unat (entry_limit u) + 2 < 2 ^ 64"

text \<open>A walk that may still meet \<open>k\<close> errors beside one per entry and the one that stops it.\<close>

definition in_credit :: "nat \<Rightarrow> walk \<Rightarrow> bool" where
  "in_credit k w \<longleftrightarrow> well_formed_usage (usage w)
     \<and> errors_met (usage w) + k \<le> unat (entries_seen (usage w)) + of_bool (stopped w) + 1"

lemma note_error_simps [simp]:
  "entries_seen (usage (note_error p m w)) = entries_seen (usage w)"
  "entry_limit (usage (note_error p m w)) = entry_limit (usage w)"
  "files_counted (usage (note_error p m w)) = files_counted (usage w)"
  "hardlinks_skipped (usage (note_error p m w)) = hardlinks_skipped (usage w)"
  "symlinks_skipped (usage (note_error p m w)) = symlinks_skipped (usage w)"
  "other_entries_skipped (usage (note_error p m w)) = other_entries_skipped (usage w)"
  "file_logical_bytes (usage (note_error p m w)) = file_logical_bytes (usage w)"
  "usage_exists (usage (note_error p m w)) = usage_exists (usage w)"
  "\<not> complete (usage (note_error p m w))"
  "seen (note_error p m w) = seen w" "stopped (note_error p m w) = stopped w" "tick (note_error p m w) = tick w"
  by (simp_all add: note_error_def Let_def)

lemma in_credit_limit: "in_credit k w \<Longrightarrow> unat (entry_limit (usage w)) + 2 < 2 ^ 64"
  by (simp add: in_credit_def well_formed_usage_def)

lemma errors_met_note:
  assumes "errors_met (usage w) + 1 < 2 ^ 64"
  shows "errors_met (usage (note_error p m w)) = errors_met (usage w) + 1"
  using assms unat_inc [of "additional_errors (usage w)"]
  by (simp add: note_error_def errors_met_def Let_def)

lemma in_credit_note:
  assumes "in_credit (Suc k) w"
  shows "in_credit k (note_error p m w)"
proof -
  from assms have "unat (entries_seen (usage w)) \<le> unat (entry_limit (usage w))"
    and "errors_met (usage w) + Suc k \<le> unat (entries_seen (usage w)) + of_bool (stopped w) + 1"
    and "unat (entry_limit (usage w)) + 2 < 2 ^ 64"
    by (auto simp: in_credit_def well_formed_usage_def word_le_nat_alt)
  then have "errors_met (usage w) + 1 < 2 ^ 64" by (cases "stopped w") auto
  from errors_met_note [OF this] assms show ?thesis
    unfolding in_credit_def well_formed_usage_def
    by (auto simp: note_error_def Let_def ERROR_LIMIT_def)
qed

lemma in_credit_tick [simp]: "in_credit k (w\<lparr>tick := t\<rparr>) = in_credit k w"
  by (simp add: in_credit_def)

lemma in_credit_seen [simp]: "in_credit k (insert_seen m w) = in_credit k w"
  by (simp add: in_credit_def insert_seen_def)

lemma in_credit_stop: "in_credit k w \<Longrightarrow> \<not> stopped w \<Longrightarrow> in_credit (Suc k) (w\<lparr>stopped := True\<rparr>)"
  by (simp add: in_credit_def)

lemma in_credit_less: "in_credit (Suc k) w \<Longrightarrow> in_credit k w"
  by (simp add: in_credit_def)

lemma note_error_update:
  "note_error p m (w\<lparr>stopped := b\<rparr>) = (note_error p m w)\<lparr>stopped := b\<rparr>"
  "note_error p m (w\<lparr>tick := t\<rparr>) = (note_error p m w)\<lparr>tick := t\<rparr>"
  by (simp_all add: note_error_def Let_def)

lemma within_budget_credit:
  assumes "within_budget v p w = (b, w')" "in_credit k w"
  shows "in_credit k w' \<and> (b \<longrightarrow> entries_seen (usage w') < entry_limit (usage w'))"
  using assms in_credit_note [OF in_credit_stop, of k w p]
  by (auto simp: within_budget_def note_error_update split: if_splits)

text \<open>An entry that is neither counted nor an error yet.\<close>

definition entry_pending :: "nat \<Rightarrow> walk \<Rightarrow> bool" where
  "entry_pending k w \<longleftrightarrow> in_credit (Suc k) w \<and>
     unat (files_counted (usage w)) + unat (hardlinks_skipped (usage w)) + unat (symlinks_skipped (usage w))
       + unat (other_entries_skipped (usage w)) < unat (entries_seen (usage w))"

lemma entry_pending_start:
  assumes "in_credit k w" "entries_seen (usage w) < entry_limit (usage w)"
  shows "entry_pending k (on_usage (\<lambda>u. u\<lparr>entries_seen := entries_seen u + 1\<rparr>) w)"
  using assms word_less_inc [OF assms(2)]
  by (auto simp: entry_pending_def in_credit_def well_formed_usage_def errors_met_def)

lemma entry_pending_same [simp]:
  "entry_pending k (w\<lparr>tick := t\<rparr>) = entry_pending k w"
  "entry_pending k (insert_seen m w) = entry_pending k w"
  by (simp_all add: entry_pending_def insert_seen_def in_credit_def)

lemma entry_pending_note: "entry_pending k w \<Longrightarrow> in_credit k (note_error p m w)"
  by (simp add: entry_pending_def in_credit_note)

lemma entry_pending_count:
  assumes "entry_pending k w"
  shows "in_credit k (on_usage (\<lambda>u. u\<lparr>hardlinks_skipped := hardlinks_skipped u + 1\<rparr>) w)"
    and "in_credit k (on_usage (\<lambda>u. u\<lparr>symlinks_skipped := symlinks_skipped u + 1\<rparr>) w)"
    and "in_credit k (on_usage (\<lambda>u. u\<lparr>other_entries_skipped := other_entries_skipped u + 1\<rparr>) w)"
    and "in_credit k (w\<lparr>usage := (usage w)\<lparr>file_logical_bytes := l, file_allocated_bytes := a,
           files_counted := files_counted (usage w) + 1\<rparr>\<rparr>)"
proof -
  have small: "unat (entries_seen (usage w)) < 2 ^ 64" using unsigned_less [of "entries_seen (usage w)"] by simp
  note facts = assms [unfolded entry_pending_def in_credit_def well_formed_usage_def]
  have inc: "unat (x + 1) = unat x + 1" if "unat x < unat (entries_seen (usage w))" for x :: "64 word"
    using that small by (intro unat_inc) simp
  show "in_credit k (on_usage (\<lambda>u. u\<lparr>hardlinks_skipped := hardlinks_skipped u + 1\<rparr>) w)"
    using facts inc [of "hardlinks_skipped (usage w)"] by (auto simp: in_credit_def well_formed_usage_def errors_met_def)
  show "in_credit k (on_usage (\<lambda>u. u\<lparr>symlinks_skipped := symlinks_skipped u + 1\<rparr>) w)"
    using facts inc [of "symlinks_skipped (usage w)"] by (auto simp: in_credit_def well_formed_usage_def errors_met_def)
  show "in_credit k (on_usage (\<lambda>u. u\<lparr>other_entries_skipped := other_entries_skipped u + 1\<rparr>) w)"
    using facts inc [of "other_entries_skipped (usage w)"] by (auto simp: in_credit_def well_formed_usage_def errors_met_def)
  show "in_credit k (w\<lparr>usage := (usage w)\<lparr>file_logical_bytes := l, file_allocated_bytes := a,
           files_counted := files_counted (usage w) + 1\<rparr>\<rparr>)"
    using facts inc [of "files_counted (usage w)"] by (auto simp: in_credit_def well_formed_usage_def errors_met_def)
qed

lemma count_file_credit: "entry_pending k w \<Longrightarrow> in_credit k (count_file p m w)"
  using entry_pending_count [of k w] entry_pending_count(4) [of k "insert_seen m w"] entry_pending_note [of k "insert_seen m w" p]
  by (simp add: count_file_def Let_def split: option.split)

lemma visit_entry_credit:
  assumes "in_credit k w" "entries_seen (usage w) < entry_limit (usage w)"
    and "\<And>p w. in_credit (Suc k) w \<Longrightarrow> in_credit k (descend p w)"
  shows "in_credit k (visit_entry descend v path device e w)"
proof -
  let ?w = "on_usage (\<lambda>u. u\<lparr>entries_seen := entries_seen u + 1\<rparr>) w"
  have pending: "entry_pending k ?w" by (rule entry_pending_start [OF assms(1,2)])
  then have credit: "in_credit (Suc k) ?w" by (simp add: entry_pending_def)
  let ?t = "?w\<lparr>tick := Suc (tick ?w)\<rparr>"
  have pending': "entry_pending k ?t" using pending by simp
  show ?thesis
    using entry_pending_note [OF pending] entry_pending_note [OF pending'] entry_pending_count [OF pending']
      count_file_credit [OF pending'] assms(3) [of ?t] credit
    unfolding visit_entry_def Let_def by (simp split: result.split del: select_convs)
qed

lemma visit_entries_credit:
  assumes "\<And>p w. in_credit (Suc k) w \<Longrightarrow> in_credit k (descend p w)"
  shows "in_credit k w \<Longrightarrow> in_credit k (visit_entries descend v path device es w)"
proof (induction es arbitrary: w)
  case (Cons e es)
  obtain b w1 where b: "within_budget v path w = (b, w1)" by fastforce
  have credit: "in_credit k w1" and room: "b \<Longrightarrow> entries_seen (usage w1) < entry_limit (usage w1)"
    using within_budget_credit [OF b Cons.prems] by auto
  show ?case
    using b credit Cons.IH [OF visit_entry_credit [OF credit room assms]] by (cases b) simp_all
qed simp

lemma open_directory_credit:
  "in_credit (Suc k) w \<Longrightarrow> open_directory v device path w = (r, w') \<Longrightarrow> in_credit k w'"
  using in_credit_note [of k] in_credit_less [of k]
  by (auto simp: open_directory_def Let_def note_error_update split: prod.splits result.splits if_splits)

lemma directory_credit: "in_credit (Suc k) w \<Longrightarrow> in_credit k (directory room v device path w)"
proof (induction room arbitrary: path w)
  case 0
  then show ?case
    using within_budget_credit [of v path w] in_credit_note [of k] in_credit_less [of k] by (auto split: prod.split bool.split)
next
  case (Suc room)
  obtain b w1 where b: "within_budget v path w = (b, w1)" by fastforce
  have credit: "in_credit (Suc k) w1" using within_budget_credit [OF b Suc.prems] by simp
  obtain r w2 where r: "open_directory v device path w1 = (r, w2)" by fastforce
  note opened = open_directory_credit [OF credit r]
  show ?case
    using b r opened in_credit_less [OF credit] visit_entries_credit [OF Suc.IH opened] by (cases b; cases r) simp_all
qed

lemma in_credit_fresh:
  assumes "unat limit + 2 < 2 ^ 64"
  shows "in_credit 1 \<lparr>usage = (fresh_usage path limit time)\<lparr>usage_exists := e, root_uid := u, root_gid := g\<rparr>,
    seen = s, start_nanos = n, time_limit = lim, stopped = False, tick = t\<rparr>"
  using assms by (simp add: in_credit_def well_formed_usage_def fresh_usage_def errors_met_def ERROR_LIMIT_def)

lemma scan_credit:
  assumes "unat limit + 2 < 2 ^ 64"
  shows "in_credit 0 (scan_walk v t path limit time)"
  unfolding scan_walk_def Let_def
  using in_credit_fresh [OF assms] in_credit_less [OF in_credit_fresh [OF assms, unfolded One_nat_def]]
    in_credit_note [of 0] directory_credit [of 0]
  by (auto simp: fresh_usage_def note_error_update simp del: directory.simps split: prod.split result.split io_error.split)

section \<open>What a complete scan has counted\<close>

definition stat :: "view \<Rightarrow> string \<Rightarrow> (metadata, io_error) result" where
  "stat v p = symlink_metadata v 0 p"

definition listing_of :: "view \<Rightarrow> string \<Rightarrow> ((string, string) result list, string) result" where
  "listing_of v p = read_dir v 0 p"

text \<open>
  A file system that does not change during the scan: every call answers as at tick 0, and what
  stat says belongs to the inode.
\<close>

definition frozen :: "view \<Rightarrow> bool" where
  "frozen v \<longleftrightarrow>
     (\<forall>t p. symlink_metadata v t p = stat v p \<and> read_dir v t p = listing_of v p) \<and>
     (\<forall>p q m n. stat v p = Ok m \<longrightarrow> stat v q = Ok n \<longrightarrow> dev m = dev n \<longrightarrow> ino m = ino n \<longrightarrow> m = n)"

definition children :: "view \<Rightarrow> string \<Rightarrow> string set" where
  "children v p = {path_join p name |name es. listing_of v p = Ok es \<and> Ok name \<in> set es}"

text \<open>The entries below a directory, following directories of one device but no link.\<close>

inductive listed :: "view \<Rightarrow> 64 word \<Rightarrow> string \<Rightarrow> string \<Rightarrow> bool" for v device where
  child: "c \<in> children v p \<Longrightarrow> listed v device p c"
| deeper: "c \<in> children v p \<Longrightarrow> stat v c = Ok m \<Longrightarrow> file_kind m = Directory_File \<Longrightarrow> dev m = device \<Longrightarrow>
    listed v device c r \<Longrightarrow> listed v device p r"

inductive_simps listed_iff: "listed v device p r"

definition is_counted :: "64 word \<Rightarrow> metadata \<Rightarrow> bool" where
  "is_counted device m \<longleftrightarrow> file_kind m = Regular_File \<and> dev m = device"

definition reached_files :: "view \<Rightarrow> 64 word \<Rightarrow> string \<Rightarrow> metadata set" where
  "reached_files v device p = {m. \<exists>r. listed v device p r \<and> stat v r = Ok m \<and> is_counted device m}"

definition entry_files :: "view \<Rightarrow> 64 word \<Rightarrow> string \<Rightarrow> metadata set" where
  "entry_files v device c = {m. stat v c = Ok m \<and> is_counted device m}
     \<union> {m. \<exists>n. stat v c = Ok n \<and> file_kind n = Directory_File \<and> dev n = device \<and> m \<in> reached_files v device c}"

lemma reached_files_children: "reached_files v device p = (\<Union>c\<in>children v p. entry_files v device c)"
  unfolding reached_files_def entry_files_def by (subst listed_iff) auto

definition tallied_files :: "view \<Rightarrow> walk \<Rightarrow> metadata set" where
  "tallied_files v w = {m. file_kind m = Regular_File \<and> (\<exists>p. stat v p = Ok m) \<and> (dev m, ino m) \<in> set (seen w)}"

definition tallied :: "view \<Rightarrow> walk \<Rightarrow> bool" where
  "tallied v w \<longleftrightarrow>
     unat (file_logical_bytes (usage w)) = (\<Sum>m\<in>tallied_files v w. unat (len m))
     \<and> unat (file_allocated_bytes (usage w)) = (\<Sum>m\<in>tallied_files v w. 512 * unat (blocks m))
     \<and> files_counted (usage w) = of_nat (card (tallied_files v w))"

text \<open>Walking on from \<open>w\<close> to \<open>w'\<close> counts the files \<open>S\<close>, unless something is missed.\<close>

definition counts :: "view \<Rightarrow> metadata set \<Rightarrow> walk \<Rightarrow> walk \<Rightarrow> bool" where
  "counts v S w w' \<longleftrightarrow> ((stopped w \<longrightarrow> \<not> complete (usage w)) \<longrightarrow>
     (stopped w' \<longrightarrow> \<not> complete (usage w')) \<and>
     (complete (usage w') \<longrightarrow> complete (usage w) \<and> (tallied v w \<longrightarrow> tallied v w')
        \<and> tallied_files v w' = tallied_files v w \<union> S))"

lemma counts_trans: "counts v S w w1 \<Longrightarrow> counts v S' w1 w2 \<Longrightarrow> counts v (S \<union> S') w w2"
  by (auto simp: counts_def)

lemma counts_note: "counts v S w (note_error p m w')"
  by (simp add: counts_def)

lemma counts_same:
  assumes "seen w' = seen w" "stopped w' = stopped w" "complete (usage w') = complete (usage w)"
    "file_logical_bytes (usage w') = file_logical_bytes (usage w)"
    "file_allocated_bytes (usage w') = file_allocated_bytes (usage w)" "files_counted (usage w') = files_counted (usage w)"
  shows "counts v {} w w'"
  using assms by (auto simp: counts_def tallied_def tallied_files_def)

lemma counts_after:
  assumes "counts v S w1 w2" "seen w1 = seen w" "stopped w1 = stopped w" "complete (usage w1) = complete (usage w)"
    "file_logical_bytes (usage w1) = file_logical_bytes (usage w)"
    "file_allocated_bytes (usage w1) = file_allocated_bytes (usage w)" "files_counted (usage w1) = files_counted (usage w)"
  shows "counts v S w w2"
  using counts_trans [OF counts_same [OF assms(2-7)] assms(1)] by simp

lemma finite_tallied_files:
  assumes "frozen v"
  shows "finite (tallied_files v w)"
proof (rule finite_imageD)
  show "finite ((\<lambda>m. (dev m, ino m)) ` tallied_files v w)"
    by (rule finite_subset [of _ "set (seen w)"]) (auto simp: tallied_files_def)
  show "inj_on (\<lambda>m. (dev m, ino m)) (tallied_files v w)"
    using assms by (auto simp: inj_on_def tallied_files_def frozen_def)
qed

lemma tallied_files_insert:
  assumes "frozen v" "stat v p = Ok m"
  shows "tallied_files v (insert_seen m w) = (if file_kind m = Regular_File then insert m (tallied_files v w) else tallied_files v w)"
  using assms unfolding frozen_def tallied_files_def insert_seen_def by auto blast+

lemma checked_add_Some: "checked_add a b = Some c \<Longrightarrow> unat c = unat a + unat b"
  by (auto simp: checked_add_def unat_word_ariths split: if_splits)

lemma checked_mul_Some: "checked_mul a b = Some c \<Longrightarrow> unat c = unat a * unat b"
  by (auto simp: checked_mul_def unat_word_ariths split: if_splits)

lemma counts_count_file:
  assumes "frozen v" "stat v p = Ok m" "is_counted device m"
  shows "counts v {m} w (count_file q m w)"
proof (cases "already_seen m w")
  case True
  with assms have "m \<in> tallied_files v w" by (auto simp: tallied_files_def already_seen_def is_counted_def)
  then have "tallied_files v w \<union> {m} = tallied_files v w" by auto
  with True show ?thesis by (auto simp: count_file_def counts_def tallied_def tallied_files_def)
next
  case False
  let ?u = "usage w"
  let ?added = "(checked_add (file_logical_bytes ?u) (len m), Option.bind (checked_mul (blocks m) 512) (checked_add (file_allocated_bytes ?u)))"
  show ?thesis
  proof (cases "\<exists>l a. ?added = (Some l, Some a)")
    case True
    then obtain l a b where l: "checked_add (file_logical_bytes ?u) (len m) = Some l"
      and b: "checked_mul (blocks m) 512 = Some b" and a: "checked_add (file_allocated_bytes ?u) b = Some a"
      by (auto simp: bind_eq_Some_conv)
    have reg: "file_kind m = Regular_File" using assms(3) by (simp add: is_counted_def)
    have new: "m \<notin> tallied_files v w" using False by (simp add: tallied_files_def already_seen_def)
    let ?w = "(insert_seen m w)\<lparr>usage := ?u\<lparr>file_logical_bytes := l, file_allocated_bytes := a, files_counted := files_counted ?u + 1\<rparr>\<rparr>"
    have w: "count_file q m w = ?w" using False l b a by (simp add: count_file_def Let_def insert_seen_def)
    have T: "tallied_files v ?w = insert m (tallied_files v w)"
      using tallied_files_insert [OF assms(1,2), of w] reg by (simp add: tallied_files_def insert_seen_def)
    have "tallied v w \<Longrightarrow> tallied v ?w"
      using finite_tallied_files [OF assms(1), of w] new checked_add_Some [OF l] checked_add_Some [OF a] checked_mul_Some [OF b]
      unfolding tallied_def T by simp
    then show ?thesis unfolding w by (auto simp: counts_def T) (simp_all add: insert_seen_def)
  next
    case none: False
    then have "count_file q m w = note_error q ''byte count exceeds u64; totals are partial'' (insert_seen m w)"
      using False by (auto simp: count_file_def Let_def insert_seen_def split: option.splits)
    then show ?thesis by (simp add: counts_note)
  qed
qed

lemma frozen_calls:
  "frozen v \<Longrightarrow> symlink_metadata v t p = stat v p" "frozen v \<Longrightarrow> read_dir v t p = listing_of v p"
  by (auto simp: frozen_def)

lemma counts_budget: "within_budget v path w = (b, w') \<Longrightarrow> b \<Longrightarrow> counts v {} w w'"
  "within_budget v path w = (b, w') \<Longrightarrow> \<not> b \<Longrightarrow> counts v S w w'"
  by (auto simp: within_budget_def counts_def tallied_def tallied_files_def split: if_splits)

fun child_of :: "string \<Rightarrow> (string, string) result \<Rightarrow> string set" where
  "child_of path (Ok name) = {path_join path name}"
| "child_of path (Err e) = {}"

text \<open>The branches of an entry, one rule each.\<close>

lemma visit_entry_Ok:
  assumes "frozen v" "stat v (path_join path name) = Ok m"
    and w': "w' = (on_usage (\<lambda>u. u\<lparr>entries_seen := entries_seen u + 1\<rparr>) w)\<lparr>tick := Suc (tick w)\<rparr>"
  shows "visit_entry descend v path device (Ok name) w =
    (if file_kind m = Link_File then on_usage (\<lambda>u. u\<lparr>symlinks_skipped := symlinks_skipped u + 1\<rparr>) w'
     else if dev m \<noteq> device then note_error (path_join path name) ''different filesystem skipped; totals are partial'' w'
     else if file_kind m = Directory_File then descend (path_join path name) w'
     else if file_kind m = Regular_File then count_file (path_join path name) m w'
     else on_usage (\<lambda>u. u\<lparr>other_entries_skipped := other_entries_skipped u + 1\<rparr>) w')"
  unfolding visit_entry_def Let_def w' result.case by (simp add: frozen_calls [OF assms(1)] assms(2))

lemma counts_entry:
  assumes "frozen v" "stat v c = Ok m"
    and descend: "\<And>w. counts v (reached_files v device c) w (descend c w)"
  shows "counts v (entry_files v device c) w
    (if file_kind m = Link_File then on_usage (\<lambda>u. u\<lparr>symlinks_skipped := symlinks_skipped u + 1\<rparr>) w
     else if dev m \<noteq> device then note_error c message w
     else if file_kind m = Directory_File then descend c w
     else if file_kind m = Regular_File then count_file c m w
     else on_usage (\<lambda>u. u\<lparr>other_entries_skipped := other_entries_skipped u + 1\<rparr>) w)"
proof (cases "file_kind m")
  case Regular_File
  then have "dev m = device \<Longrightarrow> entry_files v device c = {m} \<and> is_counted device m"
    using assms(2) by (auto simp: entry_files_def is_counted_def)
  with Regular_File counts_count_file [OF assms(1,2), of device w c] show ?thesis by (auto simp: counts_note)
next
  case Directory_File
  then have "dev m = device \<Longrightarrow> entry_files v device c = reached_files v device c"
    using assms(2) by (auto simp: entry_files_def is_counted_def)
  with Directory_File descend show ?thesis by (auto simp: counts_note)
next
  case Link_File
  then have "entry_files v device c = {}" using assms(2) by (auto simp: entry_files_def is_counted_def)
  with Link_File show ?thesis by (simp add: counts_same)
next
  case Other_File
  then have "entry_files v device c = {}" using assms(2) by (auto simp: entry_files_def is_counted_def)
  with Other_File show ?thesis by (simp add: counts_same counts_note)
qed

lemma in_child_of: "c \<in> child_of p e \<longleftrightarrow> (\<exists>name. e = Ok name \<and> c = path_join p name)"
  by (cases e) auto

lemma counts_visit_entry:
  assumes "frozen v"
    and descend: "\<And>p w. counts v (reached_files v device p) w (descend p w)"
  shows "counts v (\<Union>c\<in>child_of path e. entry_files v device c) w (visit_entry descend v path device e w)"
proof (cases e)
  case (Ok name)
  let ?w = "(on_usage (\<lambda>u. u\<lparr>entries_seen := entries_seen u + 1\<rparr>) w)\<lparr>tick := Suc (tick w)\<rparr>"
  show ?thesis
  proof (cases "stat v (path_join path name)")
    case (Ok m)
    from counts_after [OF counts_entry [where descend = descend and device = device, OF assms(1) Ok descend, of ?w "''different filesystem skipped; totals are partial''"]]
    show ?thesis unfolding \<open>e = Ok name\<close> visit_entry_Ok [OF assms(1) Ok refl] by simp
  next
    case (Err x)
    then show ?thesis
      unfolding \<open>e = Ok name\<close> visit_entry_def Let_def by (simp add: frozen_calls [OF assms(1)] counts_note)
  qed
qed (simp add: visit_entry_def Let_def counts_note)

lemma counts_visit_entries:
  assumes "frozen v" and descend: "\<And>p w. counts v (reached_files v device p) w (descend p w)"
  shows "counts v (\<Union>e\<in>set es. \<Union>c\<in>child_of path e. entry_files v device c) w (visit_entries descend v path device es w)"
proof (induction es arbitrary: w)
  case Nil
  show ?case by (simp add: counts_same)
next
  case (Cons e es)
  obtain b w1 where b: "within_budget v path w = (b, w1)" by fastforce
  show ?case
  proof (cases b)
    case True
    from counts_trans [OF counts_trans [OF counts_budget(1) [OF b True] counts_visit_entry [OF assms]] Cons.IH]
    show ?thesis using True b by simp
  next
    case False
    then show ?thesis using counts_budget(2) [OF b False] b by simp
  qed
qed

lemma check_components_known:
  "frozen v \<Longrightarrow> check_components v t p found cs = (Ok m, t') \<Longrightarrow> (\<And>n. found = Some n \<Longrightarrow> \<exists>q. stat v q = Ok n) \<Longrightarrow>
     \<exists>q. stat v q = Ok m"
proof (induction cs arbitrary: t p found)
  case (Cons c cs)
  show ?case
  proof (cases "c = ''..''")
    case False
    with Cons.prems obtain n where n: "stat v (path_join p c) = Ok n"
      and rest: "check_components v (Suc t) (path_join p c) (Some n) cs = (Ok m, t')"
      unfolding check_components.simps Let_def frozen_calls [OF Cons.prems(1)] by (auto split: result.splits if_splits)
    show ?thesis by (rule Cons.IH [OF Cons.prems(1) rest]) (use n in blast)
  qed (use Cons.prems(2) in simp)
qed simp

lemma checked_metadata_known: "frozen v \<Longrightarrow> checked_metadata v t p = (Ok m, t') \<Longrightarrow> \<exists>q. stat v q = Ok m"
  unfolding checked_metadata_def by (rule check_components_known) (auto simp del: check_components.simps split: if_splits)

lemma open_directory_Some:
  assumes "frozen v" "open_directory v device path w = (Some es, w')"
  shows "listing_of v path = Ok es \<and> counts v {} w w'"
proof -
  from assms obtain m t where m: "checked_metadata v (tick w) path = (Ok m, t)" "file_kind m = Directory_File"
    and es: "listing_of v path = Ok es" and w': "w' = (insert_seen m w)\<lparr>tick := Suc t\<rparr>"
    unfolding open_directory_def Let_def frozen_calls [OF assms(1)]
    by (simp add: insert_seen_def split: prod.splits result.splits if_splits)
  obtain q where "stat v q = Ok m" using checked_metadata_known [OF assms(1) m(1)] by blast
  from tallied_files_insert [OF assms(1) this, of w] m(2)
  have "tallied_files v w' = tallied_files v w" by (simp add: w' tallied_files_def)
  with es show ?thesis by (auto simp: w' counts_def tallied_def insert_seen_def)
qed

lemma open_directory_None: "open_directory v device path w = (None, w') \<Longrightarrow> counts v S w w'"
  by (auto simp: open_directory_def Let_def counts_def split: prod.splits result.splits if_splits)

lemma counts_directory: "frozen v \<Longrightarrow> counts v (reached_files v device p) w (directory room v device p w)"
proof (induction room arbitrary: p w)
  case 0
  then show ?case using counts_budget(2) [of v p w] by (auto simp: counts_note split: prod.split bool.split)
next
  case (Suc room)
  obtain b w1 where b: "within_budget v p w = (b, w1)" by fastforce
  obtain r w2 where r: "open_directory v device p w1 = (r, w2)" by fastforce
  show ?case
  proof (cases b)
    case True
    show ?thesis
    proof (cases r)
      case None
      from counts_trans [OF counts_budget(1) [OF b True] open_directory_None [OF r [unfolded None]]] show ?thesis
        using True b r None by simp
    next
      case (Some es)
      from open_directory_Some [OF Suc.prems r [unfolded Some]] have es: "listing_of v p = Ok es" and opened: "counts v {} w1 w2" by simp_all
      have kids: "(\<Union>e\<in>set es. child_of p e) = children v p"
        by (auto simp: children_def es in_child_of)
      have "(\<Union>e\<in>set es. \<Union>c\<in>child_of p e. entry_files v device c) = reached_files v device p"
        unfolding reached_files_children kids [symmetric] by blast
      with counts_trans [OF counts_trans [OF counts_budget(1) [OF b True] opened]
          counts_visit_entries [OF Suc.prems Suc.IH [OF Suc.prems], of p es w2]]
      show ?thesis using True b r Some by simp
    qed
  next
    case False
    then show ?thesis using counts_budget(2) [OF b False] b by simp
  qed
qed

lemma tallied_files_fresh: "seen w = [] \<Longrightarrow> tallied_files v w = {}"
  by (simp add: tallied_files_def)

lemma scan_walk_complete:
  assumes "complete (usage (scan_walk v t path limit time))" "usage_exists (usage (scan_walk v t path limit time)) = Some True"
  obtains m t' w where "checked_metadata v (Suc t) path = (Ok m, t')" "file_kind m = Directory_File"
    "scan_walk v t path limit time = directory (DEPTH_LIMIT + 1) v (dev m) path w"
    "seen w = []" "\<not> stopped w" "file_logical_bytes (usage w) = 0" "file_allocated_bytes (usage w) = 0" "files_counted (usage w) = 0"
proof (cases "checked_metadata v (Suc t) path")
  case (Pair r t')
  show ?thesis
  proof (cases r)
    case (Ok m)
    with Pair assms have "file_kind m = Directory_File" by (auto simp: scan_walk_def Let_def simp del: directory.simps split: if_splits)
    with Pair Ok that [of m t'] show ?thesis by (simp add: scan_walk_def Let_def fresh_usage_def del: directory.simps)
  next
    case (Err e)
    with Pair assms show ?thesis by (cases e) (auto simp: scan_walk_def Let_def)
  qed
qed

lemma tallied_start: "seen w = [] \<Longrightarrow> file_logical_bytes (usage w) = 0 \<Longrightarrow> file_allocated_bytes (usage w) = 0 \<Longrightarrow>
    files_counted (usage w) = 0 \<Longrightarrow> tallied v w"
  by (simp add: tallied_def tallied_files_fresh)

section \<open>Properties\<close>

text \<open>
  C35. A scan report is well formed whatever the file system answers and however it changes: the
  entry limit is kept, every counted file, hard link, symlink and other entry is one of the
  entries seen, at most 32 errors are listed and the rest only counted, the report claims to be
  complete exactly when it lists no error, and no counter wraps around: the errors met are at
  most two more than the entries.
\<close>

theorem scan_report_well_formed:
  assumes "unat limit + 2 < 2 ^ 64" "scan v t path limit time = (u, t')"
  shows "well_formed_usage u \<and> errors_met u \<le> unat (entries_seen u) + 2"
  using scan_credit [OF assms(1), of v t path time] assms(2)
  by (cases "stopped (scan_walk v t path limit time)") (auto simp: scan_def Let_def in_credit_def)

theorem scan_report_well_formed_witness:
  "\<forall>v t path. well_formed_usage (fst (scan v t path ENTRY_LIMIT TIME_LIMIT))"
proof (intro allI)
  fix v t path
  have "unat ENTRY_LIMIT + 2 < 2 ^ 64" by (simp add: ENTRY_LIMIT_def)
  from scan_report_well_formed [OF this surjective_pairing]
  show "well_formed_usage (fst (scan v t path ENTRY_LIMIT TIME_LIMIT))" by simp
qed

text \<open>
  C12. A complete scan of a directory that does not change has counted exactly the regular files
  that the directory reaches through directories of its own device: each inode once, whatever
  its number of hard links, with the logical bytes and the allocated blocks of 512 bytes summed
  without overflow, and nothing behind a symlink.
\<close>

theorem complete_scan_counts_every_file:
  assumes "frozen v" "scan v t path limit time = (u, t')" "complete u" "usage_exists u = Some True"
  shows "\<exists>m files. fst (checked_metadata v (Suc t) path) = Ok m \<and> files = reached_files v (dev m) path \<and> finite files
    \<and> unat (file_logical_bytes u) = (\<Sum>f\<in>files. unat (len f))
    \<and> unat (file_allocated_bytes u) = (\<Sum>f\<in>files. 512 * unat (blocks f))
    \<and> files_counted u = of_nat (card files)"
proof -
  let ?w = "scan_walk v t path limit time"
  have u: "u = usage ?w" using assms(2) by (simp add: scan_def Let_def)
  obtain m t1 w where m: "checked_metadata v (Suc t) path = (Ok m, t1)" and dir: "?w = directory (DEPTH_LIMIT + 1) v (dev m) path w"
    and w: "seen w = []" "\<not> stopped w" "file_logical_bytes (usage w) = 0" "file_allocated_bytes (usage w) = 0" "files_counted (usage w) = 0"
    using scan_walk_complete assms(3,4) unfolding u by metis
  have "counts v (reached_files v (dev m) path) w ?w" unfolding dir by (rule counts_directory [OF assms(1)])
  with w assms(3) have "tallied v ?w" "tallied_files v ?w = reached_files v (dev m) path"
    by (auto simp: counts_def u tallied_start tallied_files_fresh)
  with m finite_tallied_files [OF assms(1), of ?w] show ?thesis by (auto simp: u tallied_def)
qed

text \<open>A directory with a file, a second link to it and a symlink.\<close>

definition sample_meta :: "file_kind \<Rightarrow> 64 word \<Rightarrow> 64 word \<Rightarrow> metadata" where
  "sample_meta kind inode bytes = \<lparr>file_kind = kind, uid = 501, gid = 20, dev = 1, ino = inode, nlink = 1, len = bytes, blocks = 8\<rparr>"

definition sample_tree :: "(string \<times> metadata) list" where
  "sample_tree =
     [(''/'', sample_meta Directory_File 2 0), (''/d'', sample_meta Regular_File 4 10),
      (''/c'', sample_meta Regular_File 4 10), (''/l'', sample_meta Link_File 5 0)]"

definition sample_view :: view where
  "sample_view =
     \<lparr>symlink_metadata = \<lambda>_ p. (case map_of sample_tree p of Some m \<Rightarrow> Ok m | None \<Rightarrow> Err Not_Found),
      read_dir = \<lambda>_ p. Ok [Ok ''d'', Ok ''c'', Ok ''l''],
      free_space = \<lambda>_ _. Ok 0, nanos = \<lambda>_. 0\<rparr>"

lemma sample_tree_inodes:
  "list_all (\<lambda>(p, m). list_all (\<lambda>(q, n). dev m = dev n \<longrightarrow> ino m = ino n \<longrightarrow> m = n) sample_tree) sample_tree"
  by (simp add: sample_tree_def sample_meta_def)

lemma sample_view_frozen: "frozen sample_view"
  using sample_tree_inodes unfolding frozen_def stat_def listing_of_def
  by (auto simp: sample_view_def list_all_iff split: option.splits dest!: map_of_SomeD)

lemma sample_scan:
  "(let u = fst (scan sample_view 0 ''/'' 9 9) in complete u \<and> usage_exists u = Some True \<and> file_logical_bytes u = 10)"
  by code_simp

theorem complete_scan_counts_every_file_witness:
  "(\<Sum>f\<in>reached_files sample_view 1 ''/''. unat (len f)) = 10"
proof -
  have "fst (checked_metadata sample_view (Suc 0) ''/'') = Ok (sample_meta Directory_File 2 0)" by code_simp
  then show ?thesis
    using complete_scan_counts_every_file [OF sample_view_frozen surjective_pairing, of 0 "''/''" 9 9] sample_scan
    by (auto simp: sample_meta_def Let_def)
qed

end
