(* ===== verification/Base64.thy ===== *)
theory Base64
  imports Prelude "HOL-Library.Word"
begin

text \<open>
  The encoder that embeds the guest helper into the VM template (src/build.rs): bytes are
  8-bit words, groups are packed into a 32-bit word. The specification is a decoder that
  drops line breaks and reads groups of four characters.
\<close>

unbundle bit_operations_syntax

section \<open>The encoder\<close>

definition TABLE :: string where
  "TABLE = ''ABCDEFGHIJKLMNOPQRSTUVWXYZabcdefghijklmnopqrstuvwxyz0123456789+/''"

text \<open>\<open>slice::chunks\<close>, for a positive size.\<close>

function chunks :: "nat \<Rightarrow> 'a list \<Rightarrow> 'a list list" where
  "chunks n xs = (if n = 0 \<or> xs = [] then [] else take n xs # chunks n (drop n xs))"
  by pat_completeness auto
termination by (relation "measure (\<lambda>(n, xs). length xs)") auto

declare chunks.simps [simp del]

definition byte_or_zero :: "8 word list \<Rightarrow> nat \<Rightarrow> 32 word" where
  "byte_or_zero chunk i = (case get chunk i of None \<Rightarrow> 0 | Some b \<Rightarrow> ucast b)"

definition group_value :: "8 word list \<Rightarrow> 32 word" where
  "group_value chunk = push_bit 16 (byte_or_zero chunk 0) OR push_bit 8 (byte_or_zero chunk 1) OR byte_or_zero chunk 2"

definition table_char :: "32 word \<Rightarrow> nat \<Rightarrow> char" where
  "table_char v shift = TABLE ! unat (drop_bit shift v AND 63)"

definition encode_group :: "8 word list \<Rightarrow> string" where
  "encode_group chunk =
     (let v = group_value chunk in
      [table_char v 18, table_char v 12,
       if 1 < length chunk then table_char v 6 else CHR ''='',
       if 2 < length chunk then table_char v 0 else CHR ''=''])"

fun join_lines :: "string list \<Rightarrow> string" where
  "join_lines [] = []"
| "join_lines [l] = l"
| "join_lines (l # ls) = l @ CHR 0x0A # join_lines ls"

definition encode_base64 :: "8 word list \<Rightarrow> string" where
  "encode_base64 bytes = join_lines (chunks 76 (concat (map encode_group (chunks 3 bytes)))) @ [CHR 0x0A]"

section \<open>A decoder\<close>

fun table_index :: "string \<Rightarrow> char \<Rightarrow> nat option" where
  "table_index [] c = None"
| "table_index (d # ds) c = (if c = d then Some 0 else map_option Suc (table_index ds c))"

definition sextet :: "char \<Rightarrow> nat option" where
  "sextet c = table_index TABLE c"

definition bytes_of_group :: "nat \<Rightarrow> nat \<Rightarrow> nat \<Rightarrow> nat \<Rightarrow> 8 word list" where
  "bytes_of_group a b c d =
     (let n = ((a * 64 + b) * 64 + c) * 64 + d in [of_nat (n div 65536), of_nat (n div 256 mod 256), of_nat (n mod 256)])"

fun decode_groups :: "string \<Rightarrow> 8 word list option" where
  "decode_groups [] = Some []"
| "decode_groups (a # b # c # d # rest) =
     (case (sextet a, sextet b) of
        (Some i, Some j) \<Rightarrow>
          if d = CHR ''='' \<and> rest \<noteq> [] then None
          else if c = CHR ''='' \<and> d = CHR ''='' then Some (take 1 (bytes_of_group i j 0 0))
          else (case sextet c of
              None \<Rightarrow> None
            | Some k \<Rightarrow>
                if d = CHR ''='' then Some (take 2 (bytes_of_group i j k 0))
                else (case (sextet d, decode_groups rest) of
                    (Some l, Some bs) \<Rightarrow> Some (bytes_of_group i j k l @ bs)
                  | _ \<Rightarrow> None))
      | _ \<Rightarrow> None)"
| "decode_groups _ = None"

definition decode_base64 :: "string \<Rightarrow> 8 word list option" where
  "decode_base64 s = decode_groups (filter (\<lambda>c. c \<noteq> CHR 0x0A) s)"

section \<open>Arithmetic of a group\<close>

lemma push_or_eq_add: "x < 2 ^ n \<Longrightarrow> push_bit n y OR x = y * 2 ^ n + (x :: nat)"
proof -
  assume x: "x < 2 ^ n"
  then have "take_bit n x = x" by (simp add: take_bit_nat_eq_self)
  then have "\<not> bit x m" if "n \<le> m" for m using that by (metis bit_take_bit_iff linorder_not_less)
  then have "push_bit n y + x = push_bit n y OR x"
    by (intro disjunctive_add) (auto simp: bit_push_bit_iff)
  then show ?thesis by (simp add: push_bit_eq_mult)
qed

lemma byte_or_zero_less: "unat (byte_or_zero chunk i) < 256"
proof (cases "get chunk i")
  case (Some b)
  have "unat b < 2 ^ 8" using unsigned_less [of b] by simp
  with Some show ?thesis by (simp add: byte_or_zero_def unsigned_ucast_eq take_bit_eq_mod)
qed (simp add: byte_or_zero_def)

lemma unat_group_value:
  "unat (group_value chunk) = (unat (byte_or_zero chunk 0) * 256 + unat (byte_or_zero chunk 1)) * 256 + unat (byte_or_zero chunk 2)"
proof -
  let ?a = "unat (byte_or_zero chunk 0)" and ?b = "unat (byte_or_zero chunk 1)" and ?c = "unat (byte_or_zero chunk 2)"
  have less: "?a < 256" "?b < 256" "?c < 256" by (rule byte_or_zero_less)+
  have "unat (push_bit 16 (byte_or_zero chunk 0)) = push_bit 16 ?a" "unat (push_bit 8 (byte_or_zero chunk 1)) = push_bit 8 ?b"
    using less by (simp_all add: push_bit_eq_mult unat_word_ariths)
  moreover have "push_bit 8 ?b OR ?c = ?b * 256 + ?c" using push_or_eq_add [of ?c 8 ?b] less by simp
  moreover have "push_bit 16 ?a OR (?b * 256 + ?c) = ?a * 65536 + (?b * 256 + ?c)"
    using push_or_eq_add [of "?b * 256 + ?c" 16 ?a] less by simp
  ultimately show ?thesis by (simp add: group_value_def unsigned_or_eq)
qed

lemma unat_sextet_of: "unat (drop_bit k v AND 63) = unat (v :: 32 word) div 2 ^ k mod 64"
proof -
  have "drop_bit k v AND 63 = take_bit 6 (drop_bit k v)" by (simp add: take_bit_eq_mask mask_eq_exp_minus_1)
  moreover have "unat v < 2 ^ 32" using unsigned_less [of v] by simp
  ultimately show ?thesis by (simp only: unsigned_take_bit_eq unsigned_drop_bit_eq) (simp add: take_bit_eq_mod drop_bit_eq_div)
qed

lemma table_index_nth: "distinct ds \<Longrightarrow> i < length ds \<Longrightarrow> table_index ds (ds ! i) = Some i"
  by (induction ds arbitrary: i) (auto simp: nth_Cons split: nat.split)

lemma TABLE_facts: "length TABLE = 64" "distinct TABLE" "CHR ''='' \<notin> set TABLE" "CHR 0x0A \<notin> set TABLE"
  by code_simp+

lemma sextet_table_char: "sextet (table_char v k) = Some (unat v div 2 ^ k mod 64)"
  by (simp add: sextet_def table_char_def unat_sextet_of table_index_nth TABLE_facts)

lemma table_char_in: "table_char v k \<in> set TABLE"
  by (simp add: table_char_def unat_sextet_of TABLE_facts)

lemma table_char_neq [simp]: "table_char v k \<noteq> CHR ''=''" "table_char v k \<noteq> CHR 0x0A"
  using table_char_in [of v k] TABLE_facts by auto

section \<open>Decoding a group\<close>

lemma of_nat_unat_byte:
  assumes "i < length chunk"
  shows "of_nat (unat (byte_or_zero chunk i)) = chunk ! i"
proof -
  have "unat (chunk ! i) < 2 ^ 8" using unsigned_less [of "chunk ! i"] by simp
  then show ?thesis using assms by (simp add: byte_or_zero_def get_def unsigned_ucast_eq take_bit_eq_mod)
qed

lemma ucast_byte_or_zero: "i < length chunk \<Longrightarrow> ucast (byte_or_zero chunk i) = chunk ! i"
  using of_nat_unat_byte [of i chunk] by simp

lemma four_sextets:
  assumes "(n :: nat) < 64 * 64 * 64 * 64"
  shows "((n div 64 div 64 div 64 mod 64 * 64 + n div 64 div 64 mod 64) * 64 + n div 64 mod 64) * 64 + n mod 64 = n"
proof -
  have "n div 64 div 64 div 64 < 64" using assms by (simp add: less_mult_imp_div_less)
  then show ?thesis by (simp only: mod_less div_mult_mod_eq)
qed

lemma digits_of_group:
  fixes a b c :: nat
  assumes "a < 256" "b < 256" "c < 256" and n: "n = (a * 256 + b) * 256 + c"
  shows "((n div 2 ^ 18 mod 64 * 64 + n div 2 ^ 12 mod 64) * 64 + n div 2 ^ 6 mod 64) * 64 + n div 2 ^ 0 mod 64 = n"
    and "n div 65536 = a" "n div 256 mod 256 = b" "n mod 256 = c"
proof -
  have "n < 64 * 64 * 64 * 64" using assms by simp
  moreover have "n div 2 ^ 18 = n div 64 div 64 div 64" "n div 2 ^ 12 = n div 64 div 64"
    by (simp_all add: div_mult2_eq [symmetric])
  ultimately show "((n div 2 ^ 18 mod 64 * 64 + n div 2 ^ 12 mod 64) * 64 + n div 2 ^ 6 mod 64) * 64 + n div 2 ^ 0 mod 64 = n"
    using four_sextets [of n] by simp
  have q: "n div 256 = a * 256 + b" unfolding n by (subst div_mult_self3) (simp_all add: assms(3))
  show "n mod 256 = c" unfolding n using assms(3) by (simp only: mod_mult_self3 mod_less)
  show "n div 256 mod 256 = b" unfolding q using assms(2) by simp
  have "n div 65536 = n div 256 div 256" by (simp add: div_mult2_eq [symmetric])
  then show "n div 65536 = a" unfolding q using assms(2) by simp
qed

text \<open>The bytes that the four sextets of a group stand for.\<close>

lemma bytes_of_encoded:
  fixes chunk defines "n \<equiv> unat (group_value chunk)"
  shows "bytes_of_group (n div 2 ^ 18 mod 64) (n div 2 ^ 12 mod 64) (n div 2 ^ 6 mod 64) (n div 2 ^ 0 mod 64)
    = map (\<lambda>i. of_nat (unat (byte_or_zero chunk i))) [0, 1, 2]"
proof -
  note d = digits_of_group [OF byte_or_zero_less byte_or_zero_less byte_or_zero_less unat_group_value [of chunk]]
  show ?thesis unfolding n_def bytes_of_group_def Let_def d(1) d(2-4) by simp
qed

lemma unused_sextets:
  assumes "length chunk \<le> 2"
  shows "unat (group_value chunk) div 2 ^ 0 mod 64 = 0"
    and "length chunk \<le> 1 \<Longrightarrow> unat (group_value chunk) div 2 ^ 6 mod 64 = 0"
proof -
  have two: "byte_or_zero chunk 2 = 0" using assms by (simp add: byte_or_zero_def)
  have n: "unat (group_value chunk) = (unat (byte_or_zero chunk 0) * 1024 + unat (byte_or_zero chunk 1) * 4) * 64"
    unfolding unat_group_value two by simp
  show "unat (group_value chunk) div 2 ^ 0 mod 64 = 0" unfolding n by simp
  assume "length chunk \<le> 1"
  then have one: "byte_or_zero chunk 1 = 0" by (simp add: byte_or_zero_def)
  have m: "unat (group_value chunk) = unat (byte_or_zero chunk 0) * 16 * 64 * 64" unfolding n one by simp
  show "unat (group_value chunk) div 2 ^ 6 mod 64 = 0" unfolding m by simp
qed

lemma decode_group_full:
  assumes "length chunk = 3"
  shows "decode_groups (encode_group chunk @ rest) = map_option ((@) chunk) (decode_groups rest)"
proof -
  have "map (\<lambda>i. of_nat (unat (byte_or_zero chunk i))) [0, 1, 2] = chunk"
    using assms by (auto simp: ucast_byte_or_zero length_Suc_conv numeral_3_eq_3)
  with assms show ?thesis
    using bytes_of_encoded [of chunk]
    by (simp add: encode_group_def Let_def sextet_table_char split: option.split)
qed

lemma decode_group_last:
  assumes "chunk \<noteq> []" "length chunk < 3"
  shows "decode_groups (encode_group chunk) = Some chunk"
proof (cases "length chunk = 1")
  case True
  then have "take 1 (map (\<lambda>i. of_nat (unat (byte_or_zero chunk i))) [0, 1, 2]) = chunk"
    by (auto simp: ucast_byte_or_zero length_Suc_conv)
  with True bytes_of_encoded [of chunk] unused_sextets [of chunk] show ?thesis
    by (simp add: encode_group_def Let_def sextet_table_char)
next
  case False
  with assms have two: "length chunk = 2" by (simp add: less_Suc_eq numeral_3_eq_3 numeral_2_eq_2)
  then have "take 2 (map (\<lambda>i. of_nat (unat (byte_or_zero chunk i))) [0, 1, 2]) = chunk"
    by (auto simp: ucast_byte_or_zero length_Suc_conv numeral_2_eq_2)
  with two bytes_of_encoded [of chunk] unused_sextets [of chunk] show ?thesis
    by (simp add: encode_group_def Let_def sextet_table_char)
qed

lemma decode_encoded: "decode_groups (concat (map encode_group (chunks 3 bytes))) = Some bytes"
proof (induction "3 :: nat" bytes rule: chunks.induct)
  case (1 xs)
  show ?case
  proof (cases "xs = []")
    case False
    then have step: "chunks 3 xs = take 3 xs # chunks 3 (drop 3 xs)" by (simp add: chunks.simps [of 3 xs])
    show ?thesis
    proof (cases "length xs < 3")
      case True
      with False decode_group_last [of xs] show ?thesis unfolding step by (simp add: chunks.simps)
    next
      case long: False
      with 1 False decode_group_full [of "take 3 xs"] show ?thesis unfolding step by simp
    qed
  qed (simp add: chunks.simps)
qed

lemma concat_chunks: "0 < n \<Longrightarrow> concat (chunks n xs) = xs"
proof (induction n xs rule: chunks.induct)
  case (1 n xs)
  then show ?case by (subst chunks.simps) (auto simp: append_take_drop_id)
qed

lemma filter_join_lines: "filter (\<lambda>c. c \<noteq> CHR 0x0A) (join_lines ls) = concat (map (filter (\<lambda>c. c \<noteq> CHR 0x0A)) ls)"
  by (induction ls rule: join_lines.induct) auto

lemma encoded_chars: "c \<in> set (concat (map encode_group gs)) \<Longrightarrow> c \<in> insert (CHR ''='') (set TABLE)"
  using table_char_in by (auto simp: encode_group_def Let_def split: if_splits)

lemma split_on_lines:
  "c \<notin> set s \<Longrightarrow> split_on c s = [s]"
  "c \<notin> set s \<Longrightarrow> split_on c (s @ c # r) = s # split_on c r"
  by (induction s) auto

lemma lines_of_join: "\<forall>l\<in>set ls. CHR 0x0A \<notin> set l \<Longrightarrow> ls \<noteq> [] \<Longrightarrow> split_on (CHR 0x0A) (join_lines ls) = ls"
  by (induction ls rule: join_lines.induct) (auto simp: split_on_lines)

lemma chunks_length: "0 < n \<Longrightarrow> l \<in> set (chunks n xs) \<Longrightarrow> length l \<le> n \<and> set l \<subseteq> set xs"
proof (induction n xs rule: chunks.induct)
  case (1 n xs)
  then show ?case by (subst (asm) (2) chunks.simps) (auto split: if_splits dest: in_set_takeD in_set_dropD)
qed

section \<open>Properties\<close>

text \<open>
  C36. The embedded helper decodes to itself: decoding the encoder's text, its line breaks
  dropped, gives back the bytes, for every length and with either padding.
\<close>

theorem base64_round_trip: "decode_base64 (encode_base64 bytes) = Some bytes"
proof -
  let ?s = "concat (map encode_group (chunks 3 bytes))"
  have clean: "filter (\<lambda>c. c \<noteq> CHR 0x0A) l = l" if "set l \<subseteq> set ?s" for l
    using that encoded_chars [of _ "chunks 3 bytes"] TABLE_facts(4) by (auto simp: filter_id_conv)
  have "map (filter (\<lambda>c. c \<noteq> CHR 0x0A)) (chunks 76 ?s) = chunks 76 ?s"
    using chunks_length [of 76 _ ?s] clean by (intro map_idI) simp
  then have "filter (\<lambda>c. c \<noteq> CHR 0x0A) (encode_base64 bytes) = ?s"
    by (simp add: encode_base64_def filter_join_lines concat_chunks)
  then show ?thesis by (simp add: decode_base64_def decode_encoded)
qed

text \<open>
  The text fits the template's data section: it is lines of at most 76 characters of the
  base64 alphabet, each ended by a line feed.
\<close>

theorem base64_lines:
  "\<exists>ls. split_on (CHR 0x0A) (encode_base64 bytes) = ls @ [[]] \<and>
     (\<forall>l\<in>set ls. length l \<le> 76 \<and> set l \<subseteq> insert (CHR ''='') (set TABLE))"
proof -
  let ?s = "concat (map encode_group (chunks 3 bytes))" and ?ls = "chunks 76 (concat (map encode_group (chunks 3 bytes)))"
  have chars: "set ?s \<subseteq> insert (CHR ''='') (set TABLE)" using encoded_chars by blast
  have ls: "\<forall>l\<in>set ?ls. length l \<le> 76 \<and> set l \<subseteq> insert (CHR ''='') (set TABLE)"
    using chunks_length [of 76 _ ?s] chars by fastforce
  then have clean: "\<forall>l\<in>set (?ls @ [[]]). CHR 0x0A \<notin> set l" using TABLE_facts(4) by auto
  show ?thesis
  proof (cases "?ls = []")
    case True
    then show ?thesis by (intro exI [of _ "[[]]"]) (simp add: encode_base64_def)
  next
    case False
    have "join_lines (ls @ [[]]) = join_lines ls @ [CHR 0x0A]" if "ls \<noteq> []" for ls
      using that by (induction ls rule: join_lines.induct) auto
    then have "split_on (CHR 0x0A) (encode_base64 bytes) = ?ls @ [[]]"
      using lines_of_join [OF clean] False by (simp add: encode_base64_def)
    with ls show ?thesis by blast
  qed
qed

end
