(* ===== verification/Gateway.thy ===== *)
theory Gateway
  imports Utf8 Text
begin

text \<open>
  One exchange of the HTTPS gateway (src/src/gateway.rs): the checks of the configuration and
  of the Host header, the hop-by-hop headers, the collected upload, the streamed response and
  the request that goes upstream. A header map is the list of its entries with lower-case
  names, as hyper's names are. What hyper's parsers answer is a parameter.
\<close>

section \<open>Limits\<close>

definition MAX_CONFIG_BYTES :: nat where
  "MAX_CONFIG_BYTES = 64 * 1024"

definition MAX_BODY_BYTES :: nat where
  "MAX_BODY_BYTES = 8 * 1024 * 1024"

definition MAX_CONNECTIONS :: nat where
  "MAX_CONNECTIONS = 32"

definition EXCHANGE_BUFFER_BYTES :: nat where
  "EXCHANGE_BUFFER_BYTES = 2 * MAX_BODY_BYTES"

definition BUFFER_BUDGET_BYTES :: nat where
  "BUFFER_BUDGET_BYTES = 128 * 1024 * 1024"

definition MAX_EXCHANGES :: nat where
  "MAX_EXCHANGES = BUFFER_BUDGET_BYTES div EXCHANGE_BUFFER_BYTES"

definition EXCHANGE_TIMEOUT :: nat where
  "EXCHANGE_TIMEOUT = 30000"

definition HANDSHAKE_TIMEOUT :: nat where
  "HANDSHAKE_TIMEOUT = 5000"

section \<open>Configuration\<close>

record gateway_config =
  listen_port :: nat
  routes :: "(string \<times> nat) list"

definition default_port :: nat where
  "default_port = 8443"

definition valid_label :: "string \<Rightarrow> bool" where
  "valid_label label \<longleftrightarrow>
     label \<noteq> [] \<and> length label \<le> 63 \<and> \<not> starts_with label ''-'' \<and> \<not> ends_with label ''-''
     \<and> list_all (\<lambda>b. is_ascii_lowercase b \<or> is_ascii_digit b \<or> b = CHR ''-'') label"

definition valid_hostname :: "string \<Rightarrow> bool" where
  "valid_hostname host \<longleftrightarrow>
     length host \<le> 253 \<and> ends_with host ''.localhost'' \<and> list_all valid_label (split_on (CHR ''.'') host)"

definition validate_gateway :: "gateway_config \<Rightarrow> (unit, string) result" where
  "validate_gateway c =
     and_then (ensure (1024 \<le> listen_port c) ''gateway listen_port must be between 1024 and 65535'') (\<lambda>_.
     and_then (ensure (routes c \<noteq> [] \<and> length (routes c) \<le> 32) ''configure between 1 and 32 gateway routes'') (\<lambda>_.
     for_each (\<lambda>(host, port).
       and_then (ensure (valid_hostname host) ''invalid route: use lowercase names such as app.localhost'') (\<lambda>_.
       ensure (0 < port \<and> port \<noteq> listen_port c)
         ''route needs a nonzero upstream port different from listen_port''))
       (routes c)))"

text \<open>The bytes read, at most one more than the limit, and serde's decoder.\<close>

definition read_gateway :: "(string \<Rightarrow> gateway_config option) \<Rightarrow> string \<Rightarrow> (gateway_config, string) result" where
  "read_gateway decode contents =
     (let bytes = take (MAX_CONFIG_BYTES + 1) contents in
      and_then (ensure (length bytes \<le> MAX_CONFIG_BYTES) ''gateway configuration exceeds 64 KiB'') (\<lambda>_.
      and_then (ok_or (decode bytes) ''parse gateway JSON configuration'') (\<lambda>c.
      and_then (validate_gateway c) (\<lambda>_. Ok c))))"

section \<open>Headers\<close>

type_synonym header_map = "(string \<times> string) list"

definition get_all :: "string \<Rightarrow> header_map \<Rightarrow> string list" where
  "get_all name hs = map snd (filter (\<lambda>h. fst h = name) hs)"

definition remove_header :: "string \<Rightarrow> header_map \<Rightarrow> header_map" where
  "remove_header name hs = filter (\<lambda>h. fst h \<noteq> name) hs"

definition insert_header :: "string \<Rightarrow> string \<Rightarrow> header_map \<Rightarrow> header_map" where
  "insert_header name contents hs = remove_header name hs @ [(name, contents)]"

text \<open>An authority as hyper parses it: the host as written and the port, if it has one.\<close>

record authority =
  authority_host :: string
  authority_port :: "nat option"

record hyper =
  header_text :: "string \<Rightarrow> string option"
  header_name :: "string \<Rightarrow> string option"
  parse_authority :: "string \<Rightarrow> authority option"
  allocates :: "nat \<Rightarrow> bool"

definition lower_byte :: "char \<Rightarrow> char" where
  "lower_byte c = (if is_ascii_uppercase c then char_of (byte c + 32) else c)"

definition request_host :: "hyper \<Rightarrow> header_map \<Rightarrow> nat \<Rightarrow> string option" where
  "request_host hy hs port =
     (case get_all ''host'' hs of
        [value] \<Rightarrow>
          Option.bind (header_text hy value) (\<lambda>t.
          if CHR ''@'' \<in> set t then None
          else Option.bind (parse_authority hy t) (\<lambda>a.
            if authority_port a \<noteq> None \<and> authority_port a \<noteq> Some port then None
            else let host = map lower_byte (authority_host a) in if valid_hostname host then Some host else None))
      | _ \<Rightarrow> None)"

definition connection_names :: "hyper \<Rightarrow> header_map \<Rightarrow> string list" where
  "connection_names hy hs =
     List.map_filter (\<lambda>name. header_name hy (trim name))
       (concat (map (split_on (CHR '','')) (List.map_filter (header_text hy) (get_all ''connection'' hs))))"

definition hop_headers :: "string list" where
  "hop_headers = [''connection'', ''keep-alive'', ''proxy-authenticate'', ''proxy-authorization'', ''proxy-connection'',
     ''te'', ''trailer'', ''transfer-encoding'', ''upgrade'']"

definition strip_hop_headers :: "hyper \<Rightarrow> header_map \<Rightarrow> header_map" where
  "strip_hop_headers hy hs = fold remove_header hop_headers (fold remove_header (connection_names hy hs) hs)"

section \<open>Bodies\<close>

datatype frame = Data string | Trailers

text \<open>What polling a body finds, until its end: nothing yet, a frame or an error.\<close>

datatype poll = Not_Ready | Got frame | Broken_Body string

datatype polled = Pending | Ended | Frame_Data string | Body_Error string

record gateway_body =
  body_events :: "poll list"
  remaining :: nat
  body_deadline :: "nat option"

definition buffered :: "string \<Rightarrow> gateway_body" where
  "buffered bytes =
     \<lparr>body_events = (if bytes = [] then [] else [Got (Data bytes)]), remaining = MAX_BODY_BYTES, body_deadline = None\<rparr>"

definition streaming :: "poll list \<Rightarrow> nat \<Rightarrow> gateway_body" where
  "streaming events deadline = \<lparr>body_events = events, remaining = MAX_BODY_BYTES, body_deadline = Some deadline\<rparr>"

fun poll_events :: "nat \<Rightarrow> poll list \<Rightarrow> polled \<times> nat \<times> poll list" where
  "poll_events room [] = (Ended, room, [])"
| "poll_events room (Not_Ready # es) = (Pending, room, es)"
| "poll_events room (Broken_Body e # es) = (Body_Error e, room, es)"
| "poll_events room (Got Trailers # es) = poll_events room es"
| "poll_events room (Got (Data bytes) # es) =
     (if room < length bytes then (Body_Error ''body exceeds 8 MiB'', room, es)
      else (Frame_Data bytes, room - length bytes, es))"

definition poll_frame :: "nat \<Rightarrow> gateway_body \<Rightarrow> polled \<times> gateway_body" where
  "poll_frame time b =
     (if (case body_deadline b of None \<Rightarrow> False | Some d \<Rightarrow> d \<le> time)
      then (Body_Error ''gateway exchange exceeded 30 seconds'', b)
      else let (p, room, es) = poll_events (remaining b) (body_events b) in (p, b\<lparr>remaining := room, body_events := es\<rparr>))"

text \<open>
  The upload: \<open>cap\<close> is the capacity of the buffer \<open>bytes\<close>. Frames that are not ready only
  suspend the loop.
\<close>

definition grown :: "nat \<Rightarrow> nat \<Rightarrow> nat" where
  "grown cap required = min (max (max (cap * 2) 4096) required) MAX_BODY_BYTES"

fun collect_from :: "hyper \<Rightarrow> nat \<Rightarrow> string \<Rightarrow> poll list \<Rightarrow> (string \<times> nat, string) result" where
  "collect_from hy cap bytes [] = Ok (bytes, cap)"
| "collect_from hy cap bytes (Not_Ready # es) = collect_from hy cap bytes es"
| "collect_from hy cap bytes (Broken_Body e # es) = Err ''read body frame''"
| "collect_from hy cap bytes (Got Trailers # es) = collect_from hy cap bytes es"
| "collect_from hy cap bytes (Got (Data chunk) # es) =
     and_then (ensure (length chunk \<le> MAX_BODY_BYTES - length bytes) ''body exceeds 8 MiB'') (\<lambda>_.
     let required = length bytes + length chunk in
     if cap < required then
       and_then (ensure (allocates hy (grown cap required - length bytes)) ''allocate body buffer'') (\<lambda>_.
       collect_from hy (grown cap required) (bytes @ chunk) es)
     else collect_from hy cap (bytes @ chunk) es)"

definition collect_body :: "hyper \<Rightarrow> poll list \<Rightarrow> (string, string) result" where
  "collect_body hy es = map_ok fst (collect_from hy 0 [] es)"

section \<open>The exchange\<close>

record request =
  http_method :: string
  uri_scheme :: "string option"
  uri_authority :: "string option"
  uri_path :: string
  path_and_query :: "string option"
  request_headers :: header_map
  request_body :: "poll list"

record upstream_request =
  upstream_method :: string
  upstream_uri :: string
  upstream_headers :: header_map
  upstream_body :: gateway_body

record upstream_response =
  upstream_status :: nat
  response_fields :: header_map
  response_events :: "poll list"
  size_upper :: "nat option"

record gateway_reply =
  reply_status :: nat
  reply_headers :: header_map
  reply_body :: gateway_body

definition gateway_response :: "nat \<Rightarrow> string \<Rightarrow> gateway_reply" where
  "gateway_response status message =
     \<lparr>reply_status = status,
      reply_headers = insert_header ''connection'' ''close'' (insert_header ''content-type'' ''text/plain; charset=utf-8'' []),
      reply_body = buffered message\<rparr>"

definition gateway_exchange ::
    "hyper \<Rightarrow> (upstream_response, string) result \<Rightarrow> bool \<Rightarrow> nat \<Rightarrow> (gateway_reply, string) result" where
  "gateway_exchange hy answer is_head deadline =
     and_then answer (\<lambda>r.
     and_then (ensure (upstream_status r \<noteq> 101) ''upstream protocol upgrades are not supported'') (\<lambda>_.
     and_then (ensure (is_head \<or> upstream_status r = 304
         \<or> (case size_upper r of None \<Rightarrow> True | Some n \<Rightarrow> n \<le> MAX_BODY_BYTES)) ''upstream body exceeds 8 MiB'') (\<lambda>_.
     Ok \<lparr>reply_status = upstream_status r, reply_headers = strip_hop_headers hy (response_fields r),
         reply_body = streaming (response_events r) deadline\<rparr>)))"

definition upstream_fields :: "hyper \<Rightarrow> nat \<Rightarrow> header_map \<Rightarrow> header_map" where
  "upstream_fields hy port hs =
     (let host_header = hd (get_all ''host'' hs);
          hs = remove_header ''forwarded'' (remove_header ''content-length'' (strip_hop_headers hy hs));
          hs = insert_header ''x-forwarded-host'' host_header (insert_header ''host'' host_header hs) in
      insert_header ''x-forwarded-port'' (decimal port)
        (insert_header ''x-forwarded-for'' ''127.0.0.1'' (insert_header ''x-forwarded-proto'' ''https'' hs)))"

text \<open>
  What goes upstream, if anything, and the reply. The connection to the upstream is the
  function \<open>upstream\<close>.
\<close>

definition forward ::
    "hyper \<Rightarrow> (upstream_request \<Rightarrow> (upstream_response, string) result) \<Rightarrow> gateway_config \<Rightarrow> string \<Rightarrow> nat \<Rightarrow> request \<Rightarrow>
     upstream_request option \<times> gateway_reply" where
  "forward hy upstream c sni deadline r =
     (let hs = request_headers r in
      if http_method r = ''CONNECT'' \<or> get_all ''upgrade'' hs \<noteq> []
      then (None, gateway_response 501 (''CONNECT and protocol upgrades are not supported'' @ [CHR 0x0A]))
      else if uri_scheme r \<noteq> None \<or> uri_authority r \<noteq> None \<or> \<not> starts_with (uri_path r) ''/''
      then (None, gateway_response 400 (''use an origin-form request target'' @ [CHR 0x0A]))
      else case request_host hy hs (listen_port c) of
        None \<Rightarrow> (None, gateway_response 400 (''provide one valid Host header with the gateway port'' @ [CHR 0x0A]))
      | Some host \<Rightarrow>
          (case (if host = sni then map_of (routes c) host else None) of
             None \<Rightarrow> (None, gateway_response 421 (''Host must match the configured TLS server name'' @ [CHR 0x0A]))
           | Some port \<Rightarrow>
               (case collect_body hy (request_body r) of
                  Err e \<Rightarrow> (None, gateway_response 413 (''request body failed or exceeds 8 MiB'' @ [CHR 0x0A]))
                | Ok body \<Rightarrow>
                    let target = (case path_and_query r of None \<Rightarrow> ''/'' | Some p \<Rightarrow> p);
                        sent = \<lparr>upstream_method = http_method r, upstream_uri = ''http://127.0.0.1:'' @ decimal port @ target,
                          upstream_headers = upstream_fields hy (listen_port c) hs, upstream_body = buffered body\<rparr> in
                    (Some sent,
                     case gateway_exchange hy (upstream sent) (http_method r = ''HEAD'') deadline of
                       Ok reply \<Rightarrow> reply
                     | Err e \<Rightarrow> gateway_response 502 (''upstream unavailable or response exceeds 8 MiB'' @ [CHR 0x0A])))))"

text \<open>
  The handler: a request for which no permit is left is refused, and one that is not forwarded
  in time is given up; the deadline of the connection moves with each accepted request.
\<close>

definition handle ::
    "hyper \<Rightarrow> (upstream_request \<Rightarrow> (upstream_response, string) result) \<Rightarrow> gateway_config \<Rightarrow> string \<Rightarrow> bool \<Rightarrow> nat \<Rightarrow> nat \<Rightarrow>
     request \<Rightarrow> nat option \<times> gateway_reply" where
  "handle hy upstream c sni permit time duration r =
     (if \<not> permit
      then (None, gateway_response 503 (''gateway request capacity is busy; retry when requests complete'' @ [CHR 0x0A]))
      else let deadline = time + EXCHANGE_TIMEOUT in
        (Some (deadline + HANDSHAKE_TIMEOUT),
         if duration < EXCHANGE_TIMEOUT then snd (forward hy upstream c sni deadline r)
         else gateway_response 504 (''gateway exchange exceeded 30 seconds'' @ [CHR 0x0A])))"

section \<open>Header maps\<close>

lemma remove_header_keeps: "h \<in> set (remove_header name hs) \<longleftrightarrow> h \<in> set hs \<and> fst h \<noteq> name"
  by (auto simp: remove_header_def)

lemma insert_header_keeps: "h \<in> set (insert_header name v hs) \<longleftrightarrow> h = (name, v) \<or> h \<in> set hs \<and> fst h \<noteq> name"
  by (auto simp: insert_header_def remove_header_keeps)

lemma fold_remove_header: "h \<in> set (fold remove_header names hs) \<longleftrightarrow> h \<in> set hs \<and> fst h \<notin> set names"
  by (induction names arbitrary: hs) (auto simp: remove_header_keeps)

lemma fold_insert_header:
  "distinct (map fst fs) \<Longrightarrow> h \<in> set (fold (\<lambda>(n, v). insert_header n v) fs hs) \<longleftrightarrow>
     h \<in> set fs \<or> h \<in> set hs \<and> fst h \<notin> fst ` set fs"
  by (induction fs arbitrary: hs) (auto simp: insert_header_keeps split: prod.splits)

lemmas header_simps = remove_header_keeps insert_header_keeps fold_remove_header

lemma strip_hop_headers_keeps:
  "h \<in> set (strip_hop_headers hy hs) \<longleftrightarrow> h \<in> set hs \<and> fst h \<notin> set hop_headers \<and> fst h \<notin> set (connection_names hy hs)"
  by (auto simp: strip_hop_headers_def header_simps)

lemma get_all_remove: "get_all name (remove_header other hs) = (if name = other then [] else get_all name hs)"
  by (auto simp: get_all_def remove_header_def intro!: arg_cong [where f = "map snd"] filter_cong)

lemma get_all_insert: "get_all name (insert_header other v hs) = (if name = other then [v] else get_all name hs)"
  by (auto simp: insert_header_def get_all_def remove_header_def intro!: arg_cong [where f = "map snd"] filter_cong)

text \<open>The fields that the gateway sets itself.\<close>

definition own_fields :: "string \<Rightarrow> nat \<Rightarrow> header_map" where
  "own_fields host_header port =
     [(''host'', host_header), (''x-forwarded-host'', host_header), (''x-forwarded-proto'', ''https''),
      (''x-forwarded-for'', ''127.0.0.1''), (''x-forwarded-port'', decimal port)]"

lemma upstream_fields_keeps:
  "h \<in> set (upstream_fields hy port hs) \<longleftrightarrow>
     h \<in> set (own_fields (hd (get_all ''host'' hs)) port)
     \<or> h \<in> set (strip_hop_headers hy hs) \<and> fst h \<notin> {''content-length'', ''forwarded''}
       \<and> fst h \<notin> fst ` set (own_fields (hd (get_all ''host'' hs)) port)"
proof -
  let ?own = "own_fields (hd (get_all ''host'' hs)) port"
  have "upstream_fields hy port hs = fold (\<lambda>(n, v). insert_header n v) ?own
      (remove_header ''forwarded'' (remove_header ''content-length'' (strip_hop_headers hy hs)))"
    by (simp add: upstream_fields_def own_fields_def Let_def)
  moreover have "distinct (map fst ?own)" by (simp add: own_fields_def)
  ultimately show ?thesis by (simp only: fold_insert_header remove_header_keeps) blast
qed

section \<open>Bodies\<close>

fun data_of :: "poll list \<Rightarrow> string" where
  "data_of [] = []"
| "data_of (Got (Data bytes) # es) = bytes @ data_of es"
| "data_of (e # es) = data_of es"

fun is_broken :: "poll \<Rightarrow> bool" where
  "is_broken (Broken_Body e) = True"
| "is_broken _ = False"

text \<open>A buffer grows to what is needed and never past the body limit.\<close>

lemma grown_bounds:
  "cap < required \<Longrightarrow> required \<le> MAX_BODY_BYTES \<Longrightarrow> required \<le> grown cap required \<and> grown cap required \<le> MAX_BODY_BYTES"
  by (simp add: grown_def)

lemma collect_from_Ok:
  "length bytes \<le> MAX_BODY_BYTES \<Longrightarrow> collect_from hy cap bytes es = Ok (b, cap') \<Longrightarrow>
     b = bytes @ data_of es \<and> length b \<le> MAX_BODY_BYTES \<and> \<not> list_ex is_broken es"
proof (induction hy cap bytes es rule: collect_from.induct)
  case (5 hy cap bytes chunk es)
  have fits: "length (bytes @ chunk) \<le> MAX_BODY_BYTES" using 5(3,4) by auto
  then show ?case using 5(1,2,4) by (auto simp: Let_def split: if_splits)
qed auto

lemma collect_from_capacity:
  "cap \<le> MAX_BODY_BYTES \<Longrightarrow> length bytes \<le> MAX_BODY_BYTES \<Longrightarrow> collect_from hy cap bytes es = Ok (b, cap') \<Longrightarrow> cap' \<le> MAX_BODY_BYTES"
proof (induction hy cap bytes es rule: collect_from.induct)
  case (5 hy cap bytes chunk es)
  have fits: "length (bytes @ chunk) \<le> MAX_BODY_BYTES" using 5(4,5) by auto
  have "grown cap (length bytes + length chunk) \<le> MAX_BODY_BYTES" by (simp add: grown_def)
  with fits show ?case using 5(1,2,3,5) by (auto simp: Let_def split: if_splits)
qed auto

lemma collect_from_accepts:
  "(\<And>n. allocates hy n) \<Longrightarrow> \<not> list_ex is_broken es \<Longrightarrow> length bytes + length (data_of es) \<le> MAX_BODY_BYTES \<Longrightarrow>
     is_ok (collect_from hy cap bytes es)"
proof (induction hy cap bytes es rule: collect_from.induct)
  case (5 hy cap bytes chunk es)
  have "ensure (length chunk \<le> MAX_BODY_BYTES - length bytes) ''body exceeds 8 MiB'' = Ok ()" using 5(5) by simp
  with 5(1,2) [OF this refl] 5(3-5) show ?case by (simp add: Let_def)
qed simp_all

text \<open>The bytes of the frames that were delivered.\<close>

fun delivered :: "polled list \<Rightarrow> string" where
  "delivered [] = []"
| "delivered (Frame_Data b # ps) = b @ delivered ps"
| "delivered (p # ps) = delivered ps"

lemma poll_events_bound:
  "poll_events room es = (p, room', es') \<Longrightarrow>
     room' + length (delivered [p]) = room \<and> (p = Ended \<longrightarrow> data_of es = [])
     \<and> ((\<exists>e. p = Body_Error e) \<or> data_of es = delivered [p] @ data_of es')"
  by (induction room es rule: poll_events.induct) (auto split: if_splits)

text \<open>Polling a body at given times until it ends or fails, and the bytes that were delivered.\<close>

fun drain :: "nat list \<Rightarrow> gateway_body \<Rightarrow> polled list" where
  "drain [] b = []"
| "drain (t # ts) b =
     (case poll_frame t b of (p, b') \<Rightarrow> p # (case p of Ended \<Rightarrow> [] | Body_Error e \<Rightarrow> [] | _ \<Rightarrow> drain ts b'))"

lemma drain_bounded:
  "length (delivered (drain ts b)) \<le> remaining b \<and> (\<exists>rest. data_of (body_events b) = delivered (drain ts b) @ rest)
   \<and> (Ended \<in> set (drain ts b) \<longrightarrow> delivered (drain ts b) = data_of (body_events b))"
proof (induction ts arbitrary: b)
  case (Cons t ts)
  show ?case
  proof (cases "case body_deadline b of None \<Rightarrow> False | Some d \<Rightarrow> d \<le> t")
    case True
    then show ?thesis by (simp add: poll_frame_def)
  next
    case False
    obtain p room es where p: "poll_events (remaining b) (body_events b) = (p, room, es)" by (metis prod_cases3)
    let ?b = "b\<lparr>remaining := room, body_events := es\<rparr>"
    have poll: "poll_frame t b = (p, ?b)" using False p by (simp add: poll_frame_def)
    show ?thesis using Cons.IH [of ?b] poll_events_bound [OF p] poll by (cases p) auto
  qed
qed simp

section \<open>What is sent upstream\<close>

lemma forward_SomeD:
  assumes "forward hy upstream c sni deadline r = (Some sent, reply)"
  shows "\<exists>port body. http_method r \<noteq> ''CONNECT'' \<and> get_all ''upgrade'' (request_headers r) = [] \<and> uri_scheme r = None
    \<and> uri_authority r = None \<and> starts_with (uri_path r) ''/'' \<and> request_host hy (request_headers r) (listen_port c) = Some sni
    \<and> map_of (routes c) sni = Some port \<and> collect_body hy (request_body r) = Ok body
    \<and> sent = \<lparr>upstream_method = http_method r,
        upstream_uri = ''http://127.0.0.1:'' @ decimal port @ (case path_and_query r of None \<Rightarrow> ''/'' | Some p \<Rightarrow> p),
        upstream_headers = upstream_fields hy (listen_port c) (request_headers r), upstream_body = buffered body\<rparr>"
  using assms unfolding forward_def Let_def by (auto split: if_splits option.splits result.splits)

lemma request_host_single:
  "request_host hy hs port = Some host \<Longrightarrow> \<exists>v t a. get_all ''host'' hs = [v] \<and> header_text hy v = Some t \<and> CHR ''@'' \<notin> set t
     \<and> parse_authority hy t = Some a \<and> (authority_port a = None \<or> authority_port a = Some port)
     \<and> host = map lower_byte (authority_host a) \<and> valid_hostname host"
  by (auto simp: request_host_def Let_def bind_eq_Some_conv split: list.splits if_splits)

lemma collect_body_iff:
  "collect_body hy es = Ok body \<longleftrightarrow> (\<exists>cap. collect_from hy 0 [] es = Ok (body, cap))"
  by (auto simp: collect_body_def)

lemma get_all_upstream_host: "get_all ''host'' hs = [v] \<Longrightarrow> get_all ''host'' (upstream_fields hy port hs) = [v]"
  by (simp add: upstream_fields_def Let_def get_all_insert)

section \<open>Properties\<close>


text \<open>hyper's parsers on plain text, and a request with headers of every sort.\<close>

definition sample_hyper :: hyper where
  "sample_hyper = \<lparr>header_text = Some, header_name = (\<lambda>n. Some (map lower_byte n)),
     parse_authority = (\<lambda>t. Some (case split_once (CHR '':'') t of
        None \<Rightarrow> \<lparr>authority_host = t, authority_port = None\<rparr>
      | Some (h, p) \<Rightarrow> \<lparr>authority_host = h, authority_port = parse_unsigned 16 p\<rparr>)), allocates = \<lambda>_. True\<rparr>"

definition sample_gateway :: gateway_config where
  "sample_gateway = \<lparr>listen_port = 8443, routes = [(''app.localhost'', 3000)]\<rparr>"

definition sample_request :: request where
  "sample_request = \<lparr>http_method = ''POST'', uri_scheme = None, uri_authority = None, uri_path = ''/a'', path_and_query = Some ''/a?b'',
     request_headers = [(''host'', ''App.localhost:8443''), (''connection'', ''close, X-Secret''), (''x-secret'', ''1''),
       (''x-forwarded-for'', ''10.0.0.1''), (''accept'', ''*/*'')],
     request_body = [Got (Data ''ab''), Not_Ready, Got (Data ''c''), Got Trailers]\<rparr>"

definition no_upstream :: "upstream_request \<Rightarrow> (upstream_response, string) result" where
  "no_upstream r = Err ''refused''"

lemma sample_forwards:
  "fst (forward sample_hyper no_upstream sample_gateway ''app.localhost'' 0 sample_request) \<noteq> None"
  by code_simp


text \<open>
  C37. An upload is forwarded whole or not at all: as long as memory can be allocated, collecting
  a body succeeds exactly when no frame failed and its data, trailers left out, has at most
  8 MiB, and then it is that data.
\<close>

theorem upload_is_whole:
  assumes "\<And>n. allocates hy n"
  shows "collect_body hy es = Ok body \<longleftrightarrow>
    \<not> list_ex is_broken es \<and> length (data_of es) \<le> MAX_BODY_BYTES \<and> body = data_of es"
proof -
  have "is_ok (collect_from hy 0 [] es)" if "\<not> list_ex is_broken es" "length (data_of es) \<le> MAX_BODY_BYTES"
    using collect_from_accepts [of hy es "[]" 0] assms that by simp
  then show ?thesis
    using collect_from_Ok [of "[]" hy 0 es] by (auto simp: collect_body_iff is_ok_iff)
qed

theorem upload_is_whole_witness:
  "collect_body sample_hyper (request_body sample_request) = Ok ''abc''"
proof -
  have "allocates sample_hyper n" for n by (simp add: sample_hyper_def)
  from upload_is_whole [OF this] show ?thesis by (simp add: sample_request_def MAX_BODY_BYTES_def)
qed

text \<open>
  C38. A streamed reply is a bounded part of what the application sent: whenever its body is
  polled, the bytes delivered are the first bytes of the data, at most 8 MiB of them, and the
  body ends without an error only when all of it was delivered; what is not delivered ends in
  an error, which closes the connection.
\<close>

theorem streamed_reply_is_bounded_prefix:
  "length (delivered (drain ts (streaming events deadline))) \<le> MAX_BODY_BYTES
   \<and> (\<exists>rest. data_of events = delivered (drain ts (streaming events deadline)) @ rest)
   \<and> (Ended \<in> set (drain ts (streaming events deadline)) \<longrightarrow> delivered (drain ts (streaming events deadline)) = data_of events)"
  using drain_bounded [of ts "streaming events deadline"] by (simp add: streaming_def)

theorem streamed_reply_is_bounded_prefix_witness:
  "delivered (drain [0, 0, 0] (streaming [Got (Data ''ab''), Got Trailers, Got (Data ''c'')] 30000)) = ''abc''"
proof -
  have "Ended \<in> set (drain [0, 0, 0] (streaming [Got (Data ''ab''), Got Trailers, Got (Data ''c'')] 30000))"
    by (simp add: streaming_def poll_frame_def MAX_BODY_BYTES_def)
  with streamed_reply_is_bounded_prefix [of "[0, 0, 0]" "[Got (Data ''ab''), Got Trailers, Got (Data ''c'')]" 30000]
  show ?thesis by simp
qed

end
