(* ===== verification/Machine.thy ===== *)
theory Machine
  imports Prelude
begin

text \<open>
  Event machines: what the components with interleaved events share. A machine has a partial
  step function, the run of a list of events and the set of states that events can reach.
\<close>

locale event_machine =
  fixes step :: "'ev \<Rightarrow> 's \<Rightarrow> 's option"
    and run :: "'ev list \<Rightarrow> 's \<Rightarrow> 's option"
    and reachable :: "'s \<Rightarrow> bool"
  assumes run_Nil: "run [] s = Some s"
    and run_Cons: "run (ev # evs) s = (case step ev s of None \<Rightarrow> None | Some s' \<Rightarrow> run evs s')"
    and reachable_step: "reachable s \<Longrightarrow> step ev s = Some s' \<Longrightarrow> reachable s'"
begin

text \<open>What every event keeps, every run keeps.\<close>

lemma run_invariant:
  assumes "\<And>ev s s'. P s \<Longrightarrow> step ev s = Some s' \<Longrightarrow> P s'"
  shows "run evs s = Some s' \<Longrightarrow> P s \<Longrightarrow> P s'"
proof (induction evs arbitrary: s)
  case Nil
  then show ?case by (simp add: run_Nil)
next
  case (Cons ev evs)
  then obtain s1 where s1: "step ev s = Some s1" "run evs s1 = Some s'" by (auto simp: run_Cons split: option.splits)
  show ?case by (rule Cons.IH [OF s1(2) assms [OF Cons.prems(2) s1(1)]])
qed

lemma run_reachable: "run evs s = Some s' \<Longrightarrow> reachable s \<Longrightarrow> reachable s'"
  by (rule run_invariant [of reachable, OF reachable_step])

lemma run_step:
  assumes "step ev s = Some s1" "run evs s1 = Some s'"
  shows "run (ev # evs) s = Some s'"
  using assms by (simp add: run_Cons)

lemma run_one: "step ev s = Some s' \<Longrightarrow> run [ev] s = Some s'"
  by (simp add: run_Cons run_Nil)

end

end
