(* ===== verification/Gateway_Server.thy ===== *)
theory Gateway_Server
  imports Gateway Machine
begin

text \<open>
  The concurrency of the gateway (src/src/gateway.rs): the accept loop with its connection
  permits, the exchange permits and who keeps them, the buffers that an exchange may hold, and
  shutdown. The executor may run the enabled events in any order.
\<close>

section \<open>State and events\<close>

text \<open>
  A live exchange: the number of clones of its reservation (the handler, the upload's body and
  bytes, the reply's body) and the capacities of the upload buffer and of the one it replaces
  while it grows.
\<close>

record live_exchange =
  ident :: nat
  holders :: nat
  buffer :: nat
  old_buffer :: nat

record server =
  accepting :: bool
  shutdown_requested :: bool
  connections :: "nat list"
  exchanges :: "live_exchange list"

datatype server_event =
    Accept nat
  | Close nat
  | Request_Arrives nat nat
  | Clone_Reservation nat
  | Release_Reservation nat
  | Grow_Buffer nat nat
  | Free_Old_Buffer nat
  | Request_Shutdown
  | Stop_Accepting
  | Abort_Connections

definition server_start :: server where
  "server_start = \<lparr>accepting = True, shutdown_requested = False, connections = [], exchanges = []\<rparr>"

text \<open>\<open>try_acquire_owned\<close> on a semaphore with this many permits.\<close>

definition try_acquire :: "nat \<Rightarrow> 'a list \<Rightarrow> bool" where
  "try_acquire permits held \<longleftrightarrow> length held < permits"

definition find_exchange :: "nat \<Rightarrow> server \<Rightarrow> live_exchange option" where
  "find_exchange e s = List.find (\<lambda>x. ident x = e) (exchanges s)"

definition update_exchange :: "nat \<Rightarrow> (live_exchange \<Rightarrow> live_exchange) \<Rightarrow> server \<Rightarrow> server" where
  "update_exchange e f s = s\<lparr>exchanges := map (\<lambda>x. if ident x = e then f x else x) (exchanges s)\<rparr>"

text \<open>The permit goes back when the last clone is dropped.\<close>

definition drop_unheld :: "server \<Rightarrow> server" where
  "drop_unheld s = s\<lparr>exchanges := filter (\<lambda>x. 0 < holders x) (exchanges s)\<rparr>"

text \<open>
  The effect of an event, None when it cannot happen. A connection without a permit is dropped
  at once, a request without a permit is answered 503; both leave the state alone. The biased
  select of the loop takes a requested shutdown before a waiting connection.
\<close>

fun server_next :: "server_event \<Rightarrow> server \<Rightarrow> server option" where
  "server_next (Accept c) s =
     (if accepting s \<and> \<not> shutdown_requested s \<and> c \<notin> set (connections s)
      then Some (if try_acquire MAX_CONNECTIONS (connections s) then s\<lparr>connections := c # connections s\<rparr> else s)
      else None)"
| "server_next (Close c) s =
     (if c \<in> set (connections s) then Some (s\<lparr>connections := remove1 c (connections s)\<rparr>) else None)"
| "server_next (Request_Arrives c e) s =
     (if c \<in> set (connections s) \<and> e \<notin> ident ` set (exchanges s)
      then Some (if try_acquire MAX_EXCHANGES (exchanges s)
        then s\<lparr>exchanges := \<lparr>ident = e, holders = 1, buffer = 0, old_buffer = 0\<rparr> # exchanges s\<rparr> else s)
      else None)"
| "server_next (Clone_Reservation e) s =
     (case find_exchange e s of None \<Rightarrow> None
      | Some x \<Rightarrow> Some (update_exchange e (\<lambda>x. x\<lparr>holders := holders x + 1\<rparr>) s))"
| "server_next (Release_Reservation e) s =
     (case find_exchange e s of None \<Rightarrow> None
      | Some x \<Rightarrow> Some (drop_unheld (update_exchange e (\<lambda>x. x\<lparr>holders := holders x - 1\<rparr>) s)))"
| "server_next (Grow_Buffer e required) s =
     (case find_exchange e s of None \<Rightarrow> None
      | Some x \<Rightarrow>
          if buffer x < required \<and> required \<le> MAX_BODY_BYTES \<and> old_buffer x = 0
          then Some (update_exchange e (\<lambda>x. x\<lparr>old_buffer := buffer x, buffer := grown (buffer x) required\<rparr>) s)
          else None)"
| "server_next (Free_Old_Buffer e) s =
     (case find_exchange e s of None \<Rightarrow> None
      | Some x \<Rightarrow> Some (update_exchange e (\<lambda>x. x\<lparr>old_buffer := 0\<rparr>) s))"
| "server_next Request_Shutdown s = Some (s\<lparr>shutdown_requested := True\<rparr>)"
| "server_next Stop_Accepting s = (if shutdown_requested s then Some (s\<lparr>accepting := False\<rparr>) else None)"
| "server_next Abort_Connections s = (if \<not> accepting s then Some (s\<lparr>connections := []\<rparr>) else None)"

inductive server_step :: "server \<Rightarrow> server \<Rightarrow> bool" where
  event: "server_next ev s = Some s' \<Longrightarrow> server_step s s'"

inductive server_reachable :: "server \<Rightarrow> bool" where
  start: "server_reachable server_start"
| step: "server_reachable s \<Longrightarrow> server_step s s' \<Longrightarrow> server_reachable s'"

inductive_cases server_stepE: "server_step s s'"

fun server_run :: "server_event list \<Rightarrow> server \<Rightarrow> server option" where
  "server_run [] s = Some s"
| "server_run (ev # evs) s = (case server_next ev s of None \<Rightarrow> None | Some s' \<Rightarrow> server_run evs s')"

interpretation server: event_machine server_next server_run server_reachable
  by unfold_locales (auto intro: server_reachable.step server_step.event)

section \<open>The budget\<close>

definition held_bytes :: "server \<Rightarrow> nat" where
  "held_bytes s = sum_list (map (\<lambda>x. buffer x + old_buffer x) (exchanges s))"

definition exchange_ok :: "live_exchange \<Rightarrow> bool" where
  "exchange_ok x \<longleftrightarrow> buffer x \<le> MAX_BODY_BYTES \<and> old_buffer x \<le> MAX_BODY_BYTES"

definition server_ok :: "server \<Rightarrow> bool" where
  "server_ok s \<longleftrightarrow> length (connections s) \<le> MAX_CONNECTIONS \<and> distinct (connections s)
     \<and> length (exchanges s) \<le> MAX_EXCHANGES \<and> distinct (map ident (exchanges s))
     \<and> list_all exchange_ok (exchanges s) \<and> (accepting s \<or> shutdown_requested s)"

lemma map_ident_update: "(\<And>x. ident (f x) = ident x) \<Longrightarrow> map ident (map (\<lambda>x. if ident x = e then f x else x) xs) = map ident xs"
  by simp

lemma server_ok_update:
  assumes "server_ok s" "\<And>x. ident (f x) = ident x" "\<And>x. exchange_ok x \<Longrightarrow> ident x = e \<Longrightarrow> x \<in> set (exchanges s) \<Longrightarrow> exchange_ok (f x)"
  shows "server_ok (update_exchange e f s)"
proof -
  let ?xs = "map (\<lambda>x. if ident x = e then f x else x) (exchanges s)"
  have "map ident ?xs = map ident (exchanges s)" by (rule map_ident_update [OF assms(2)])
  moreover have "list_all exchange_ok ?xs" using assms(1,3) by (auto simp: server_ok_def list_all_iff)
  ultimately show ?thesis
    using assms(1) unfolding server_ok_def update_exchange_def by (simp del: map_map list.map_comp)
qed

lemma find_exchange_unique:
  "find_exchange e s = Some x \<Longrightarrow> distinct (map ident (exchanges s)) \<Longrightarrow> y \<in> set (exchanges s) \<Longrightarrow> ident y = e \<Longrightarrow> y = x"
  unfolding find_exchange_def by (auto simp: find_Some_iff distinct_map dest: inj_onD nth_mem)

lemma server_ok_drop: "server_ok s \<Longrightarrow> server_ok (drop_unheld s)"
  using le_trans [OF length_filter_le [of "\<lambda>x. 0 < holders x" "exchanges s"], of MAX_EXCHANGES]
  by (auto simp: server_ok_def drop_unheld_def list_all_iff distinct_map_filter)

lemma server_ok_next:
  assumes "server_ok s" "server_next ev s = Some s'"
  shows "server_ok s'"
proof (cases ev)
  case (Release_Reservation e)
  with assms show ?thesis by (auto split: option.splits simp: exchange_ok_def intro!: server_ok_drop server_ok_update)
next
  case (Grow_Buffer e required)
  with assms(2) obtain x where x: "find_exchange e s = Some x" "buffer x < required" "required \<le> MAX_BODY_BYTES"
    and s': "s' = update_exchange e (\<lambda>x. x\<lparr>old_buffer := buffer x, buffer := grown (buffer x) required\<rparr>) s"
    by (auto split: option.splits if_splits)
  have "y = x" if "y \<in> set (exchanges s)" "ident y = e" for y
    using find_exchange_unique [OF x(1) _ that] assms(1) by (simp add: server_ok_def)
  then show ?thesis unfolding s' using grown_bounds [OF x(2,3)]
    by (intro server_ok_update [OF assms(1)]) (auto simp: exchange_ok_def)
next
  case (Clone_Reservation e)
  with assms show ?thesis by (auto split: option.splits simp: exchange_ok_def intro!: server_ok_update)
next
  case (Free_Old_Buffer e)
  with assms show ?thesis by (auto split: option.splits simp: exchange_ok_def intro!: server_ok_update)
next
  case (Close c)
  with assms show ?thesis by (auto simp: server_ok_def length_remove1 split: if_splits)
qed (use assms in \<open>auto simp: server_ok_def try_acquire_def exchange_ok_def split: if_splits\<close>)

lemma server_reachable_ok: "server_reachable s \<Longrightarrow> server_ok s"
proof (induction rule: server_reachable.induct)
  case start
  show ?case by (simp add: server_ok_def server_start_def)
next
  case (step s s')
  then show ?case by (blast elim: server_stepE intro: server_ok_next)
qed

lemma held_bytes_bound:
  "list_all exchange_ok xs \<Longrightarrow> sum_list (map (\<lambda>x. buffer x + old_buffer x) xs) \<le> length xs * EXCHANGE_BUFFER_BYTES"
  by (induction xs) (auto simp: exchange_ok_def EXCHANGE_BUFFER_BYTES_def)

section \<open>Properties\<close>

text \<open>
  C13. The gateway stays within its budget in every interleaving: at most 32 connections and 8
  exchanges at a time, an exchange counting as long as its upload or its reply is alive even
  when its handler is gone, and the upload buffers together, the ones being replaced included,
  never exceed 128 MiB.
\<close>

theorem gateway_stays_within_budget:
  assumes "server_reachable s"
  shows "length (connections s) \<le> MAX_CONNECTIONS \<and> length (exchanges s) \<le> MAX_EXCHANGES \<and> held_bytes s \<le> BUFFER_BUDGET_BYTES"
proof -
  have ok: "server_ok s" by (rule server_reachable_ok [OF assms])
  then have "held_bytes s \<le> length (exchanges s) * EXCHANGE_BUFFER_BYTES"
    unfolding held_bytes_def server_ok_def by (intro held_bytes_bound) simp
  also have "\<dots> \<le> MAX_EXCHANGES * EXCHANGE_BUFFER_BYTES" using ok by (simp add: server_ok_def)
  also have "\<dots> \<le> BUFFER_BUDGET_BYTES" by (simp add: MAX_EXCHANGES_def)
  finally show ?thesis using ok by (simp add: server_ok_def)
qed

definition sample_events :: "server_event list" where
  "sample_events = [Accept 1, Request_Arrives 1 7, Grow_Buffer 7 9000, Clone_Reservation 7, Close 1, Release_Reservation 7]"

theorem gateway_stays_within_budget_witness:
  "\<exists>s. server_run sample_events server_start = Some s \<and> held_bytes s \<le> BUFFER_BUDGET_BYTES"
proof -
  have "server_run sample_events server_start \<noteq> None" by code_simp
  then obtain s where s: "server_run sample_events server_start = Some s" by blast
  from gateway_stays_within_budget [OF server.run_reachable [OF s server_reachable.start]] s show ?thesis by blast
qed

text \<open>
  Shutdown is final: once the gateway has stopped accepting, no event adds a connection or
  makes it accept again, and it can abort the connections that are left.
\<close>

theorem stopped_gateway_only_drains:
  assumes "server_reachable s" "\<not> accepting s" "server_step s s'"
  shows "\<not> accepting s' \<and> set (connections s') \<subseteq> set (connections s)
    \<and> (\<exists>s''. server_step s' s'' \<and> connections s'' = [])"
proof -
  obtain ev where ev: "server_next ev s = Some s'" using assms(3) by (auto elim: server_stepE)
  have "\<not> accepting s' \<and> set (connections s') \<subseteq> set (connections s)"
    using assms(2) ev by (cases ev)
      (auto simp: update_exchange_def drop_unheld_def dest: set_remove1_subset [THEN subsetD] split: if_splits option.splits)
  moreover have "server_next Abort_Connections s' = Some (s'\<lparr>connections := []\<rparr>)" if "\<not> accepting s'" using that by simp
  ultimately show ?thesis using server_step.event [of Abort_Connections s' "s'\<lparr>connections := []\<rparr>"]
    by (auto intro!: exI [of _ "s'\<lparr>connections := []\<rparr>"])
qed

end
