(* ===== verification/Gateway_Connection.thy ===== *)
theory Gateway_Connection
  imports Gateway Machine
begin

text \<open>
  The life of one connection of the gateway (src/src/gateway.rs): the handshake, serving under a
  deadline that every accepted exchange moves, the graceful end after a shutdown, closing the
  transport, and the drain of the accept loop. Any enabled event may come next; \<open>slack\<close> is how
  long after a timer the executor may take to run the task it wakes.
\<close>

section \<open>State and events\<close>

definition DRAIN_TIMEOUT :: nat where
  "DRAIN_TIMEOUT = 5000"

datatype phase = Handshaking | Serving | Finishing | Closing | Closed

text \<open>
  \<open>entered\<close> is when the timer of the handshake or of the closing was set. The watch channel holds
  \<open>published\<close>; \<open>seen\<close> is the value that \<open>connection_deadline\<close> sleeps for. \<open>active\<close> is when the
  handshake ended or the last exchange was accepted. \<open>draining\<close> is when the accept loop began to
  wait for its connections.
\<close>

record link =
  phase :: phase
  instant :: nat
  entered :: nat
  published :: nat
  seen :: nat
  active :: nat
  cancelled_at :: "nat option"
  draining :: "nat option"

datatype link_event =
    Handshake_Ends "string option option"
  | Handshake_Expires
  | Exchange_Begins bool
  | Deadline_Changed
  | Deadline_Expires
  | Serving_Ends bool
  | Shutdown_Noticed
  | Transport_Closed
  | Transport_Expires
  | Shutdown_Requested
  | Drain_Begins
  | Drain_Expires
  | Accept_Fails
  | Time_Passes nat

definition link_open :: "nat \<Rightarrow> link" where
  "link_open t = \<lparr>phase = Handshaking, instant = t, entered = t, published = 0, seen = 0, active = t,
     cancelled_at = None, draining = None\<rparr>"

text \<open>The moments at which the executor is woken for this connection.\<close>

definition phase_wakes :: "link \<Rightarrow> nat list" where
  "phase_wakes s =
     (case phase s of
        Handshaking \<Rightarrow> [entered s + HANDSHAKE_TIMEOUT]
      | Serving \<Rightarrow> seen s # (if seen s = published s then [] else [active s])
      | Closing \<Rightarrow> [entered s + HANDSHAKE_TIMEOUT]
      | _ \<Rightarrow> [])"

definition drain_wakes :: "link \<Rightarrow> nat list" where
  "drain_wakes s =
     (case (cancelled_at s, draining s) of
        (None, _) \<Rightarrow> []
      | (Some t, None) \<Rightarrow> [t]
      | (Some _, Some d) \<Rightarrow> [d + DRAIN_TIMEOUT])"

definition wakes :: "link \<Rightarrow> nat list" where
  "wakes s = (if phase s = Closed then [] else phase_wakes s @ drain_wakes s)"

text \<open>
  The effect of an event, None when it cannot happen. A handshake without a server name ends the
  connection. The select of a serving connection is not biased: of the branches that are ready
  any may win. An exchange without a permit is answered 503 and moves nothing.
\<close>

fun link_next :: "nat \<Rightarrow> link_event \<Rightarrow> link \<Rightarrow> link option" where
  "link_next slack (Handshake_Ends result) s =
     (if phase s = Handshaking
      then Some (case result of
          Some (Some sni) \<Rightarrow> s\<lparr>phase := Serving, published := instant s + EXCHANGE_TIMEOUT,
            seen := instant s + EXCHANGE_TIMEOUT, active := instant s\<rparr>
        | _ \<Rightarrow> s\<lparr>phase := Closed\<rparr>)
      else None)"
| "link_next slack Handshake_Expires s =
     (if phase s = Handshaking \<and> entered s + HANDSHAKE_TIMEOUT \<le> instant s then Some (s\<lparr>phase := Closed\<rparr>) else None)"
| "link_next slack (Exchange_Begins permit) s =
     (if phase s \<in> {Serving, Finishing}
      then Some (if permit
        then s\<lparr>published := instant s + EXCHANGE_TIMEOUT + HANDSHAKE_TIMEOUT, active := instant s\<rparr> else s)
      else None)"
| "link_next slack Deadline_Changed s =
     (if phase s = Serving \<and> seen s \<noteq> published s then Some (s\<lparr>seen := published s\<rparr>) else None)"
| "link_next slack Deadline_Expires s =
     (if phase s = Serving \<and> seen s \<le> instant s then Some (s\<lparr>phase := Closed\<rparr>) else None)"
| "link_next slack (Serving_Ends ok) s =
     (if phase s \<in> {Serving, Finishing}
      then Some (if ok then s\<lparr>phase := Closing, entered := instant s\<rparr> else s\<lparr>phase := Closed\<rparr>) else None)"
| "link_next slack Shutdown_Noticed s =
     (if phase s = Serving \<and> cancelled_at s \<noteq> None then Some (s\<lparr>phase := Finishing\<rparr>) else None)"
| "link_next slack Transport_Closed s = (if phase s = Closing then Some (s\<lparr>phase := Closed\<rparr>) else None)"
| "link_next slack Transport_Expires s =
     (if phase s = Closing \<and> entered s + HANDSHAKE_TIMEOUT \<le> instant s then Some (s\<lparr>phase := Closed\<rparr>) else None)"
| "link_next slack Shutdown_Requested s =
     Some (if cancelled_at s = None then s\<lparr>cancelled_at := Some (instant s)\<rparr> else s)"
| "link_next slack Drain_Begins s =
     (if cancelled_at s \<noteq> None \<and> draining s = None then Some (s\<lparr>draining := Some (instant s)\<rparr>) else None)"
| "link_next slack Drain_Expires s =
     (case draining s of None \<Rightarrow> None
      | Some d \<Rightarrow> if d + DRAIN_TIMEOUT \<le> instant s then Some (s\<lparr>phase := Closed\<rparr>) else None)"
| "link_next slack Accept_Fails s = (if draining s = None then Some (s\<lparr>phase := Closed\<rparr>) else None)"
| "link_next slack (Time_Passes t) s =
     (if instant s < t \<and> list_all (\<lambda>d. t \<le> d + slack) (wakes s) then Some (s\<lparr>instant := t\<rparr>) else None)"

inductive link_reachable :: "nat \<Rightarrow> link \<Rightarrow> bool" for slack where
  accepted: "link_reachable slack (link_open t)"
| event: "link_reachable slack s \<Longrightarrow> link_next slack ev s = Some s' \<Longrightarrow> link_reachable slack s'"

fun link_run :: "nat \<Rightarrow> link_event list \<Rightarrow> link \<Rightarrow> link option" where
  "link_run slack [] s = Some s"
| "link_run slack (ev # evs) s = (case link_next slack ev s of None \<Rightarrow> None | Some s' \<Rightarrow> link_run slack evs s')"

interpretation link: event_machine "link_next slack" "link_run slack" "link_reachable slack" for slack
  by unfold_locales (auto intro: link_reachable.event)

section \<open>Invariant\<close>

definition timers_ok :: "nat \<Rightarrow> link \<Rightarrow> bool" where
  "timers_ok slack s \<longleftrightarrow>
     (case phase s of
        Serving \<Rightarrow> instant s \<le> seen s + slack \<and> seen s \<le> published s \<and> active s \<le> instant s \<and>
          published s \<in> {active s + EXCHANGE_TIMEOUT, active s + EXCHANGE_TIMEOUT + HANDSHAKE_TIMEOUT} \<and>
          (seen s \<noteq> published s \<longrightarrow> instant s \<le> active s + slack)
      | Finishing \<Rightarrow> True
      | Closed \<Rightarrow> True
      | _ \<Rightarrow> instant s \<le> entered s + HANDSHAKE_TIMEOUT + slack)"

definition drain_ok :: "nat \<Rightarrow> link \<Rightarrow> bool" where
  "drain_ok slack s \<longleftrightarrow> phase s = Closed \<or>
     (case cancelled_at s of
        None \<Rightarrow> draining s = None
      | Some t \<Rightarrow>
          (case draining s of
             None \<Rightarrow> t \<le> instant s \<and> instant s \<le> t + slack
           | Some d \<Rightarrow> d \<le> t + slack \<and> instant s \<le> d + DRAIN_TIMEOUT + slack))"

text \<open>Time stops at what wakes the connection.\<close>

lemma time_within_wakes:
  assumes "link_next slack (Time_Passes t) s = Some s'"
  shows "instant s \<le> t \<and> s' = s\<lparr>instant := t\<rparr> \<and> (\<forall>d\<in>set (wakes s). t \<le> d + slack)"
  using assms by (auto simp: list_all_iff split: if_splits)

lemma timers_ok_next:
  assumes ok: "timers_ok slack s" and ev: "link_next slack ev s = Some s'"
  shows "timers_ok slack s'"
proof (cases ev)
  case (Time_Passes t)
  from time_within_wakes [OF ev [unfolded Time_Passes]] ok show ?thesis
    by (cases "phase s") (auto simp: timers_ok_def wakes_def phase_wakes_def split: if_splits)
next
  case (Exchange_Begins permit)
  with ok ev show ?thesis by (cases "phase s") (auto simp: timers_ok_def split: if_splits)
qed (use ok ev in \<open>auto simp: timers_ok_def cong: phase.case_cong split: if_splits option.splits\<close>)

lemma drain_ok_next:
  assumes ok: "drain_ok slack s" and ev: "link_next slack ev s = Some s'"
  shows "drain_ok slack s'"
proof (cases ev)
  case (Time_Passes t)
  from time_within_wakes [OF ev [unfolded Time_Passes]] ok show ?thesis
    by (cases "cancelled_at s"; cases "draining s") (auto simp: drain_ok_def wakes_def drain_wakes_def)
qed (use ok ev in \<open>auto simp: drain_ok_def split: if_splits option.splits\<close>)

lemma link_reachable_ok: "link_reachable slack s \<Longrightarrow> timers_ok slack s \<and> drain_ok slack s"
proof (induction rule: link_reachable.induct)
  case (accepted t)
  show ?case by (simp add: link_open_def timers_ok_def drain_ok_def)
next
  case (event s ev s')
  then show ?case by (blast intro: timers_ok_next drain_ok_next)
qed

section \<open>Progress\<close>

text \<open>Events of the gateway itself: what its timers and the accept loop do, whatever the client does.\<close>

fun own_event :: "link_event \<Rightarrow> bool" where
  "own_event Handshake_Expires = True"
| "own_event Deadline_Changed = True"
| "own_event Deadline_Expires = True"
| "own_event Transport_Expires = True"
| "own_event Drain_Begins = True"
| "own_event Drain_Expires = True"
| "own_event (Time_Passes t) = True"
| "own_event _ = False"

definition advances :: "nat \<Rightarrow> link \<Rightarrow> bool" where
  "advances slack s \<longleftrightarrow> (\<exists>evs s'. list_all own_event evs \<and> link_run slack evs s = Some s' \<and>
     (phase s' = Closed \<or> instant s < instant s'))"

lemma advances_next:
  assumes "link_next slack ev s = Some s1" "own_event ev" "instant s1 = instant s" "advances slack s1"
  shows "advances slack s"
proof -
  obtain evs s' where "list_all own_event evs" "link_run slack evs s1 = Some s'" "phase s' = Closed \<or> instant s1 < instant s'"
    using assms(4) unfolding advances_def by blast
  with assms(2,3) link.run_step [OF assms(1)] show ?thesis
    unfolding advances_def by (intro exI [of _ "ev # evs"] exI [of _ s']) simp
qed

lemma advances_by:
  assumes "link_next slack ev s = Some s'" "own_event ev" "phase s' = Closed \<or> instant s < instant s'"
  shows "advances slack s"
  unfolding advances_def using assms link.run_one [OF assms(1)] by (intro exI [of _ "[ev]"] exI [of _ s']) simp

text \<open>Nothing is left to read or to begin.\<close>

lemma advances_settled:
  assumes "phase s \<noteq> Closed" "phase s = Serving \<Longrightarrow> seen s = published s" "cancelled_at s \<noteq> None \<Longrightarrow> draining s \<noteq> None"
  shows "advances slack s"
proof (cases "list_all (\<lambda>d. instant s + 1 \<le> d + slack) (wakes s)")
  case True
  show ?thesis by (rule advances_by [of slack "Time_Passes (instant s + 1)" s "s\<lparr>instant := instant s + 1\<rparr>"]) (simp_all add: True [simplified])
next
  case False
  then obtain d where d: "d \<in> set (wakes s)" "d \<le> instant s" by (auto simp: list_all_iff)
  then consider "d \<in> set (phase_wakes s)" | "d \<in> set (drain_wakes s)" using assms(1) by (auto simp: wakes_def)
  then show ?thesis
  proof cases
    case 1
    then show ?thesis
    proof (cases "phase s")
      case Handshaking
      with 1 d(2) show ?thesis by (intro advances_by [of slack Handshake_Expires s "s\<lparr>phase := Closed\<rparr>"]) (simp_all add: phase_wakes_def)
    next
      case Serving
      with 1 d(2) assms(2) show ?thesis by (intro advances_by [of slack Deadline_Expires s "s\<lparr>phase := Closed\<rparr>"]) (simp_all add: phase_wakes_def)
    next
      case Closing
      with 1 d(2) show ?thesis by (intro advances_by [of slack Transport_Expires s "s\<lparr>phase := Closed\<rparr>"]) (simp_all add: phase_wakes_def)
    qed (simp_all add: phase_wakes_def)
  next
    case 2
    with assms(3) obtain b where "draining s = Some b" "b + DRAIN_TIMEOUT \<le> instant s"
      using d(2) by (cases "cancelled_at s"; cases "draining s") (auto simp: drain_wakes_def)
    then show ?thesis by (intro advances_by [of slack Drain_Expires s "s\<lparr>phase := Closed\<rparr>"]) simp_all
  qed
qed

lemma connection_advances:
  assumes "phase s \<noteq> Closed"
  shows "advances slack s"
proof -
  have reading: "advances slack s" if "phase s \<noteq> Closed" "cancelled_at s \<noteq> None \<Longrightarrow> draining s \<noteq> None" for s
  proof (cases "phase s = Serving \<and> seen s \<noteq> published s")
    case True
    then show ?thesis using that
      by (intro advances_next [of slack Deadline_Changed s "s\<lparr>seen := published s\<rparr>"] advances_settled) simp_all
  next
    case False
    with that show ?thesis by (intro advances_settled) auto
  qed
  show ?thesis
  proof (cases "cancelled_at s \<noteq> None \<and> draining s = None")
    case True
    then show ?thesis using assms
      by (intro advances_next [of slack Drain_Begins s "s\<lparr>draining := Some (instant s)\<rparr>"] reading) simp_all
  next
    case False
    with assms show ?thesis by (intro reading) auto
  qed
qed

section \<open>Properties\<close>


definition sample_link :: "link_event list" where
  "sample_link = [Time_Passes 900, Handshake_Ends (Some (Some ''app.localhost'')), Time_Passes 20000, Exchange_Begins True,
     Deadline_Changed, Time_Passes 50000, Shutdown_Requested, Shutdown_Noticed, Drain_Begins, Time_Passes 55010]"


text \<open>
  The deadline does not cut off a healthy session: when it ends a connection, the exchange that was
  granted last has had its thirty seconds, unless that exchange began within the executor's delay of
  the moment at which the earlier deadline had run out.
\<close>

theorem deadline_spares_exchanges:
  assumes "link_reachable slack s" "link_next slack Deadline_Expires s = Some s'"
  shows "active s + EXCHANGE_TIMEOUT \<le> instant s \<or> seen s \<noteq> published s \<and> seen s \<le> instant s \<and> instant s \<le> active s + slack"
  using link_reachable_ok [OF assms(1)] assms(2) by (auto simp: timers_ok_def split: if_splits)

end
