(* ===== verification/Process.thy ===== *)
theory Process
  imports Config Trace
begin

text \<open>
  Running a dependency (src/src/process.rs): the command, the capture of its output under a
  deadline, a size limit and cancellation, and the termination of its process group. What the
  select wakes up for is the environment's list of happenings before the deadline.
\<close>

section \<open>Commands\<close>

text \<open>An override is a variable to set, or None for one to remove.\<close>

record command =
  program :: string
  arguments :: "string list"
  overrides :: "(string \<times> string option) list"

definition argv_of :: "command \<Rightarrow> string list" where
  "argv_of c = program c # arguments c"

definition with_args :: "command \<Rightarrow> string list \<Rightarrow> command" where
  "with_args c extra = c\<lparr>arguments := arguments c @ extra\<rparr>"

definition with_env :: "command \<Rightarrow> string \<Rightarrow> string option \<Rightarrow> command" where
  "with_env c name setting = c\<lparr>overrides := overrides c @ [(name, setting)]\<rparr>"

text \<open>The variables a child sees: the inherited ones with the overrides applied in order.\<close>

definition child_variables :: "command \<Rightarrow> (string \<rightharpoonup> string) \<Rightarrow> (string \<rightharpoonup> string)" where
  "child_variables c inherited = foldl (\<lambda>m (k, v). m(k := v)) inherited (overrides c)"

lemma argv_with [simp]:
  "argv_of (with_args c extra) = argv_of c @ extra" "argv_of (with_env c n v) = argv_of c"
  by (simp_all add: argv_of_def with_args_def with_env_def)

lemma child_variables_with [simp]:
  "child_variables (with_args c extra) inherited = child_variables c inherited"
  "child_variables (with_env c n v) inherited = (child_variables c inherited)(n := v)"
  by (simp_all add: child_variables_def with_args_def with_env_def)

section \<open>Capturing the output\<close>

definition MAX_OUTPUT :: nat where
  "MAX_OUTPUT = 4 * 1024 * 1024"

record program_output =
  succeeded :: bool
  stdout :: string
  stderr :: string

definition success :: "string \<Rightarrow> program_output \<Rightarrow> (string, string) result" where
  "success operation out =
     (if \<not> succeeded out then Err (operation @ '' failed: '' @ trim (stderr out)) else Ok (stdout out))"

text \<open>The exit status, once the child has ended.\<close>

definition poll_status :: "string list \<Rightarrow> bool option io" where
  "poll_status argv = bind (try_wait argv) (\<lambda>c.
     case c of
       Exited s _ \<Rightarrow> return (Some s)
     | Running \<Rightarrow> return None
     | Unavailable \<Rightarrow> bail ''wait failed'')"

definition append_chunk :: "string \<Rightarrow> string \<Rightarrow> string option \<Rightarrow> (string, string) result" where
  "append_chunk here there chunk =
     and_then (ok_or chunk ''read dependency output'') (\<lambda>bytes.
     and_then (ensure (length here + length there + length bytes \<le> MAX_OUTPUT)
       ''dependency command exceeded 4 MiB output limit'') (\<lambda>_. Ok (here @ bytes)))"

text \<open>The list ends at the deadline. A closed pipe is not read again.\<close>

fun capture ::
  "string list \<Rightarrow> happening list \<Rightarrow> bool \<Rightarrow> bool \<Rightarrow> string \<Rightarrow> string \<Rightarrow> (bool \<times> string \<times> string) io"
where
  "capture argv [] out_closed err_closed out err =
     bind (if out_closed \<and> err_closed then poll_status argv else return None) (\<lambda>status.
     case status of
       Some s \<Rightarrow> return (s, out, err)
     | None \<Rightarrow> bail ''dependency command timed out'')"
| "capture argv (h # hs) out_closed err_closed out err =
     bind (if out_closed \<and> err_closed then poll_status argv else return None) (\<lambda>status.
     case status of
       Some s \<Rightarrow> return (s, out, err)
     | None \<Rightarrow>
         (case h of
            Interrupted \<Rightarrow> bail ''operation cancelled''
          | Notified continues \<Rightarrow>
              after (require continues ''child exit notifications ended'')
                (capture argv hs out_closed err_closed out err)
          | Out_Chunk chunk \<Rightarrow>
              if out_closed then capture argv hs out_closed err_closed out err
              else bind (lift (append_chunk out err chunk)) (\<lambda>out'.
                capture argv hs (chunk = Some []) err_closed out' err)
          | Err_Chunk chunk \<Rightarrow>
              if err_closed then capture argv hs out_closed err_closed out err
              else bind (lift (append_chunk err out chunk)) (\<lambda>err'.
                capture argv hs out_closed (chunk = Some []) out err')))"

section \<open>Termination of the group\<close>

definition signal_group :: "string \<Rightarrow> string \<Rightarrow> unit io" where
  "signal_group pgroup signal =
     (let argv = [''/bin/kill'', signal, ''--'', pgroup] in
      after (spawn argv)
      (bind (try_wait argv) (\<lambda>c.
       case c of
         Exited s _ \<Rightarrow> require s ''process-pgroup signal failed''
       | Running \<Rightarrow> bail ''process-pgroup signal command timed out''
       | Unavailable \<Rightarrow> bail ''process-pgroup signal command failed'')))"

definition kill_child :: "unit io" where
  "kill_child = syscall (\<lambda>fs. (Ok (), fs))"

text \<open>The exits notified before the cleanup deadline; the list ends with the deadline.\<close>

fun reap :: "string list \<Rightarrow> happening list \<Rightarrow> unit io" where
  "reap argv [] =
     bind (poll_status argv) (\<lambda>s.
       require (s \<noteq> None) ''cancelled dependency did not exit within the cleanup deadline'')"
| "reap argv (h # hs) =
     bind (poll_status argv) (\<lambda>s.
       if s \<noteq> None then return ()
       else if h = Notified False then bail ''child exit notifications ended''
       else reap argv hs)"

text \<open>What the environment holds at this point, without a call.\<close>

definition observe :: "(environment \<Rightarrow> nat \<Rightarrow> 'a) \<Rightarrow> 'a io" where
  "observe f env w = (Done (f env (clock w)), w)"

definition happenings_of :: "string list \<Rightarrow> nat \<Rightarrow> happening list io" where
  "happenings_of argv timeout = observe (\<lambda>env t. happenings env t argv timeout)"

definition terminate_group :: "string list \<Rightarrow> unit io" where
  "terminate_group argv =
     bind (observe (\<lambda>env t. ''-'' @ decimal (child_pid env t))) (\<lambda>pgroup.
     after (ignoring (signal_group pgroup ''-TERM''))
     (after (sleep 250)
     (bind (attempt (signal_group pgroup ''-KILL'')) (\<lambda>killed.
      after (if is_ok killed then return () else ignoring kill_child)
      (after (bind (happenings_of argv 2000) (reap argv))
      (lift killed))))))"

section \<open>The runner\<close>

definition check_cancelled :: "bool io" where
  "check_cancelled = observe cancelled"

definition decode_output :: "bool \<times> string \<times> string \<Rightarrow> (program_output, string) result" where
  "decode_output captured =
     (case captured of (s, out, err) \<Rightarrow>
        and_then (ensure (utf8_valid out) ''dependency stdout is not UTF-8'') (\<lambda>_.
        and_then (ensure (utf8_valid err) ''dependency stderr is not UTF-8'') (\<lambda>_.
        Ok \<lparr>succeeded = s, stdout = out, stderr = err\<rparr>)))"

definition run_command :: "command \<Rightarrow> nat \<Rightarrow> program_output io" where
  "run_command c timeout =
     bind check_cancelled (\<lambda>stop.
     after (require (\<not> stop) ''operation cancelled'')
     (after (spawn (argv_of c))
     (bind (attempt (bind (happenings_of (argv_of c) timeout) (\<lambda>hs. capture (argv_of c) hs False False [] [])))
       (\<lambda>captured.
        case captured of
          Ok r \<Rightarrow> lift (decode_output r)
        | Err e \<Rightarrow>
            bind (attempt (terminate_group (argv_of c))) (\<lambda>_.
            bail ''dependency command failed; VM state may have changed; run `luhmen inspect` before retrying'')))))"

definition run_success :: "command \<Rightarrow> nat \<Rightarrow> string \<Rightarrow> string io" where
  "run_success c timeout operation = bind (run_command c timeout) (\<lambda>out. lift (success operation out))"

section \<open>What a run leaves in the log\<close>

context world_relation begin

lemma observe: "obeys env R (observe f)" "obeys env R (happenings_of a t)" "obeys env R check_cancelled"
  by (simp_all add: obeys_def observe_def happenings_of_def check_cancelled_def refl)

lemma poll_status: "obeys env R (poll_status argv)"
  unfolding poll_status_def by (auto intro!: basic split: child.split)

lemma capture: "obeys env R (capture argv hs a b out err)"
proof (induction hs arbitrary: a b out err)
  case Nil
  show ?case unfolding capture.simps by (auto intro!: basic choice poll_status split: option.split)
next
  case (Cons h hs)
  show ?case unfolding capture.simps
    by (auto intro!: basic choice poll_status Cons split: option.split happening.split)
qed

lemma reap: "obeys env R (reap argv hs)"
proof (induction hs)
  case Nil
  show ?case unfolding reap.simps by (intro basic poll_status)
next
  case (Cons h hs)
  show ?case unfolding reap.simps by (intro basic choice poll_status Cons)
qed

end

locale runner_relation = logging_relation +
  assumes kills: "allowed [''/bin/kill'', signal, ''--'', pgroup]"
begin

lemma signal_group: "obeys env R (signal_group g s)"
  unfolding signal_group_def Let_def by (auto intro!: basic spawn kills split: child.split)

lemma terminate_group: "obeys env R (terminate_group argv)"
proof -
  have "obeys env R kill_child" unfolding kill_child_def by (rule syscall)
  then show ?thesis
    unfolding terminate_group_def by (intro basic choice signal_group observe reap)
qed

lemma run_command: "allowed (argv_of c) \<Longrightarrow> obeys env R (run_command c timeout)"
  unfolding run_command_def
  by (auto intro!: bind attempt require spawn observe capture terminate_group pure split: result.split)

lemma run_success: "allowed (argv_of c) \<Longrightarrow> obeys env R (run_success c timeout operation)"
  unfolding run_success_def by (intro basic run_command)

end

text \<open>The signals to a process group are the only programs a runner adds to a command.\<close>

definition kill_command :: "string list \<Rightarrow> bool" where
  "kill_command argv \<longleftrightarrow> (\<exists>signal pgroup. argv = [''/bin/kill'', signal, ''--'', pgroup])"

lemma kill_command_simp [simp]: "kill_command [''/bin/kill'', signal, ''--'', pgroup]"
  by (simp add: kill_command_def)

interpretation runs: runner_relation env extends_commands "\<lambda>_. True" for env
  by unfold_locales simp

interpretation runs_only: runner_relation env "adds (\<lambda>a. kill_command a \<or> P a)" "\<lambda>a. kill_command a \<or> P a" for env P
  by unfold_locales simp

section \<open>What was captured\<close>

fun out_of :: "happening list \<Rightarrow> string" where
  "out_of (Out_Chunk (Some b) # hs) = (if b = [] then [] else b @ out_of hs)"
| "out_of (_ # hs) = out_of hs"
| "out_of [] = []"

fun err_of :: "happening list \<Rightarrow> string" where
  "err_of (Err_Chunk (Some b) # hs) = (if b = [] then [] else b @ err_of hs)"
| "err_of (_ # hs) = err_of hs"
| "err_of [] = []"

text \<open>Between two worlds the program was seen to have ended, with this success.\<close>

definition ended :: "environment \<Rightarrow> world \<Rightarrow> world \<Rightarrow> string list \<Rightarrow> bool \<Rightarrow> bool" where
  "ended env w w' argv s \<longleftrightarrow> (\<exists>t out. clock w \<le> t \<and> t < clock w' \<and> child env t argv = Exited s out)"

lemma ended_weaken: "ended env v v' argv s \<Longrightarrow> clock w \<le> clock v \<Longrightarrow> clock v' \<le> clock w' \<Longrightarrow> ended env w w' argv s"
  unfolding ended_def by (meson le_trans less_le_trans)

lemma poll_status_Done:
  "poll_status argv env w = (Done (Some s), w') \<Longrightarrow> ended env w w' argv s"
  by (auto simp: poll_status_def try_wait_def syscall_def return_def bail_def Let_def bind_def ended_def
      split: verdict.splits child.splits prod.splits)

lemma append_chunk_Ok:
  "append_chunk a b chunk = Ok c \<longleftrightarrow> (\<exists>bytes. chunk = Some bytes \<and> c = a @ bytes \<and> length c + length b \<le> MAX_OUTPUT)"
  by (auto simp: append_chunk_def)

text \<open>What a part of the happenings adds to the outputs and closes.\<close>

definition collected :: "happening list \<Rightarrow> bool \<Rightarrow> bool \<Rightarrow> string \<Rightarrow> string \<Rightarrow> string \<Rightarrow> string \<Rightarrow> bool" where
  "collected seen oc ec out err out' err' \<longleftrightarrow>
     out' = out @ (if oc then [] else out_of seen) \<and> err' = err @ (if ec then [] else err_of seen)
     \<and> (oc \<or> Out_Chunk (Some []) \<in> set seen) \<and> (ec \<or> Err_Chunk (Some []) \<in> set seen)
     \<and> Interrupted \<notin> set seen"

definition capture_result ::
  "environment \<Rightarrow> string list \<Rightarrow> happening list \<Rightarrow> bool \<Rightarrow> bool \<Rightarrow> string \<Rightarrow> string
    \<Rightarrow> bool \<Rightarrow> string \<Rightarrow> string \<Rightarrow> world \<Rightarrow> world \<Rightarrow> bool"
where
  "capture_result env argv hs oc ec out err s out' err' w w' \<longleftrightarrow>
     (\<exists>seen rest. hs = seen @ rest \<and> collected seen oc ec out err out' err') \<and> ended env w w' argv s
     \<and> (length out + length err \<le> MAX_OUTPUT \<longrightarrow> length out' + length err' \<le> MAX_OUTPUT)"

lemma capture_result_Cons:
  assumes "capture_result env argv hs oc' ec' out1 err1 s out' err' w1 w'" "clock w \<le> clock w1"
    and "\<And>seen. collected seen oc' ec' out1 err1 out' err' \<Longrightarrow> collected (h # seen) oc ec out err out' err'"
    and "length out + length err \<le> MAX_OUTPUT \<Longrightarrow> length out1 + length err1 \<le> MAX_OUTPUT"
  shows "capture_result env argv (h # hs) oc ec out err s out' err' w w'"
proof -
  from assms(1) obtain seen rest where "hs = seen @ rest" "collected seen oc' ec' out1 err1 out' err'"
    by (auto simp: capture_result_def)
  with assms(3) have "h # hs = (h # seen) @ rest" "collected (h # seen) oc ec out err out' err'" by auto
  moreover have "ended env w w' argv s"
    using assms(1,2) unfolding capture_result_def by (auto elim: ended_weaken)
  ultimately show ?thesis using assms(1,4) unfolding capture_result_def by blast
qed

lemma capture_Done:
  "capture argv hs oc ec out err env w = (Done (s, out', err'), w') \<Longrightarrow>
     capture_result env argv hs oc ec out err s out' err' w w'"
proof (induction hs arbitrary: oc ec out err w)
  case Nil
  then obtain status w1 where poll: "(if oc \<and> ec then poll_status argv else return None) env w = (Done status, w1)"
    and rest: "(case status of Some s \<Rightarrow> return (s, out, err) | None \<Rightarrow> bail ''dependency command timed out'') env w1
      = (Done (s, out', err'), w')"
    by (auto elim: bind_DoneE)
  from rest have "status = Some s" "out' = out" "err' = err" "w' = w1"
    by (auto simp: bail_def return_def split: option.splits)
  with poll have "oc \<and> ec" "ended env w w' argv s"
    by (auto simp: return_def dest!: poll_status_Done split: if_splits)
  then show ?case
    unfolding capture_result_def collected_def using \<open>out' = out\<close> \<open>err' = err\<close> by simp
next
  case (Cons h hs)
  obtain status w1 where poll: "(if oc \<and> ec then poll_status argv else return None) env w = (Done status, w1)"
    and rest: "(case status of
       Some s \<Rightarrow> return (s, out, err)
     | None \<Rightarrow>
         (case h of
            Interrupted \<Rightarrow> bail ''operation cancelled''
          | Notified continues \<Rightarrow>
              after (require continues ''child exit notifications ended'') (capture argv hs oc ec out err)
          | Out_Chunk chunk \<Rightarrow>
              if oc then capture argv hs oc ec out err
              else bind (lift (append_chunk out err chunk)) (\<lambda>out'. capture argv hs (chunk = Some []) ec out' err)
          | Err_Chunk chunk \<Rightarrow>
              if ec then capture argv hs oc ec out err
              else bind (lift (append_chunk err out chunk)) (\<lambda>err'. capture argv hs oc (chunk = Some []) out err')))
      env w1 = (Done (s, out', err'), w')"
    using Cons.prems unfolding capture.simps by (rule bind_DoneE)
  have clock: "clock w \<le> clock w1"
    using obeysD [OF same.poll_status] poll by (auto simp: same_commands_def return_def split: if_splits)
  note Cons_intro = capture_result_Cons [OF Cons.IH clock]
  show ?case
  proof (cases status)
    case (Some s1)
    with rest have eq: "s1 = s" "out' = out" "err' = err" "w' = w1" by (auto simp: return_def)
    with poll Some have "oc \<and> ec" "ended env w w' argv s"
      by (auto simp: return_def dest!: poll_status_Done split: if_splits)
    then have "collected [] oc ec out err out' err'" using eq by (simp add: collected_def)
    moreover have "h # hs = [] @ (h # hs)" by simp
    ultimately show ?thesis using \<open>ended env w w' argv s\<close> eq unfolding capture_result_def by blast
  next
    case None
    note rest = rest [unfolded None option.case]
    show ?thesis
    proof (cases h)
      case (Out_Chunk chunk)
      show ?thesis
      proof (cases oc)
        case True
        with rest Out_Chunk have "capture argv hs oc ec out err env w1 = (Done (s, out', err'), w')" by simp
        then show ?thesis using True Out_Chunk by (elim Cons_intro) (auto simp: collected_def)
      next
        case False
        with rest Out_Chunk obtain bytes where chunk: "chunk = Some bytes" "length (out @ bytes) + length err \<le> MAX_OUTPUT"
          and run: "capture argv hs (bytes = []) ec (out @ bytes) err env w1 = (Done (s, out', err'), w')"
          by (auto elim!: bind_DoneE dest!: lift_DoneD simp: append_chunk_Ok)
        show ?thesis
          by (rule Cons_intro [OF run]) (use chunk False Out_Chunk in \<open>auto simp: collected_def\<close>)
      qed
    next
      case (Err_Chunk chunk)
      show ?thesis
      proof (cases ec)
        case True
        with rest Err_Chunk have "capture argv hs oc ec out err env w1 = (Done (s, out', err'), w')" by simp
        then show ?thesis using True Err_Chunk by (elim Cons_intro) (auto simp: collected_def)
      next
        case False
        with rest Err_Chunk obtain bytes where chunk: "chunk = Some bytes" "length (err @ bytes) + length out \<le> MAX_OUTPUT"
          and run: "capture argv hs oc (bytes = []) out (err @ bytes) env w1 = (Done (s, out', err'), w')"
          by (auto elim!: bind_DoneE dest!: lift_DoneD simp: append_chunk_Ok)
        show ?thesis
          by (rule Cons_intro [OF run]) (use chunk False Err_Chunk in \<open>auto simp: collected_def\<close>)
      qed
    next
      case (Notified continues)
      with rest have "capture argv hs oc ec out err env w1 = (Done (s, out', err'), w')"
        by (auto elim!: after_require_DoneE)
      then show ?thesis using Notified by (elim Cons_intro) (auto simp: collected_def)
    next
      case Interrupted
      with rest show ?thesis by (simp add: bail_def)
    qed
  qed
qed

section \<open>Runs that return\<close>

lemma spawn_DoneD: "spawn argv env w = (Done u, w') \<Longrightarrow> commands w' = commands w @ [argv] \<and> clock w' = clock w + 1"
  by (auto simp: spawn_def syscall_def Let_def split: verdict.splits)

lemma observe_DoneD: "observe f env w = (Done a, w') \<Longrightarrow> a = f env (clock w) \<and> w' = w"
  by (auto simp: observe_def)

lemma attempt_cases:
  assumes "attempt c env w = (Done r, w')"
  obtains a where "r = Ok a" "c env w = (Done a, w')" | e where "r = Err e" "c env w = (Failed e, w')"
  using assms by (auto simp: attempt_def split: prod.splits outcome.splits)

lemma decode_output_Ok:
  "decode_output (s, out, err) = Ok result \<Longrightarrow>
     utf8_valid out \<and> utf8_valid err \<and> result = \<lparr>succeeded = s, stdout = out, stderr = err\<rparr>"
  by (auto simp: decode_output_def)

lemma run_command_Done:
  assumes "run_command c timeout env w = (Done result, w')"
  shows "commands w' = commands w @ [argv_of c] \<and> ended env w w' (argv_of c) (succeeded result)
    \<and> utf8_valid (stdout result) \<and> utf8_valid (stderr result)
    \<and> (\<exists>t\<ge>clock w. \<exists>rest seen. happenings env t (argv_of c) timeout = seen @ rest
        \<and> collected seen False False [] [] (stdout result) (stderr result))
    \<and> length (stdout result) + length (stderr result) \<le> MAX_OUTPUT"
proof -
  from assms obtain w1 captured w2 where sp: "spawn (argv_of c) env w = (Done (), w1)"
    and cap: "attempt (bind (happenings_of (argv_of c) timeout) (\<lambda>hs. capture (argv_of c) hs False False [] [])) env w1 = (Done captured, w2)"
    and rest: "(case captured of
          Ok r \<Rightarrow> lift (decode_output r)
        | Err e \<Rightarrow>
            bind (attempt (terminate_group (argv_of c))) (\<lambda>_.
            bail ''dependency command failed; VM state may have changed; run `luhmen inspect` before retrying'')) env w2
      = (Done result, w')"
    unfolding run_command_def check_cancelled_def
    by (auto elim!: bind_DoneE dest!: require_DoneD observe_DoneD)
  have sp': "commands w1 = commands w @ [argv_of c]" "clock w1 = clock w + 1" using spawn_DoneD [OF sp] by auto
  from cap show ?thesis
  proof (cases rule: attempt_cases)
    case (1 a)
    obtain s out err where a: "a = (s, out, err)" by (cases a)
    from 1(2) a have run: "capture (argv_of c) (happenings env (clock w1) (argv_of c) timeout) False False [] [] env w1
        = (Done (s, out, err), w2)"
      by (auto simp: happenings_of_def elim!: bind_DoneE dest!: observe_DoneD)
    from rest 1(1) a have result: "decode_output (s, out, err) = Ok result" "w' = w2" by (auto dest!: lift_DoneD)
    note result = decode_output_Ok [OF result(1)] result(2)
    have log: "commands w' = commands w @ [argv_of c]"
      using obeysD [OF same.capture run] sp'(1) result by (simp add: same_commands_def)
    have cr: "capture_result env (argv_of c) (happenings env (clock w1) (argv_of c) timeout) False False [] [] s out err w1 w2"
      by (rule capture_Done [OF run])
    have seen: "ended env w w' (argv_of c) (succeeded result)"
      using cr sp'(2) result unfolding capture_result_def by (auto elim: ended_weaken)
    have later: "clock w \<le> clock w1" using sp'(2) by simp
    show ?thesis
      using log seen later cr result unfolding capture_result_def
      by (simp add: ended_def) blast
  next
    case 2
    with rest show ?thesis by (auto elim!: bind_DoneE simp: bail_def)
  qed
qed

lemma run_success_Done:
  assumes "run_success c timeout operation env w = (Done out, w')"
  shows "commands w' = commands w @ [argv_of c] \<and> ended env w w' (argv_of c) True \<and> clock w \<le> clock w'"
proof -
  from assms obtain result where run: "run_command c timeout env w = (Done result, w')" "success operation result = Ok out"
    unfolding run_success_def by (auto elim!: bind_DoneE dest!: lift_DoneD)
  then have "succeeded result" by (auto simp: success_def split: if_splits)
  with run_command_Done [OF run(1)] show ?thesis by (auto simp: ended_def)
qed

section \<open>Properties\<close>

text \<open>
  C31. Output that a run returns is complete, bounded and text: a dependency's result is
  returned only after both its pipes were closed, no cancellation came before that, and the
  child was seen to have ended with the status reported; the outputs are all that was read
  until each pipe closed, together at most 4 MiB, and UTF-8.
\<close>

theorem returned_output_is_complete:
  assumes "run_command c timeout env w = (Done result, w')"
  shows "ended env w w' (argv_of c) (succeeded result)
    \<and> (\<exists>t\<ge>clock w. \<exists>rest seen. happenings env t (argv_of c) timeout = seen @ rest
        \<and> stdout result = out_of seen \<and> stderr result = err_of seen
        \<and> Out_Chunk (Some []) \<in> set seen \<and> Err_Chunk (Some []) \<in> set seen \<and> Interrupted \<notin> set seen)
    \<and> length (stdout result) + length (stderr result) \<le> 4194304
    \<and> utf8_valid (stdout result) \<and> utf8_valid (stderr result)"
  using run_command_Done [OF assms] unfolding collected_def MAX_OUTPUT_def by auto

definition sample_command :: command where
  "sample_command = \<lparr>program = ''limactl'', arguments = [''--version''], overrides = []\<rparr>"

lemma sample_command_runs:
  "fst (run_command sample_command 20000 quiet empty_world) = Done \<lparr>succeeded = True, stdout = [], stderr = []\<rparr>"
  by code_simp

theorem returned_output_is_complete_witness:
  "ended quiet empty_world (snd (run_command sample_command 20000 quiet empty_world)) (argv_of sample_command) True"
proof -
  have "run_command sample_command 20000 quiet empty_world
      = (Done \<lparr>succeeded = True, stdout = [], stderr = []\<rparr>, snd (run_command sample_command 20000 quiet empty_world))"
    using sample_command_runs by (metis prod.collapse)
  from returned_output_is_complete [OF this] show ?thesis by simp
qed

lemma spawn_log: "spawn argv env w = (r, w') \<Longrightarrow> commands w' = commands w @ [argv]"
  by (auto simp: spawn_def syscall_def Let_def split: verdict.splits)

definition kill_argv :: "string \<Rightarrow> string \<Rightarrow> string list" where
  "kill_argv signal pgroup = [''/bin/kill'', signal, ''--'', pgroup]"

lemma bind_log:
  assumes "bind c k env w = (r, w')" and "\<And>r w'. c env w = (r, w') \<Longrightarrow> commands w' = commands w @ l"
    and "\<And>a. obeys env same_commands (k a)"
  shows "commands w' = commands w @ l"
  using assms by (auto simp: bind_def obeys_def same_commands_def split: prod.splits outcome.splits)

lemma signal_group_log: "signal_group pgroup signal env w = (r, w') \<Longrightarrow> commands w' = commands w @ [kill_argv signal pgroup]"
  unfolding signal_group_def Let_def kill_argv_def [symmetric]
  by (erule bind_log) (auto simp: spawn_log intro!: same.basic split: child.split)

lemma survives_programs:
  assumes "unkilled env"
  shows "survives env (spawn argv)" "survives env (try_wait argv)" "survives env (sleep ms)"
proof -
  have "survives env (syscall (\<lambda>fs. (Ok (), fs)) :: unit io)" by (rule survives_syscall [OF assms])
  then show "survives env (spawn argv)" "survives env (try_wait argv)" "survives env (sleep ms)"
    by (auto simp: survives_def spawn_def try_wait_def sleep_def split: prod.split outcome.split)
      (metis fst_conv)+
qed

lemma survives_signal_group: "unkilled env \<Longrightarrow> survives env (signal_group g s)"
  unfolding signal_group_def Let_def
  by (auto intro!: survives_bind survives_programs survives_pure split: child.split)

lemma survives_poll_status: "unkilled env \<Longrightarrow> survives env (poll_status argv)"
  unfolding poll_status_def by (auto intro!: survives_bind survives_programs survives_pure split: child.split)

lemma survives_observe: "survives env (observe f)" "survives env (happenings_of a t)"
  by (simp_all add: survives_def observe_def happenings_of_def)

lemma survives_capture: "unkilled env \<Longrightarrow> survives env (capture argv hs a b out err)"
proof (induction hs arbitrary: a b out err)
  case Nil
  then show ?case unfolding capture.simps
    by (auto intro!: survives_bind survives_if survives_poll_status survives_pure split: option.split)
next
  case (Cons h hs)
  then show ?case unfolding capture.simps
    by (auto intro!: survives_bind survives_if survives_poll_status survives_pure split: option.split happening.split)
qed

text \<open>After both signals the log does not change any more.\<close>

lemma terminate_group_log:
  assumes "unkilled env" "terminate_group argv env w = (r, w')"
  shows "\<exists>pgroup. commands w' = commands w @ [kill_argv ''-TERM'' pgroup, kill_argv ''-KILL'' pgroup]"
proof -
  let ?g = "''-'' @ decimal (child_pid env (clock w))"
  obtain r1 w1 where t: "signal_group ?g ''-TERM'' env w = (r1, w1)" by fastforce
  have "r1 \<noteq> Crashed" using survives_signal_group [OF assms(1), of ?g "''-TERM''"] t
    unfolding survives_def by (metis fst_conv)
  then have ig: "ignoring (signal_group ?g ''-TERM'') env w = (Done (), w1)"
    using t by (cases r1) (simp_all add: ignoring_def attempt_def bind_def return_def)
  obtain w2 where sl: "sleep 250 env w1 = (Done (), w2)" by (simp add: sleep_def)
  obtain k w3 where kill: "attempt (signal_group ?g ''-KILL'') env w2 = (Done k, w3)"
    using attempt_Done [OF survives_signal_group [OF assms(1)]] by blast
  have log: "commands w3 = commands w @ [kill_argv ''-TERM'' ?g, kill_argv ''-KILL'' ?g]"
  proof -
    have "commands w2 = commands w1" using sl by (auto simp: sleep_def)
    moreover from kill obtain q where "signal_group ?g ''-KILL'' env w2 = (q, w3)"
      by (rule attempt_cases) blast+
    ultimately show ?thesis using signal_group_log [OF t] signal_group_log by fastforce
  qed
  let ?rest = "after (if is_ok k then return () else ignoring kill_child)
      (after (bind (happenings_of argv 2000) (reap argv)) (lift k))"
  have "obeys env same_commands (happenings_of argv 2000)" by (rule same.observe)
  then have "obeys env same_commands ?rest"
    unfolding kill_child_def by (intro same.basic same.choice same.syscall same.reap)
  moreover have "?rest env w3 = (r, w')"
    using assms(2) ig sl kill by (simp add: terminate_group_def observe_def bind_def)
  ultimately have "commands w' = commands w3" by (auto dest: obeysD simp: same_commands_def)
  with log show ?thesis by auto
qed

lemma survives_captured:
  "unkilled env \<Longrightarrow> survives env (bind (happenings_of argv timeout) (\<lambda>hs. capture argv hs False False [] []))"
  by (intro survives_bind survives_observe survives_capture)

lemma survives_reap: "unkilled env \<Longrightarrow> survives env (reap argv hs)"
proof (induction hs)
  case Nil
  then show ?case unfolding reap.simps by (intro survives_bind survives_poll_status survives_pure)
next
  case (Cons h hs)
  then show ?case unfolding reap.simps
    by (intro survives_bind survives_if survives_poll_status survives_pure) auto
qed

lemma survives_terminate_group: "unkilled env \<Longrightarrow> survives env (terminate_group argv)"
  unfolding terminate_group_def kill_child_def
  by (intro survives_bind survives_if survives_ignoring survives_attempt survives_signal_group survives_programs
      survives_syscall survives_reap survives_observe survives_pure)

lemma abandoned_run:
  assumes "unkilled env" and "verdict env (clock w) = Pass" and "\<not> cancelled env (clock w)"
    and "run_command c timeout env w = (r, w')"
  shows "(commands w' = commands w @ [argv_of c] \<and> (\<exists>s. ended env w w' (argv_of c) s))
    \<or> (\<exists>pgroup e. r = Failed e \<and>
         commands w' = commands w @ [argv_of c, kill_argv ''-TERM'' pgroup, kill_argv ''-KILL'' pgroup])"
proof -
  obtain w1 where sp: "spawn (argv_of c) env w = (Done (), w1)"
    using assms(2) by (simp add: spawn_def syscall_def Let_def)
  note sp' = spawn_DoneD [OF sp]
  let ?capture = "bind (happenings_of (argv_of c) timeout) (\<lambda>hs. capture (argv_of c) hs False False [] [])"
  obtain captured w2 where cap: "attempt ?capture env w1 = (Done captured, w2)"
    using attempt_Done [of env ?capture w1] survives_captured [OF assms(1)] by blast
  have run: "run_command c timeout env w = (case captured of
          Ok r \<Rightarrow> lift (decode_output r)
        | Err e \<Rightarrow>
            bind (attempt (terminate_group (argv_of c))) (\<lambda>_.
            bail ''dependency command failed; VM state may have changed; run `luhmen inspect` before retrying'')) env w2"
    using assms(3) sp cap by (simp add: run_command_def check_cancelled_def observe_def bind_def return_def)
  from cap show ?thesis
  proof (cases rule: attempt_cases)
    case (1 a)
    obtain s out err where a: "a = (s, out, err)" by (cases a)
    with 1(2) have captured: "capture (argv_of c) (happenings env (clock w1) (argv_of c) timeout) False False [] [] env w1
        = (Done (s, out, err), w2)"
      by (auto simp: happenings_of_def elim!: bind_DoneE dest!: observe_DoneD)
    have "ended env w1 w2 (argv_of c) s" using capture_Done [OF captured] by (simp add: capture_result_def)
    then have "ended env w w2 (argv_of c) s" using sp' by (auto elim: ended_weaken)
    moreover have "commands w2 = commands w1" using obeysD [OF same.capture captured] by (simp add: same_commands_def)
    moreover have "w' = w2" using run assms(4) 1(1) by (simp add: lift_cases split: result.splits)
    ultimately show ?thesis using sp' by auto
  next
    case (2 e)
    have failed: "obeys env same_commands ?capture" by (intro same.basic same.observe same.capture)
    have "commands w2 = commands w1" using obeysD [OF failed 2(2)] by (simp add: same_commands_def)
    moreover obtain k w3 where k: "attempt (terminate_group (argv_of c)) env w2 = (k, w3)" by fastforce
    moreover obtain k' where "terminate_group (argv_of c) env w2 = (k', w3)"
      using k by (auto simp: attempt_def split: prod.splits outcome.splits)
    ultimately obtain pgroup where log:
        "commands w3 = commands w @ [argv_of c, kill_argv ''-TERM'' pgroup, kill_argv ''-KILL'' pgroup]"
      using terminate_group_log [OF assms(1)] sp' by fastforce
    moreover have "k \<noteq> Crashed"
      using survives_attempt [OF survives_terminate_group [OF assms(1)], of "argv_of c"] k
      unfolding survives_def by (metis fst_conv)
    ultimately show ?thesis
      using run assms(4) 2(1) k by (cases k) (auto simp: bind_def bail_def)
  qed
qed


text \<open>A dependency that writes and does not end before the deadline.\<close>

definition hanging :: environment where
  "hanging = quiet\<lparr>happenings := \<lambda>_ _ _. [Out_Chunk (Some ''x'')]\<rparr>"

lemma hanging_run:
  "map_prod id commands (run_command sample_command 20000 hanging empty_world) =
     (Failed ''dependency command failed; VM state may have changed; run `luhmen inspect` before retrying'',
      [argv_of sample_command, kill_argv ''-TERM'' ''-99'', kill_argv ''-KILL'' ''-99''])"
  by code_simp


end
