(* ===== verification/Engine.thy ===== *)
theory Engine
  imports Config
begin

text \<open>
  The readiness probe of the Docker Engine (src/src/engine.rs): what a response to
  \<open>GET /_ping\<close> must be. The bytes are those the socket delivers within two seconds.
\<close>

definition CRLFCRLF :: string where
  "CRLFCRLF = [CHR 0x0D, CHR 0x0A, CHR 0x0D, CHR 0x0A]"

text \<open>\<open>str::split_once\<close> at the first occurrence of a pattern.\<close>

fun split_at :: "string \<Rightarrow> string \<Rightarrow> (string \<times> string) option" where
  "split_at p [] = (if p = [] then Some ([], []) else None)"
| "split_at p (c # s) =
     (if starts_with (c # s) p then Some ([], drop (length p) (c # s))
      else map_option (\<lambda>(l, r). (c # l, r)) (split_at p s))"

definition parse_ping :: "string \<Rightarrow> (unit, string) result" where
  "parse_ping bytes =
     and_then (ensure (length bytes \<le> 8192) ''oversized Engine ping response'') (\<lambda>_.
     and_then (ensure (utf8_valid bytes) ''invalid utf-8'') (\<lambda>_.
     and_then (ok_or (split_at CRLFCRLF bytes) ''invalid Engine ping response'') (\<lambda>(head, body).
     and_then (ensure (starts_with head ''HTTP/1.0 200 '' \<or> starts_with head ''HTTP/1.1 200 '')
       ''Engine ping returned a non-200 response'') (\<lambda>_.
     ensure (trim body = ''OK'') ''Engine ping did not return OK''))))"

text \<open>At most 8193 bytes are read; the exchange fails when it exceeds two seconds.\<close>

definition ping :: "unit io" where
  "ping = bind exchange (\<lambda>bytes. lift (parse_ping (take 8193 bytes)))"

lemma split_at_SomeD: "split_at p s = Some (l, r) \<Longrightarrow> s = l @ p @ r"
  by (induction p s arbitrary: l r rule: split_at.induct)
    (auto split: if_splits simp: starts_with_iff_append)

lemma split_at_first:
  "split_at p s = Some (l, r) \<Longrightarrow> s = l' @ p @ r' \<Longrightarrow> length l \<le> length l'"
proof (induction p s arbitrary: l r l' rule: split_at.induct)
  case (2 p c s)
  show ?case
  proof (cases "starts_with (c # s) p")
    case False
    with 2(2) obtain k where k: "split_at p s = Some (k, r)" "l = c # k" by auto
    from False 2(3) obtain d l'' where "l' = d # l''" by (cases l') (auto simp: starts_with_iff_append)
    with 2(1) [OF False k(1), of l''] 2(3) k(2) show ?thesis by simp
  next
    case True
    with 2(2) have "l = []" by simp
    then show ?thesis by simp
  qed
qed auto

lemma split_at_exists: "s = l @ p @ r \<Longrightarrow> split_at p s \<noteq> None"
proof (induction p s arbitrary: l rule: split_at.induct)
  case (2 p c s)
  show ?case
  proof (cases "starts_with (c # s) p")
    case False
    with 2(2) obtain d l'' where "l = d # l''" by (cases l) (auto simp: starts_with_iff_append)
    with 2(1) [OF False, of l''] 2(2) show ?thesis by (cases "split_at p s") auto
  qed simp
qed simp

text \<open>The first occurrence.\<close>

lemma split_at_iff:
  "split_at p s = Some (l, r) \<longleftrightarrow> s = l @ p @ r \<and> (\<forall>l' r'. s = l' @ p @ r' \<longrightarrow> length l \<le> length l')"
proof
  assume "split_at p s = Some (l, r)"
  then show "s = l @ p @ r \<and> (\<forall>l' r'. s = l' @ p @ r' \<longrightarrow> length l \<le> length l')"
    using split_at_SomeD split_at_first by blast
next
  assume a: "s = l @ p @ r \<and> (\<forall>l' r'. s = l' @ p @ r' \<longrightarrow> length l \<le> length l')"
  then have s: "s = l @ p @ r" by (rule conjunct1)
  obtain k q where k: "split_at p s = Some (k, q)" using split_at_exists [OF s] by auto
  have s': "s = k @ p @ q" by (rule split_at_SomeD [OF k])
  have "length k = length l"
    using split_at_first [OF k s] conjunct2 [OF a, THEN spec, THEN spec, THEN mp, OF s'] by (rule le_antisym)
  then have "k = l" "q = r" using s s' by (metis append_eq_append_conv)+
  with k show "split_at p s = Some (l, r)" by simp
qed

text \<open>
  The Engine counts as ready exactly for a UTF-8 response of at most 8192 bytes whose
  part before the first blank line opens with a 200 status of HTTP/1.0 or 1.1 and whose part
  after it is OK but for surrounding white space.
\<close>

theorem ping_accepts_200_OK:
  "parse_ping bytes = Ok () \<longleftrightarrow>
     length bytes \<le> 8192 \<and> utf8_valid bytes \<and>
     (\<exists>head body. bytes = head @ CRLFCRLF @ body
        \<and> (\<forall>l r. bytes = l @ CRLFCRLF @ r \<longrightarrow> length head \<le> length l)
        \<and> (starts_with head ''HTTP/1.0 200 '' \<or> starts_with head ''HTTP/1.1 200 '') \<and> trim body = ''OK'')"
proof -
  have "parse_ping bytes = Ok () \<longleftrightarrow> length bytes \<le> 8192 \<and> utf8_valid bytes \<and>
     (\<exists>head body. split_at CRLFCRLF bytes = Some (head, body)
        \<and> (starts_with head ''HTTP/1.0 200 '' \<or> starts_with head ''HTTP/1.1 200 '') \<and> trim body = ''OK'')"
    by (auto simp: parse_ping_def)
  then show ?thesis by (simp only: split_at_iff conj_assoc)
qed

lemma sample_ping: "parse_ping (''HTTP/1.1 200 OK'' @ CRLFCRLF @ ''OK'') = Ok ()"
  by code_simp

theorem ping_accepts_200_OK_witness: "utf8_valid (''HTTP/1.1 200 OK'' @ CRLFCRLF @ ''OK'')"
  using ping_accepts_200_OK [of "''HTTP/1.1 200 OK'' @ CRLFCRLF @ ''OK''"] sample_ping by blast

end
