(* ===== verification/Startup.thy ===== *)
theory Startup
  imports Config
begin

text \<open>
  The diagnostics of a start or restart (src/src/startup.rs): a report with one entry per
  stage, saved after every change, and reading the last report back. serde's encoder and
  decoder of the report are arguments; times are milliseconds of the world's clock.
\<close>

section \<open>The report\<close>

datatype stage_outcome = Stage_Running | Stage_Complete | Stage_Failed | Stage_Skipped

record stage =
  stage_name :: string
  stage_result :: stage_outcome
  stage_elapsed :: nat

record report =
  report_schema :: nat
  report_operation :: string
  started_unix_ms :: nat
  report_result :: stage_outcome
  report_elapsed :: nat
  stages :: "stage list"

record trace =
  trace_file :: string
  trace_started :: nat
  trace_report :: report

definition saturate_u64 :: "nat \<Rightarrow> nat" where
  "saturate_u64 n = min n (2 ^ 64 - 1)"

definition millis :: "nat \<Rightarrow> nat io" where
  "millis started env w = (Done (saturate_u64 (now w - started)), w)"

definition current_time :: "nat io" where
  "current_time env w = (Done (now w), w)"

text \<open>Diagnostics must not interrupt the operation: a checkpoint that fails is only reported.\<close>

definition checkpoint :: "(report \<Rightarrow> string option) \<Rightarrow> trace \<Rightarrow> unit io" where
  "checkpoint encode tr =
     ignoring (bind (lift (ok_or (encode (trace_report tr)) ''encode'')) (\<lambda>bytes. atomic_write (trace_file tr) bytes))"

definition trace_new :: "(report \<Rightarrow> string option) \<Rightarrow> nat \<Rightarrow> string \<Rightarrow> string \<Rightarrow> trace io" where
  "trace_new encode unix_ms state operation =
     bind current_time (\<lambda>started.
     let tr = \<lparr>trace_file = path_join state ''last-start.json'', trace_started = started,
       trace_report = \<lparr>report_schema = 1, report_operation = operation,
         started_unix_ms = saturate_u64 unix_ms, report_result = Stage_Running, report_elapsed = 0, stages = []\<rparr>\<rparr>
     in after (checkpoint encode tr) (return tr))"

definition push_stage :: "string \<Rightarrow> stage_outcome \<Rightarrow> trace \<Rightarrow> trace" where
  "push_stage name result tr =
     tr\<lparr>trace_report := (trace_report tr)\<lparr>stages := stages (trace_report tr) @
       [\<lparr>stage_name = name, stage_result = result, stage_elapsed = 0\<rparr>]\<rparr>\<rparr>"

definition finish_stage :: "bool \<Rightarrow> nat \<Rightarrow> nat \<Rightarrow> trace \<Rightarrow> trace" where
  "finish_stage success elapsed overall tr =
     (let rep = trace_report tr;
          done = (last (stages rep))\<lparr>stage_elapsed := elapsed,
            stage_result := (if success then Stage_Complete else Stage_Failed)\<rparr>
      in tr\<lparr>trace_report := rep\<lparr>stages := butlast (stages rep) @ [done], report_elapsed := overall,
           report_result := (if success then report_result rep else Stage_Failed)\<rparr>\<rparr>)"

text \<open>A stage returns the operation's result with the trace, which records it.\<close>

definition run_stage ::
  "(report \<Rightarrow> string option) \<Rightarrow> string \<Rightarrow> 'a io \<Rightarrow> trace \<Rightarrow> (('a, string) result \<times> trace) io"
where
  "run_stage encode name operation tr =
     (let tr = push_stage name Stage_Running tr in
      after (checkpoint encode tr)
      (bind current_time (\<lambda>started.
       bind (attempt operation) (\<lambda>result.
       bind (millis started) (\<lambda>elapsed.
       bind (millis (trace_started tr)) (\<lambda>overall.
       let tr = finish_stage (is_ok result) elapsed overall tr in
       after (checkpoint encode tr) (return (result, tr))))))))"

definition skip_stage :: "(report \<Rightarrow> string option) \<Rightarrow> string \<Rightarrow> trace \<Rightarrow> trace io" where
  "skip_stage encode name tr =
     (let tr = push_stage name Stage_Skipped tr in after (checkpoint encode tr) (return tr))"

definition complete_trace :: "(report \<Rightarrow> string option) \<Rightarrow> trace \<Rightarrow> trace io" where
  "complete_trace encode tr =
     bind (millis (trace_started tr)) (\<lambda>overall.
     let tr = tr\<lparr>trace_report := (trace_report tr)\<lparr>report_result := Stage_Complete, report_elapsed := overall\<rparr>\<rparr> in
     after (checkpoint encode tr) (return tr))"

definition read_report :: "(string \<Rightarrow> report option) \<Rightarrow> string \<Rightarrow> report option io" where
  "read_report decode state =
     (let file = path_join state ''last-start.json'' in
      bind (lstat file) (\<lambda>node.
      case node of
        None \<Rightarrow> return None
      | Some n \<Rightarrow>
          after (require (is_regular n) ''startup diagnostics must be a regular file'')
          (bind (read_contents file) (\<lambda>bytes.
           after (require (length bytes \<le> 65536) ''startup diagnostics exceed 64 KiB'')
           (bind (lift (ok_or (decode bytes) ''invalid startup diagnostics'')) (\<lambda>rep.
           after (require (report_schema rep = 1) ''unsupported startup diagnostics schema'')
           (return (Some rep))))))))"

section \<open>Checkpoints and stages\<close>

lemma survives_atomic_write:
  assumes u: "unkilled env"
  shows "survives env (atomic_write path bytes)"
proof -
  have publish: "survives env (write_and_publish tmp path bytes)" for tmp
    unfolding write_and_publish_def
    by (intro survives_bind survives_pure survives_write_all survives_calls u)
  have "survives env (bind (attempt (write_and_publish tmp path bytes)) (\<lambda>result.
      after (if is_ok result then return () else ignoring (remove_file tmp)) (lift result)))" for tmp
    by (intro survives_bind survives_attempt survives_if survives_ignoring survives_pure survives_calls u publish)
  then show ?thesis
    by (simp add: survives_def atomic_write_def Let_def cong: if_cong)
qed

lemma checkpoint_Done: "unkilled env \<Longrightarrow> \<exists>w'. checkpoint encode tr env w = (Done (), w')"
  unfolding checkpoint_def
  by (intro ignoring_Done survives_bind survives_pure survives_atomic_write)

definition recorded :: "string \<Rightarrow> ('a, string) result \<Rightarrow> trace \<Rightarrow> trace \<Rightarrow> bool" where
  "recorded name result before later \<longleftrightarrow>
     (\<exists>elapsed. stages (trace_report later) = stages (trace_report before) @
        [\<lparr>stage_name = name, stage_result = (if is_ok result then Stage_Complete else Stage_Failed), stage_elapsed = elapsed\<rparr>]
        \<and> elapsed < 2 ^ 64)
     \<and> report_result (trace_report later) = (if is_ok result then report_result (trace_report before) else Stage_Failed)"

lemma run_stage_Done:
  assumes "unkilled env" "survives env operation"
  shows "\<exists>result tr' w0 w1 w'. attempt operation env w0 = (Done result, w1) \<and>
     run_stage encode name operation tr env w = (Done (result, tr'), w') \<and> recorded name result tr tr'"
proof -
  let ?tr = "push_stage name Stage_Running tr"
  obtain w0 where w0: "checkpoint encode ?tr env w = (Done (), w0)" using checkpoint_Done [OF assms(1)] by blast
  obtain result w1 where r: "attempt operation env w0 = (Done result, w1)"
    using attempt_Done [OF assms(2)] by blast
  let ?tr' = "finish_stage (is_ok result) (saturate_u64 (now w1 - now w0)) (saturate_u64 (now w1 - trace_started ?tr)) ?tr"
  obtain w2 where w2: "checkpoint encode ?tr' env w1 = (Done (), w2)" using checkpoint_Done [OF assms(1)] by blast
  have "run_stage encode name operation tr env w = (Done (result, ?tr'), w2)"
    by (simp add: run_stage_def Let_def bind_def w0 r current_time_def millis_def w2 return_def)
  moreover have "recorded name result tr ?tr'"
    by (simp add: recorded_def finish_stage_def push_stage_def Let_def saturate_u64_def min_def)
  ultimately show ?thesis using r by blast
qed

section \<open>Properties\<close>


definition sample_trace :: trace where
  "sample_trace = \<lparr>trace_file = ''/s/last-start.json'', trace_started = 0,
     trace_report = \<lparr>report_schema = 1, report_operation = ''start'', started_unix_ms = 9, report_result = Stage_Running,
       report_elapsed = 0, stages = []\<rparr>\<rparr>"


lemma holds_saved:
  assumes "leaves env {target, temporary_of env target}" and "temporary_of env target \<noteq> target"
  shows "holds env (\<lambda>_. True) (atomic_write target bytes)
    (\<lambda>_ fs. fs target = Some (Regular bytes (private_file env))) (\<lambda>_. True)"
  by (rule holds_weaken, rule holds_atomic_write [where S = "{target}" and J = "\<lambda>_. True"])
    (use assms in \<open>auto simp: watches_def intro: leaves_mono\<close>)


lemma sample_saves: "fst (atomic_write ''/s/last-start.json'' ''{}'' quiet
    \<lparr>files = [''/s/'' \<mapsto> Directory 448, ''/s'' \<mapsto> Directory 448], clock = 0, now = 0, commands = []\<rparr>) = Done ()"
  by code_simp


end
