(* ===== verification/Json_Value.thy ===== *)
theory Json_Value
  imports Prelude "HOL-Library.List_Lexorder" "HOL-Library.Char_ord"
begin

text \<open>
  serde_json's \<open>Value\<close> as the host code uses it. An object is a list of members sorted by key
  (serde_json keeps a BTreeMap); reading a missing member by index gives null. Parsing and
  printing are serde_json's and arguments of the definitions that use them.
\<close>

datatype json_type = Null | Boolean bool | Numeral string | Str string | Array "json_type list" | Object "(string \<times> json_type) list"

fun put_member :: "string \<Rightarrow> 'v \<Rightarrow> (string \<times> 'v) list \<Rightarrow> (string \<times> 'v) list" where
  "put_member k v [] = [(k, v)]"
| "put_member k v ((l, u) # ms) =
     (if k = l then (k, v) # ms else if k < l then (k, v) # (l, u) # ms else (l, u) # put_member k v ms)"

definition object :: "(string \<times> json_type) list \<Rightarrow> json_type" where
  "object ms = Object (foldl (\<lambda>m (k, v). put_member k v m) [] ms)"

fun get_member :: "string \<Rightarrow> json_type \<Rightarrow> json_type option" where
  "get_member k (Object ms) = map_of ms k"
| "get_member k _ = None"

definition index_member :: "json_type \<Rightarrow> string \<Rightarrow> json_type" where
  "index_member v k = (case get_member k v of None \<Rightarrow> Null | Some x \<Rightarrow> x)"

fun set_member :: "string \<Rightarrow> json_type \<Rightarrow> json_type \<Rightarrow> json_type" where
  "set_member k x (Object ms) = Object (put_member k x ms)"
| "set_member k x v = v"

fun as_str :: "json_type \<Rightarrow> string option" where
  "as_str (Str s) = Some s"
| "as_str _ = None"

fun as_bool :: "json_type \<Rightarrow> bool option" where
  "as_bool (Boolean b) = Some b"
| "as_bool _ = None"

fun is_object :: "json_type \<Rightarrow> bool" where
  "is_object (Object ms) = True"
| "is_object _ = False"

fun is_array :: "json_type \<Rightarrow> bool" where
  "is_array (Array vs) = True"
| "is_array _ = False"

text \<open>\<open>Value::pointer\<close> through object members.\<close>

fun pointer :: "string list \<Rightarrow> json_type \<Rightarrow> json_type option" where
  "pointer [] v = Some v"
| "pointer (k # ks) v = (case get_member k v of None \<Rightarrow> None | Some x \<Rightarrow> pointer ks x)"

definition str_member :: "string \<Rightarrow> json_type \<Rightarrow> string option" where
  "str_member k v = Option.bind (get_member k v) as_str"

lemma map_of_put [simp]: "map_of (put_member k v ms) = (map_of ms)(k \<mapsto> v)"
  by (induction k v ms rule: put_member.induct) auto

lemma map_of_foldl_put: "map_of (foldl (\<lambda>m (k, v). put_member k v m) acc ms) = (map_of acc) ++ map_of (rev ms)"
  by (induction ms arbitrary: acc) (auto simp: fun_eq_iff map_add_def split: option.split)

lemma get_member_object [simp]: "get_member k (object ms) = map_of (rev ms) k"
  by (simp add: object_def map_of_foldl_put)

lemma get_set_member: "is_object v \<Longrightarrow> get_member k (set_member l x v) = (if k = l then Some x else get_member k v)"
  by (cases v) auto

text \<open>Members sorted by key, each key once: what serde_json's map holds.\<close>

definition canonical_members :: "(string \<times> 'v) list \<Rightarrow> bool" where
  "canonical_members ms \<longleftrightarrow> sorted_wrt (<) (map fst ms)"

lemma put_member_keys: "fst ` set (put_member k v ms) = insert k (fst ` set ms)"
  by (induction k v ms rule: put_member.induct) auto

lemma canonical_Cons:
  "canonical_members ((l, u) # ms) \<longleftrightarrow> (\<forall>x\<in>fst ` set ms. l < x) \<and> canonical_members ms"
  by (auto simp: canonical_members_def)

lemma canonical_put: "canonical_members ms \<Longrightarrow> canonical_members (put_member k v ms)"
proof (induction k v ms rule: put_member.induct)
  case (2 k v l u ms)
  then have ms: "\<forall>x\<in>fst ` set ms. l < x" "canonical_members ms" by (simp_all add: canonical_Cons)
  consider "k = l" | "k < l" | "l < k" by (rule linorder_cases) blast+
  then show ?case
  proof cases
    case 2
    have "\<forall>x\<in>fst ` set ((l, u) # ms). k < x" using ms(1) 2 by (auto intro: less_trans)
    then show ?thesis using 2 ms by (simp add: canonical_Cons)
  next
    case 3
    then have "\<not> k < l" "k \<noteq> l" by auto
    then have "canonical_members (put_member k v ms)" using 2(1) ms(2) by simp
    moreover have "\<forall>x\<in>fst ` set (put_member k v ms). l < x" using ms(1) 3 by (simp add: put_member_keys)
    ultimately show ?thesis using \<open>\<not> k < l\<close> \<open>k \<noteq> l\<close> by (simp add: canonical_Cons)
  qed (use ms in \<open>simp add: canonical_Cons\<close>)
qed (simp add: canonical_members_def)

text \<open>Writing back a member that is there changes nothing.\<close>

lemma put_member_same: "canonical_members ms \<Longrightarrow> map_of ms k = Some v \<Longrightarrow> put_member k v ms = ms"
proof (induction k v ms rule: put_member.induct)
  case (2 k v l u ms)
  show ?case
  proof (cases "k = l")
    case False
    then have v: "map_of ms k = Some v" using 2(3) by simp
    then have "k \<in> fst ` set ms" by (metis domI dom_map_of_conv_image_fst)
    moreover have ms: "\<forall>x\<in>fst ` set ms. l < x" "canonical_members ms" using 2(2) by (simp_all add: canonical_Cons)
    ultimately have "l < k" by blast
    then have "\<not> k < l" by simp
    with 2(1) [OF False this ms(2) v] False show ?thesis by simp
  qed (use 2(3) in simp)
qed simp

end
