(* ===== verification/Vm_Scripts.thy ===== *)
theory Vm_Scripts
  imports Prelude
begin

text \<open>
  The text constants of the VM template (src/src/vm_template.rs): pinned versions, URLs and
  digests, and the guest's scripts and units, line by line.
\<close>

definition unlines :: "string list \<Rightarrow> string" where
  "unlines ls = concat (map (\<lambda>l. l @ [CHR 0x0A]) ls)"

definition FIRECRACKER_SHA256 :: string where
  "FIRECRACKER_SHA256 = ''8d0e69f6d6f9a1724551f607f18504052c16c1828ee3d4d7b6e6c73380871e0e''"

definition FIRECRACKER_URL :: string where
  "FIRECRACKER_URL = ''https://github.com/firecracker-microvm/firecracker/releases/download/v1.16.1/firecracker-v1.16.1-aarch64.tgz''"

definition FIRECRACKER_VERSION :: string where
  "FIRECRACKER_VERSION = ''1.16.1''"

definition UBUNTU_SNAPSHOT :: string where
  "UBUNTU_SNAPSHOT = ''20260906T000000Z''"

definition DOCKER_SHA256 :: string where
  "DOCKER_SHA256 = ''1462a696be6029bd478d7d60d7f3c31cdd15affd1178a4a278aaf4a1d1b7f8b5''"

definition DOCKER_URL :: string where
  "DOCKER_URL = ''https://download.docker.com/linux/static/stable/aarch64/docker-29.8.0.tgz''"

definition DOCKER_VERSION :: string where
  "DOCKER_VERSION = ''29.8.0''"

definition IMAGE_SHA256 :: string where
  "IMAGE_SHA256 = ''8b6e0e145ae2ce681d959b2b3aabcf724b027cbffff9ec8ba4d7dc789a3e6a98''"

definition IMAGE_MIRROR_URL :: string where
  "IMAGE_MIRROR_URL = ''https://mirrors.nju.edu.cn/ubuntu-cloud-images/minimal/releases/noble/release-20260905/ubuntu-24.04-minimal-cloudimg-arm64.img''"

definition IMAGE_URL :: string where
  "IMAGE_URL = ''https://cloud-images.ubuntu.com/minimal/releases/noble/release-20260905/ubuntu-24.04-minimal-cloudimg-arm64.img''"

definition SYSTEMD_LOGIND_COMPAT :: string where
  "SYSTEMD_LOGIND_COMPAT = unlines [
    ''#!/bin/sh'',
    ''set -eu'',
    ''dropin=/etc/systemd/system/systemd-logind.service.d/50-luhmen-session-tracking.conf'',
    ''if [ '' @ [CHR 0x22] @ ''$(dpkg-query -W -f='' @ [CHR 0x27] @ ''${Version}'' @ [CHR 0x27] @ '' systemd)'' @ [CHR 0x22] @ '' = '' @ [CHR 0x22] @ ''255.4-1ubuntu8.17'' @ [CHR 0x22] @ '' ]; then'',
    ''    install -d -m 0755 '' @ [CHR 0x22] @ ''${dropin%/*}'' @ [CHR 0x22],
    ''    cat > '' @ [CHR 0x22] @ ''$dropin'' @ [CHR 0x22] @ '' <<'' @ [CHR 0x27] @ ''SERVICE'' @ [CHR 0x27],
    ''[Service]'',
    ''SystemCallFilter=~pidfd_open'',
    ''SERVICE'',
    ''elif [ -f '' @ [CHR 0x22] @ ''$dropin'' @ [CHR 0x22] @ '' ]; then'',
    ''    rm -f '' @ [CHR 0x22] @ ''$dropin'' @ [CHR 0x22],
    ''else'',
    ''    exit 0'',
    ''fi'',
    ''systemctl daemon-reload'',
    ''systemctl try-restart systemd-logind.service'']"

definition DEPENDENCIES :: string where
  "DEPENDENCIES = unlines [
    ''#!/bin/sh'',
    ''set -eu'',
    ''export DEBIAN_FRONTEND=noninteractive'',
    ''# Pin the source URL itself: snapshot autodetection needs an existing Release'',
    ''# index, which this minimal image does not contain on its first boot.'',
    ''cat > /etc/apt/sources.list.d/ubuntu.sources <<'' @ [CHR 0x27] @ ''SOURCES'' @ [CHR 0x27],
    ''Types: deb'',
    ''URIs: https://snapshot.ubuntu.com/ubuntu/@SNAPSHOT@'',
    ''Suites: noble noble-updates noble-security'',
    ''Components: main universe'',
    ''Architectures: arm64'',
    ''Signed-By: /usr/share/keyrings/ubuntu-archive-keyring.gpg'',
    ''Snapshot: no'',
    ''SOURCES'',
    ''rm -f /etc/apt/apt.conf.d/50-luhmen-snapshot'',
    ''if ! command -v iptables >/dev/null 2>&1 || ! command -v nft >/dev/null 2>&1 || ! command -v rsync >/dev/null 2>&1 || ! command -v flock >/dev/null 2>&1@MICROVM_CHECK@; then'',
    ''    apt-get update -o APT::Update::Error-Mode=any'',
    ''    apt-get install -y --no-install-recommends iptables nftables rsync curl ca-certificates util-linux@MICROVM_PACKAGES@'',
    ''fi'']"

definition INSTALL_FIRECRACKER :: string where
  "INSTALL_FIRECRACKER = unlines [
    ''#!/bin/sh'',
    ''set -eu'',
    ''install_root=/opt/luhmen/firecracker/@VERSION@'',
    ''install -d -m 0755 /opt/luhmen/firecracker'',
    ''if [ ! -f '' @ [CHR 0x22] @ ''$install_root/.complete'' @ [CHR 0x22] @ '' ]; then'',
    ''    if [ -e '' @ [CHR 0x22] @ ''$install_root'' @ [CHR 0x22] @ '' ]; then'',
    ''        echo '' @ [CHR 0x22] @ ''Incomplete Firecracker installation at $install_root; inspect this directory before retrying'' @ [CHR 0x22] @ '' >&2'',
    ''        exit 1'',
    ''    fi'',
    ''    stage=$(mktemp -d /opt/luhmen/firecracker/.install.XXXXXX)'',
    ''    trap '' @ [CHR 0x27] @ ''rm -rf '' @ [CHR 0x22] @ ''$stage'' @ [CHR 0x22, CHR 0x27] @ '' EXIT HUP INT TERM'',
    ''    curl --fail --location --silent --show-error --proto '' @ [CHR 0x27] @ ''=https'' @ [CHR 0x27] @ '' --tlsv1.2 --connect-timeout 20 --max-time 600 --retry 3 '' @ [CHR 0x27] @ ''@URL@'' @ [CHR 0x27] @ '' -o '' @ [CHR 0x22] @ ''$stage/firecracker.tgz'' @ [CHR 0x22],
    ''    printf '' @ [CHR 0x27] @ ''%s  %s'' @ [CHR 0x5C] @ ''n'' @ [CHR 0x27] @ '' '' @ [CHR 0x27] @ ''@SHA256@'' @ [CHR 0x27] @ '' '' @ [CHR 0x22] @ ''$stage/firecracker.tgz'' @ [CHR 0x22] @ '' | sha256sum --check --status'',
    ''    tar -xzf '' @ [CHR 0x22] @ ''$stage/firecracker.tgz'' @ [CHR 0x22] @ '' -C '' @ [CHR 0x22] @ ''$stage'' @ [CHR 0x22],
    ''    release='' @ [CHR 0x22] @ ''$stage/release-v@VERSION@-aarch64'' @ [CHR 0x22],
    ''    test -x '' @ [CHR 0x22] @ ''$release/firecracker-v@VERSION@-aarch64'' @ [CHR 0x22],
    ''    test -x '' @ [CHR 0x22] @ ''$release/jailer-v@VERSION@-aarch64'' @ [CHR 0x22],
    ''    install -d -m 0755 '' @ [CHR 0x22] @ ''$stage/firecracker'' @ [CHR 0x22],
    ''    install -m 0755 '' @ [CHR 0x22] @ ''$release/firecracker-v@VERSION@-aarch64'' @ [CHR 0x22] @ '' '' @ [CHR 0x22] @ ''$stage/firecracker/firecracker'' @ [CHR 0x22],
    ''    install -m 0755 '' @ [CHR 0x22] @ ''$release/jailer-v@VERSION@-aarch64'' @ [CHR 0x22] @ '' '' @ [CHR 0x22] @ ''$stage/firecracker/jailer'' @ [CHR 0x22],
    ''    for notice in LICENSE NOTICE THIRD-PARTY; do'',
    ''        install -m 0644 '' @ [CHR 0x22] @ ''$release/$notice'' @ [CHR 0x22] @ '' '' @ [CHR 0x22] @ ''$stage/firecracker/$notice'' @ [CHR 0x22],
    ''    done'',
    ''    printf '' @ [CHR 0x27] @ ''%s'' @ [CHR 0x5C] @ ''n'' @ [CHR 0x27] @ '' '' @ [CHR 0x27] @ ''@SHA256@'' @ [CHR 0x27] @ '' > '' @ [CHR 0x22] @ ''$stage/firecracker/.complete'' @ [CHR 0x22],
    ''    mv '' @ [CHR 0x22] @ ''$stage/firecracker'' @ [CHR 0x22] @ '' '' @ [CHR 0x22] @ ''$install_root'' @ [CHR 0x22],
    ''    rm -rf '' @ [CHR 0x22] @ ''$stage'' @ [CHR 0x22],
    ''    trap - EXIT HUP INT TERM'',
    ''fi'',
    ''ln -sfn '' @ [CHR 0x22] @ ''$install_root/firecracker'' @ [CHR 0x22] @ '' /usr/local/bin/firecracker'',
    ''ln -sfn '' @ [CHR 0x22] @ ''$install_root/jailer'' @ [CHR 0x22] @ '' /usr/local/bin/jailer'',
    ''systemctl daemon-reload'',
    ''systemctl enable --now luhmen-microvmd.service'']"

definition MICROVMD_SERVICE :: string where
  "MICROVMD_SERVICE = unlines [
    ''[Unit]'',
    ''Description=luhmen Firecracker microVM manager'',
    ''After=local-fs.target'',
    ''ConditionPathExists=/usr/local/bin/firecracker'',
    ''ConditionPathExists=/usr/local/bin/jailer'',
    ''ConditionPathExists=/usr/bin/socat'',
    [],
    ''[Service]'',
    ''Type=simple'',
    ''User=root'',
    ''Group=root'',
    ''RuntimeDirectory=luhmen'',
    ''StateDirectory=luhmen'',
    ''ExecStart=/usr/local/libexec/luhmen-microvmd-service'',
    ''Restart=on-failure'',
    ''RestartSec=2s'',
    ''Delegate=yes'',
    ''UMask=0077'',
    [],
    ''[Install]'',
    ''WantedBy=multi-user.target'']"

definition DOCKER_SOCKET :: string where
  "DOCKER_SOCKET = unlines [
    ''[Unit]'',
    ''Description=Docker Engine API socket'',
    [],
    ''[Socket]'',
    ''ListenStream=/var/run/docker.sock'',
    ''SocketMode=0600'',
    ''SocketUser={{.User}}'',
    ''RemoveOnStop=true'',
    ''ExecStartPre=/usr/local/libexec/luhmen-docker-config-signature prepare socket'',
    ''ExecStartPost=/usr/local/libexec/luhmen-docker-config-signature commit socket'',
    ''ExecStopPost=/usr/local/libexec/luhmen-docker-config-signature clear socket'',
    [],
    ''[Install]'',
    ''WantedBy=sockets.target'']"

definition DOCKER_SERVICE :: string where
  "DOCKER_SERVICE = unlines [
    ''[Unit]'',
    ''Description=Docker Engine'',
    ''Requires=docker.socket'',
    ''After=network-online.target docker.socket'',
    ''Wants=network-online.target'',
    [],
    ''[Service]'',
    ''Type=notify'',
    ''Environment=PATH=/usr/local/bin:/usr/local/sbin:/usr/sbin:/usr/bin:/sbin:/bin'',
    ''EnvironmentFile=-/etc/environment'',
    ''ExecStartPre=/usr/local/libexec/luhmen-docker-config-signature prepare service'',
    ''ExecStart=/usr/local/bin/dockerd --host=fd:// --config-file=/etc/docker/daemon.json'',
    ''ExecStartPost=/usr/local/libexec/luhmen-docker-config-signature commit service'',
    ''ExecStopPost=/usr/local/libexec/luhmen-docker-config-signature clear service'',
    ''ExecReload=/bin/kill -s HUP $MAINPID'',
    ''Restart=on-failure'',
    ''RestartSec=2s'',
    ''TimeoutStartSec=120s'',
    ''TimeoutStopSec=120s'',
    ''LimitNOFILE=infinity'',
    ''TasksMax=infinity'',
    ''Delegate=yes'',
    ''KillMode=process'',
    ''OOMScoreAdjust=-500'',
    [],
    ''[Install]'',
    ''WantedBy=multi-user.target'']"

definition INSTALL_DOCKER :: string where
  "INSTALL_DOCKER = unlines [
    ''#!/bin/sh'',
    ''set -eu'',
    ''shutdown_binary=/usr/local/libexec/luhmen-docker-shutdown'',
    ''shutdown_encoded='' @ [CHR 0x22] @ ''$shutdown_binary.b64'' @ [CHR 0x22],
    ''shutdown_stage=$(mktemp /usr/local/libexec/.luhmen-docker-shutdown.XXXXXX)'',
    ''trap '' @ [CHR 0x27] @ ''rm -f '' @ [CHR 0x22] @ ''$shutdown_stage'' @ [CHR 0x22, CHR 0x27] @ '' EXIT HUP INT TERM'',
    ''base64 --decode '' @ [CHR 0x22] @ ''$shutdown_encoded'' @ [CHR 0x22] @ '' > '' @ [CHR 0x22] @ ''$shutdown_stage'' @ [CHR 0x22],
    ''chmod 0755 '' @ [CHR 0x22] @ ''$shutdown_stage'' @ [CHR 0x22],
    ''mv '' @ [CHR 0x22] @ ''$shutdown_stage'' @ [CHR 0x22] @ '' '' @ [CHR 0x22] @ ''$shutdown_binary'' @ [CHR 0x22],
    ''trap - EXIT HUP INT TERM'',
    ''install_root=/opt/luhmen/docker/@VERSION@'',
    ''install -d -m 0755 /opt/luhmen/docker'',
    ''for abandoned in /opt/luhmen/docker/.install.*; do'',
    ''    if [ -d '' @ [CHR 0x22] @ ''$abandoned'' @ [CHR 0x22] @ '' ]; then'',
    ''        rm -rf '' @ [CHR 0x22] @ ''$abandoned'' @ [CHR 0x22],
    ''    fi'',
    ''done'',
    ''if [ ! -f '' @ [CHR 0x22] @ ''$install_root/.complete'' @ [CHR 0x22] @ '' ]; then'',
    ''    if [ -e '' @ [CHR 0x22] @ ''$install_root'' @ [CHR 0x22] @ '' ]; then'',
    ''        echo '' @ [CHR 0x22] @ ''Incomplete Docker installation at $install_root; inspect this directory before retrying'' @ [CHR 0x22] @ '' >&2'',
    ''        exit 1'',
    ''    fi'',
    ''    stage=$(mktemp -d /opt/luhmen/docker/.install.XXXXXX)'',
    ''    trap '' @ [CHR 0x27] @ ''rm -rf '' @ [CHR 0x22] @ ''$stage'' @ [CHR 0x22, CHR 0x27] @ '' EXIT HUP INT TERM'',
    ''    curl --fail --location --silent --show-error --proto '' @ [CHR 0x27] @ ''=https'' @ [CHR 0x27] @ '' --tlsv1.2 --connect-timeout 20 --max-time 600 --retry 3 '' @ [CHR 0x27] @ ''@URL@'' @ [CHR 0x27] @ '' -o '' @ [CHR 0x22] @ ''$stage/docker.tgz'' @ [CHR 0x22],
    ''    printf '' @ [CHR 0x27] @ ''%s  %s'' @ [CHR 0x5C] @ ''n'' @ [CHR 0x27] @ '' '' @ [CHR 0x27] @ ''@SHA256@'' @ [CHR 0x27] @ '' '' @ [CHR 0x22] @ ''$stage/docker.tgz'' @ [CHR 0x22] @ '' | sha256sum --check --status'',
    ''    tar -xzf '' @ [CHR 0x22] @ ''$stage/docker.tgz'' @ [CHR 0x22] @ '' -C '' @ [CHR 0x22] @ ''$stage'' @ [CHR 0x22],
    ''    for binary in docker dockerd containerd containerd-shim-runc-v2 ctr runc docker-init docker-proxy; do'',
    ''        test -x '' @ [CHR 0x22] @ ''$stage/docker/$binary'' @ [CHR 0x22],
    ''    done'',
    ''    printf '' @ [CHR 0x27] @ ''%s'' @ [CHR 0x5C] @ ''n'' @ [CHR 0x27] @ '' '' @ [CHR 0x27] @ ''@SHA256@'' @ [CHR 0x27] @ '' > '' @ [CHR 0x22] @ ''$stage/docker/.complete'' @ [CHR 0x22],
    ''    mv '' @ [CHR 0x22] @ ''$stage/docker'' @ [CHR 0x22] @ '' '' @ [CHR 0x22] @ ''$install_root'' @ [CHR 0x22],
    ''    rm -rf '' @ [CHR 0x22] @ ''$stage'' @ [CHR 0x22],
    ''    trap - EXIT HUP INT TERM'',
    ''fi'',
    ''for binary in docker dockerd containerd containerd-shim-runc-v2 ctr runc docker-init docker-proxy; do'',
    ''    ln -sfn '' @ [CHR 0x22] @ ''$install_root/$binary'' @ [CHR 0x22] @ '' '' @ [CHR 0x22] @ ''/usr/local/bin/$binary'' @ [CHR 0x22],
    ''done'',
    ''systemctl daemon-reload'',
    ''systemctl enable docker.socket docker.service'',
    ''# The unit hooks record what this service instance actually loaded, including'',
    ''# on a warm boot before Lima rewrites its data files.'',
    ''helper=/usr/local/libexec/luhmen-docker-config-signature'',
    ''socket_signature=$('' @ [CHR 0x22] @ ''$helper'' @ [CHR 0x22] @ '' signature socket)'',
    ''service_signature=$('' @ [CHR 0x22] @ ''$helper'' @ [CHR 0x22] @ '' signature service)'',
    ''if [ '' @ [CHR 0x22] @ ''$(cat /run/luhmen-docker/socket.active 2>/dev/null || true)'' @ [CHR 0x22] @ '' != '' @ [CHR 0x22] @ ''$socket_signature'' @ [CHR 0x22] @ '' ]; then'',
    ''    dockerd --validate --config-file=/etc/docker/daemon.json'',
    ''    # Stop both in one transaction: Docker closes its inherited descriptor'',
    ''    # before systemd replaces the listener, and traffic cannot reactivate it.'',
    ''    systemctl stop docker.service docker.socket'',
    ''    systemctl start docker.socket docker.service'',
    ''elif [ '' @ [CHR 0x22] @ ''$(cat /run/luhmen-docker/service.active 2>/dev/null || true)'' @ [CHR 0x22] @ '' != '' @ [CHR 0x22] @ ''$service_signature'' @ [CHR 0x22] @ '' ]; then'',
    ''    dockerd --validate --config-file=/etc/docker/daemon.json'',
    ''    systemctl restart docker.service'',
    ''else'',
    ''    systemctl start docker.socket docker.service'',
    ''fi'']"

end
