(* ===== verification/Vm_Template.thy ===== *)
theory Vm_Template
  imports Config Json_Value Vm_Scripts
begin

text \<open>
  The VM template rendered from a configuration (src/src/vm_template.rs). The three guest
  scripts and the encoded helper that the file includes from elsewhere are arguments, as is
  serde_json's printer.
\<close>

record guest_files =
  docker_config_signature :: string
  docker_shutdown_base64 :: string
  microvm_helper :: string
  microvmd_launcher :: string

text \<open>\<open>str::replace\<close> of a non-empty pattern.\<close>

function replace_all :: "string \<Rightarrow> string \<Rightarrow> string \<Rightarrow> string" where
  "replace_all p t [] = []"
| "replace_all p t (c # s) =
     (if p \<noteq> [] \<and> starts_with (c # s) p then t @ replace_all p t (drop (length p) (c # s))
      else c # replace_all p t s)"
  by pat_completeness auto
termination
proof (relation "measure (\<lambda>(p, t, s). length s)")
  fix p t s :: string and c
  assume "p \<noteq> [] \<and> starts_with (c # s) p"
  then show "((p, t, drop (length p) (c # s)), p, t, c # s) \<in> measure (\<lambda>(p, t, s). length s)"
    by (cases p) auto
qed auto

definition mount_entry :: "mount \<Rightarrow> (json_type, string) result" where
  "mount_entry m =
     and_then (ensure (utf8_valid (mount_path m)) ''mount path must be UTF-8'') (\<lambda>_.
     Ok (object [(''location'', Str (mount_path m)), (''mountPoint'', Str (mount_path m)),
       (''writable'', Boolean (writable m))]))"

definition dependencies_script :: "bool \<Rightarrow> string" where
  "dependencies_script nested =
     replace_all ''@MICROVM_PACKAGES@'' (if nested then '' socat'' else [])
     (replace_all ''@MICROVM_CHECK@'' (if nested then '' || ! command -v socat >/dev/null 2>&1'' else [])
     (replace_all ''@SNAPSHOT@'' UBUNTU_SNAPSHOT DEPENDENCIES))"

definition install_docker_script :: string where
  "install_docker_script =
     replace_all ''@SHA256@'' DOCKER_SHA256 (replace_all ''@URL@'' DOCKER_URL
     (replace_all ''@VERSION@'' DOCKER_VERSION INSTALL_DOCKER))"

definition install_firecracker_script :: string where
  "install_firecracker_script =
     replace_all ''@SHA256@'' FIRECRACKER_SHA256 (replace_all ''@URL@'' FIRECRACKER_URL
     (replace_all ''@VERSION@'' FIRECRACKER_VERSION INSTALL_FIRECRACKER))"

definition data_file :: "string \<Rightarrow> string \<Rightarrow> string \<Rightarrow> json_type" where
  "data_file path contents permissions =
     object [(''mode'', Str ''data''), (''path'', Str path), (''content'', Str contents),
       (''owner'', Str ''root:root''), (''permissions'', Str permissions)]"

definition script_entry :: "string \<Rightarrow> string \<Rightarrow> json_type" where
  "script_entry stage_mode script = object [(''mode'', Str stage_mode), (''script'', Str script)]"

definition quoted :: "string \<Rightarrow> string" where
  "quoted s = [CHR 0x22] @ s @ [CHR 0x22]"

definition daemon_json :: string where
  "daemon_json = ''{'' @ quoted ''data-root'' @ '':'' @ quoted ''/var/lib/docker'' @ '','' @
     quoted ''log-driver'' @ '':'' @ quoted ''local'' @ '','' @ quoted ''live-restore'' @ '':true,'' @
     quoted ''features'' @ '':{'' @ quoted ''containerd-snapshotter'' @ '':true}}'' @ [CHR 0x0A]"

definition port_forwards :: "bool \<Rightarrow> json_type list" where
  "port_forwards nested =
     [object [(''guestSocket'', Str ''/var/run/docker.sock''), (''hostSocket'', Str ''{{.Dir}}/sock/docker.sock'')],
      object [(''guestIP'', Str ''127.0.0.1''), (''guestPortRange'', Array [Numeral ''1'', Numeral ''65535'']),
        (''hostIP'', Str ''127.0.0.1''), (''hostPortRange'', Array [Numeral ''1'', Numeral ''65535'']),
        (''proto'', Str ''any'')]] @
     (if nested then
       [object [(''guestSocket'', Str ''/run/luhmen/microvmd.sock''), (''hostSocket'', Str ''{{.Dir}}/sock/microvmd.sock'')]]
      else [])"

definition provision_entries :: "guest_files \<Rightarrow> bool \<Rightarrow> json_type list" where
  "provision_entries inc nested =
     [script_entry ''boot'' SYSTEMD_LOGIND_COMPAT,
      object [(''mode'', Str ''dependency''), (''skipDefaultDependencyResolution'', Boolean False),
        (''script'', Str (dependencies_script nested))],
      data_file ''/etc/docker/daemon.json'' daemon_json ''0600'',
      data_file ''/usr/local/libexec/luhmen-docker-config-signature'' (docker_config_signature inc) ''0755'',
      data_file ''/usr/local/libexec/luhmen-docker-shutdown.b64'' (docker_shutdown_base64 inc) ''0600'',
      data_file ''/etc/systemd/system/docker.socket'' DOCKER_SOCKET ''0644'',
      data_file ''/etc/systemd/system/docker.service'' DOCKER_SERVICE ''0644'',
      script_entry ''system'' install_docker_script] @
     (if nested then
       [data_file ''/usr/local/libexec/luhmen-microvmd'' (microvm_helper inc) ''0755'',
        data_file ''/usr/local/libexec/luhmen-microvmd-service'' (microvmd_launcher inc) ''0755'',
        data_file ''/etc/systemd/system/luhmen-microvmd.service'' MICROVMD_SERVICE ''0644'',
        script_entry ''system'' install_firecracker_script]
      else [])"

definition readiness_script :: string where
  "readiness_script = unlines [''#!/bin/sh'', ''set -eu'',
     ''response=$(curl --fail --silent --show-error --max-time 5 --unix-socket /var/run/docker.sock http://localhost/_ping)'',
     ''test '' @ quoted ''$response'' @ '' = OK'']"

definition image_entry :: "string \<Rightarrow> json_type" where
  "image_entry url = object [(''location'', Str url), (''arch'', Str ''aarch64''), (''digest'', Str (''sha256:'' @ IMAGE_SHA256))]"

definition switched :: "(string \<times> bool) list \<Rightarrow> json_type" where
  "switched ms = object (map (\<lambda>(k, b). (k, Boolean b)) ms)"

definition template_document :: "guest_files \<Rightarrow> config \<Rightarrow> json_type list \<Rightarrow> json_type" where
  "template_document inc c mount_entries = object [
     (''minimumLimaVersion'', Str LIMA_VERSION),
     (''vmType'', Str ''vz''),
     (''arch'', Str ''aarch64''),
     (''os'', Str ''Linux''),
     (''nestedVirtualization'', Boolean (nested_virtualization c)),
     (''images'', Array [image_entry IMAGE_URL, image_entry IMAGE_MIRROR_URL]),
     (''cpus'', Numeral (decimal (cpus c))),
     (''memory'', Str (decimal (memory_gib c) @ ''GiB'')),
     (''disk'', Str (decimal (disk_gib c) @ ''GiB'')),
     (''mountType'', Str ''virtiofs''),
     (''mountInotify'', Boolean True),
     (''mounts'', Array mount_entries),
     (''containerd'', switched [(''system'', False), (''user'', False)]),
     (''upgradePackages'', Boolean False),
     (''ssh'', switched [(''loadDotSSHPubKeys'', False), (''forwardAgent'', False), (''overVsock'', False)]),
     (''vmOpts'', object [(''vz'', object [(''rosetta'', switched [(''enabled'', False), (''binfmt'', False)])])]),
     (''hostResolver'', object [(''enabled'', Boolean True), (''ipv6'', Boolean False),
       (''hosts'', object [(''host.docker.internal'', Str ''host.lima.internal''),
         (''gateway.docker.internal'', Str ''host.lima.internal'')])]),
     (''propagateProxyEnv'', Boolean True),
     (''portForwards'', Array (port_forwards (nested_virtualization c))),
     (''provision'', Array (provision_entries inc (nested_virtualization c))),
     (''probes'', Array [object [(''mode'', Str ''readiness''), (''description'', Str ''Docker Engine API is ready''),
       (''script'', Str readiness_script),
       (''hint'', Str ''Inspect guest service logs with: luhmen shell sudo journalctl -u docker.service --no-pager'')]])]"

definition render :: "guest_files \<Rightarrow> (json_type \<Rightarrow> string option) \<Rightarrow> config \<Rightarrow> (string, string) result" where
  "render inc print c =
     and_then (collect_results mount_entry (mounts c)) (\<lambda>mount_entries.
     ok_or (print (template_document inc c mount_entries)) ''serialize VM configuration'')"

section \<open>What the template says\<close>

lemma template_settings:
  "index_member (template_document inc c ms) ''cpus'' = Numeral (decimal (cpus c))"
  "index_member (template_document inc c ms) ''memory'' = Str (decimal (memory_gib c) @ ''GiB'')"
  "index_member (template_document inc c ms) ''disk'' = Str (decimal (disk_gib c) @ ''GiB'')"
  "index_member (template_document inc c ms) ''mounts'' = Array ms"
  "index_member (template_document inc c ms) ''nestedVirtualization'' = Boolean (nested_virtualization c)"
  "index_member (template_document inc c ms) ''provision'' = Array (provision_entries inc (nested_virtualization c))"
  unfolding index_member_def template_document_def get_member_object by simp_all

lemma object_inject_member: "object a = object b \<Longrightarrow> map_of (rev a) k = map_of (rev b) k"
  by (metis get_member_object)

lemma mount_entry_inject:
  assumes "mount_entry m = Ok v" "mount_entry n = Ok v"
  shows "m = n"
proof -
  let ?e = "\<lambda>m. object [(''location'', Str (mount_path m)), (''mountPoint'', Str (mount_path m)),
       (''writable'', Boolean (writable m))]"
  from assms have "?e m = ?e n" unfolding mount_entry_def by simp
  note members = object_inject_member [OF this]
  from members [of "''location''"] members [of "''writable''"] show ?thesis
    by (cases m, cases n) simp
qed

lemma collect_results_inject:
  assumes "\<And>a b v. f a = Ok v \<Longrightarrow> f b = Ok v \<Longrightarrow> a = b"
  shows "collect_results f xs = Ok vs \<Longrightarrow> collect_results f ys = Ok vs \<Longrightarrow> xs = ys"
proof (induction xs arbitrary: ys vs)
  case Nil
  then show ?case by (cases ys) auto
next
  case (Cons x xs)
  then obtain v us where x: "f x = Ok v" "collect_results f xs = Ok us" "vs = v # us" by auto
  with Cons.prems(2) obtain y zs where ys: "ys = y # zs" "f y = Ok v" "collect_results f zs = Ok us"
    by (cases ys) auto
  show ?case using Cons.IH [OF x(2) ys(3)] assms [OF x(1) ys(2)] ys(1) by simp
qed

text \<open>The members an update compares with the creation settings.\<close>

definition setting_members :: "string list" where
  "setting_members = [''cpus'', ''memory'', ''disk'', ''mounts'', ''arch'', ''vmType'', ''nestedVirtualization'']"

text \<open>
  The template determines the creation settings: if two configurations of the same schema
  render to documents that agree on processors, memory, disk, mounts, architecture, VM type
  and nested virtualization, the configurations are the same, mounts and their modes
  included; so the comparison an update makes cannot mistake other settings for these.
\<close>

theorem template_determines_settings:
  assumes "collect_results mount_entry (mounts c) = Ok ms" "collect_results mount_entry (mounts c') = Ok ms'"
    and "schema_version c = schema_version c'"
    and "\<forall>k\<in>set setting_members.
      index_member (template_document inc c ms) k = index_member (template_document inc c' ms') k"
  shows "c = c'"
proof -
  from assms(4) have "decimal (cpus c) = decimal (cpus c')" "decimal (memory_gib c) = decimal (memory_gib c')"
    "decimal (disk_gib c) = decimal (disk_gib c')" "ms = ms'" "nested_virtualization c = nested_virtualization c'"
    by (simp_all add: setting_members_def template_settings)
  moreover have "mounts c = mounts c'"
    by (rule collect_results_inject [of mount_entry _ ms])
      (use assms(1,2) \<open>ms = ms'\<close> in \<open>auto intro: mount_entry_inject\<close>)
  ultimately show ?thesis using assms(3) by (cases c, cases c') (simp add: decimal_inject)
qed

definition sample_template_config :: config where
  "sample_template_config = \<lparr>schema_version = 1, cpus = 3, memory_gib = 5, disk_gib = 40,
     mounts = [\<lparr>mount_path = ''/work'', writable = True\<rparr>], nested_virtualization = True\<rparr>"

theorem template_determines_settings_witness:
  "sample_template_config = sample_template_config\<lparr>cpus := 3\<rparr>"
proof -
  obtain ms where ms: "collect_results mount_entry (mounts sample_template_config) = Ok ms"
    by (auto simp: sample_template_config_def mount_entry_def)
  have same: "sample_template_config\<lparr>cpus := 3\<rparr> = sample_template_config" by (simp add: sample_template_config_def)
  show ?thesis
    by (rule template_determines_settings [of _ ms _ ms]) (simp_all add: same ms)
qed

section \<open>Placeholders\<close>

lemma replace_all_skip: "p = CHR ''@'' # q \<Longrightarrow> CHR ''@'' \<notin> set s \<Longrightarrow> replace_all p t (s @ r) = s @ replace_all p t r"
  by (induction s) auto

text \<open>A marker never spans lines, so replacing works line by line.\<close>

lemma replace_all_line:
  assumes "CHR 0x0A \<notin> set p"
  shows "replace_all p t (l @ CHR 0x0A # r) = replace_all p t l @ CHR 0x0A # replace_all p t r"
proof (induction l rule: length_induct)
  case (1 l)
  show ?case
  proof (cases l)
    case Nil
    with assms show ?thesis by (cases p) auto
  next
    case (Cons c l')
    have same: "starts_with (c # l' @ CHR 0x0A # r) p = starts_with (c # l') p"
    proof -
      have "starts_with (x @ CHR 0x0A # r) q = starts_with x q" if "CHR 0x0A \<notin> set q" for x q
        using that
      proof (induction x arbitrary: q)
        case Nil
        then show ?case by (cases q) auto
      next
        case (Cons y x)
        then show ?case by (cases q) auto
      qed
      from this [OF assms, of "c # l'"] show ?thesis by simp
    qed
    show ?thesis
    proof (cases "p \<noteq> [] \<and> starts_with (c # l') p")
      case True
      then have len: "length p \<le> length (c # l')" "length (drop (length p) (c # l')) < length l"
        using Cons by (auto simp: starts_with_def) (metis length_take min.cobounded1 le_trans length_Cons min.bounded_iff)
      from 1 len(2) have "replace_all p t (drop (length p) (c # l') @ CHR 0x0A # r)
          = replace_all p t (drop (length p) (c # l')) @ CHR 0x0A # replace_all p t r" by blast
      moreover have "drop (length p) (c # l' @ CHR 0x0A # r) = drop (length p) (c # l') @ CHR 0x0A # r"
        using len(1) by (metis append_Cons append_eq_conv_conj append_take_drop_id drop_append diff_is_0_eq drop0)
      ultimately show ?thesis using True same Cons by simp
    next
      case False
      then show ?thesis using 1 same Cons by auto
    qed
  qed
qed

lemma replace_all_unlines:
  "CHR 0x0A \<notin> set p \<Longrightarrow> replace_all p t (unlines ls) = unlines (map (replace_all p t) ls)"
  by (induction ls) (auto simp: unlines_def replace_all_line)

lemma set_unlines: "c \<in> set (unlines ls) \<longleftrightarrow> (\<exists>l\<in>set ls. c \<in> set l) \<or> (ls \<noteq> [] \<and> c = CHR 0x0A)"
  by (auto simp: unlines_def)

lemma replace_all_clear: "CHR ''@'' \<notin> set s \<Longrightarrow> replace_all (CHR ''@'' # q) t s = s"
  using replace_all_skip [of _ q s t "[]"] by simp

text \<open>Lines without a marker are left alone, the others are evaluated.\<close>

definition replaced_clear :: "(string \<times> string) list \<Rightarrow> string \<Rightarrow> bool" where
  "replaced_clear rs l \<longleftrightarrow>
     list_all (\<lambda>c. c \<noteq> CHR ''@'') l \<or>
     list_all (\<lambda>c. c \<noteq> CHR ''@'') (foldl (\<lambda>l (p, t). replace_all p t l) l rs)"

lemma replaced_clear_lines:
  assumes "list_all (replaced_clear rs) ls" and "list_all (\<lambda>(p, t). p \<noteq> [] \<and> hd p = CHR ''@'' \<and> CHR 0x0A \<notin> set p) rs"
  shows "CHR ''@'' \<notin> set (foldl (\<lambda>l (p, t). replace_all p t l) (unlines ls) rs)"
proof -
  let ?f = "\<lambda>l. foldl (\<lambda>l (p, t). replace_all p t l) l rs"
  have "?f (unlines ls) = unlines (map ?f ls)"
    using assms(2)
  proof (induction rs arbitrary: ls)
    case (Cons r rs)
    then show ?case by (cases r) (auto simp: replace_all_unlines comp_def)
  qed simp
  moreover have "CHR ''@'' \<notin> set (?f l)" if "l \<in> set ls" for l
  proof (cases "CHR ''@'' \<in> set l")
    case True
    with assms(1) that show ?thesis by (auto simp: replaced_clear_def list_all_iff)
  next
    case False
    with assms(2) have "?f l = l"
    proof (induction rs)
      case (Cons r rs)
      obtain p t q where "r = (p, t)" "p = CHR ''@'' # q" using Cons.prems(1) by (cases r, cases "fst r") auto
      then show ?case using Cons by (simp add: replace_all_clear)
    qed simp
    with False show ?thesis by simp
  qed
  ultimately show ?thesis by (auto simp: set_unlines)
qed

lemma clear_dependencies: "CHR ''@'' \<notin> set (dependencies_script nested)"
proof -
  let ?rs = "[(''@SNAPSHOT@'', UBUNTU_SNAPSHOT),
     (''@MICROVM_CHECK@'', if nested then '' || ! command -v socat >/dev/null 2>&1'' else []),
     (''@MICROVM_PACKAGES@'', if nested then '' socat'' else [])]"
  have "dependencies_script nested = foldl (\<lambda>l (p, t). replace_all p t l) DEPENDENCIES ?rs"
    by (simp add: dependencies_script_def)
  moreover have "CHR ''@'' \<notin> set (foldl (\<lambda>l (p, t). replace_all p t l) DEPENDENCIES ?rs)"
  proof (cases nested)
    case True
    show ?thesis unfolding DEPENDENCIES_def if_P [OF True] by (rule replaced_clear_lines; code_simp)
  next
    case False
    show ?thesis unfolding DEPENDENCIES_def if_not_P [OF False] by (rule replaced_clear_lines; code_simp)
  qed
  ultimately show ?thesis by simp
qed

lemma clear_install_docker: "CHR ''@'' \<notin> set install_docker_script"
proof -
  let ?rs = "[(''@VERSION@'', DOCKER_VERSION), (''@URL@'', DOCKER_URL), (''@SHA256@'', DOCKER_SHA256)]"
  have "install_docker_script = foldl (\<lambda>l (p, t). replace_all p t l) INSTALL_DOCKER ?rs"
    by (simp add: install_docker_script_def)
  moreover have "CHR ''@'' \<notin> set (foldl (\<lambda>l (p, t). replace_all p t l) INSTALL_DOCKER ?rs)"
    unfolding INSTALL_DOCKER_def by (rule replaced_clear_lines; code_simp)
  ultimately show ?thesis by simp
qed

lemma clear_install_firecracker: "CHR ''@'' \<notin> set install_firecracker_script"
proof -
  let ?rs = "[(''@VERSION@'', FIRECRACKER_VERSION), (''@URL@'', FIRECRACKER_URL), (''@SHA256@'', FIRECRACKER_SHA256)]"
  have "install_firecracker_script = foldl (\<lambda>l (p, t). replace_all p t l) INSTALL_FIRECRACKER ?rs"
    by (simp add: install_firecracker_script_def)
  moreover have "CHR ''@'' \<notin> set (foldl (\<lambda>l (p, t). replace_all p t l) INSTALL_FIRECRACKER ?rs)"
    unfolding INSTALL_FIRECRACKER_def by (rule replaced_clear_lines; code_simp)
  ultimately show ?thesis by simp
qed

text \<open>
  No placeholder reaches the guest: the scripts that are installed, with and without
  nested virtualization, contain no at sign, so every marker was replaced.
\<close>

theorem scripts_have_no_placeholder:
  "CHR ''@'' \<notin> set (dependencies_script nested @ install_docker_script @ install_firecracker_script)"
  by (simp add: clear_dependencies clear_install_docker clear_install_firecracker)

end
