(* ===== verification/Microvm.thy ===== *)
theory Microvm
  imports Config
begin

text \<open>
  The host client of the guest's Firecracker manager (src/src/microvm.rs): validation of ids,
  guest paths and request lines, and the exchange of one request and one response line.
  serde's decoder of the response envelope is an argument.
\<close>

section \<open>Validation\<close>

definition MAX_RESPONSE_BYTES :: nat where
  "MAX_RESPONSE_BYTES = 2 ^ 20"

definition PROTOCOL_VERSION :: nat where
  "PROTOCOL_VERSION = 1"

definition id_byte :: "char \<Rightarrow> bool" where
  "id_byte c \<longleftrightarrow> is_ascii_alphanumeric c \<or> c \<in> {CHR ''_'', CHR ''.'', CHR ''-''}"

definition request_byte :: "char \<Rightarrow> bool" where
  "request_byte c \<longleftrightarrow>
     is_ascii_alphanumeric c \<or> c \<in> {CHR ''_'', CHR ''.'', CHR ''/'', CHR ''='', CHR '':'', CHR ''-''}"

definition validate_id :: "string \<Rightarrow> (unit, string) result" where
  "validate_id name =
     ensure (name \<noteq> [] \<and> length name \<le> 64 \<and> name \<noteq> ''.'' \<and> name \<noteq> ''..'' \<and> list_all id_byte name)
       ''microVM id must contain 1 to 64 letters, digits, underscores, dots, or hyphens''"

definition validate_guest_path :: "string \<Rightarrow> (unit, string) result" where
  "validate_guest_path path =
     ensure (starts_with path ''/'' \<and> \<not> contains_str path ''..'' \<and> length path \<le> 1024
         \<and> list_all request_byte path)
       ''microVM guest path must be absolute and contain no whitespace, traversal, or unsupported characters''"

definition allowed_fields :: "string \<Rightarrow> string list option" where
  "allowed_fields action =
     (if action = ''capabilities'' then Some []
      else if action = ''inspect'' \<or> action = ''start'' then Some [''id'']
      else if action = ''create'' then Some [''id'', ''kernel'', ''rootfs'', ''vcpus'', ''memory_mib'']
      else if action = ''stop'' then Some [''id'', ''force'']
      else None)"

text \<open>One turn of the loop over the arguments: the field it adds to the ones seen.\<close>

definition check_token :: "string list \<Rightarrow> string list \<Rightarrow> string \<Rightarrow> (string, string) result" where
  "check_token allowed seen token =
     and_then (ensure (length token \<le> 1024) ''microVM manager argument is too large'') (\<lambda>_.
     and_then (ok_or (split_once (CHR ''='') token) ''microVM manager arguments must be key=value pairs'')
       (\<lambda>(key, value).
     and_then (ensure (key \<in> set allowed) ''unsupported microVM manager field'') (\<lambda>_.
     and_then (ensure (key \<notin> set seen) ''duplicate microVM manager field'') (\<lambda>_.
     and_then (ensure (value \<noteq> []) ''microVM manager field cannot be empty'') (\<lambda>_.
     and_then (ensure (list_all request_byte token)
       ''microVM manager request contains unsupported characters'') (\<lambda>_.
     and_then
       (if key = ''id'' then validate_id value
        else if key = ''kernel'' \<or> key = ''rootfs'' then validate_guest_path value
        else Ok ())
       (\<lambda>_. Ok key)))))))"

fun check_tokens :: "string list \<Rightarrow> string list \<Rightarrow> string list \<Rightarrow> (string list, string) result" where
  "check_tokens allowed seen [] = Ok seen"
| "check_tokens allowed seen (token # tokens) =
     and_then (check_token allowed seen token) (\<lambda>key. check_tokens allowed (key # seen) tokens)"

definition forbidden :: string where
  "forbidden = [CHR 0x0A, CHR 0x0D, CHR 0x00, CHR 0x27, CHR 0x22, CHR 0x5C]"

definition validate_request :: "string \<Rightarrow> (unit, string) result" where
  "validate_request request =
     and_then (ensure (request \<noteq> []) ''microVM manager request cannot be empty'') (\<lambda>_.
     and_then (ensure (length request \<le> 4096) ''microVM manager request is too large'') (\<lambda>_.
     and_then (ensure (\<not> contains_any request forbidden)
       ''microVM manager request contains unsupported characters'') (\<lambda>_.
     case split_whitespace request of
       [] \<Rightarrow> Err ''microVM manager action is missing''
     | action # tokens \<Rightarrow>
         and_then (ok_or (allowed_fields action) ''unsupported microVM manager action'') (\<lambda>allowed.
         and_then (check_tokens allowed [] tokens) (\<lambda>seen.
         and_then (ensure (action \<in> {''create'', ''start'', ''stop''} \<longrightarrow> ''id'' \<in> set seen)
           ''microVM manager id is required'') (\<lambda>_.
         ensure (action = ''create'' \<longrightarrow> ''kernel'' \<in> set seen \<and> ''rootfs'' \<in> set seen)
           ''microVM manager kernel and rootfs are required''))))))"

section \<open>The exchange\<close>

record 'v response =
  version :: nat
  ok :: bool
  content :: "'v option"
  failure :: "string option"

text \<open>What the connection delivers: bytes, then its end or a read error (timeouts included).\<close>

datatype delivery = Closed | Broken | Byte char delivery

fun read_response :: "string \<Rightarrow> delivery \<Rightarrow> (string, string) result" where
  "read_response received Closed = Err ''microVM manager closed the connection without a response''"
| "read_response received Broken = Err ''read microVM manager response''"
| "read_response received (Byte b rest) =
     (if length received < MAX_RESPONSE_BYTES
      then if b = CHR 0x0A then Ok received else read_response (received @ [b]) rest
      else Err ''microVM manager response is too large'')"

definition response_timeout :: "string \<Rightarrow> nat" where
  "response_timeout request =
     (case split_whitespace request of
        [] \<Rightarrow> 20
      | action # _ \<Rightarrow> if action = ''start'' then 300 else 20)"

text \<open>
  The bytes sent on a connection that can be opened, with the result. The arguments are
  serde's decoder, the null value, the connection's deliveries and whether writing succeeds.
\<close>

definition open_envelope :: "'v \<Rightarrow> 'v response \<Rightarrow> ('v, string) result" where
  "open_envelope null envelope =
     and_then (ensure (version envelope = PROTOCOL_VERSION) ''unsupported microVM manager protocol version'')
       (\<lambda>_.
     if \<not> ok envelope
     then Err (case failure envelope of None \<Rightarrow> ''microVM manager request failed'' | Some e \<Rightarrow> e)
     else Ok (case content envelope of None \<Rightarrow> null | Some v \<Rightarrow> v))"

definition client_request ::
  "(string \<Rightarrow> 'v response option) \<Rightarrow> 'v \<Rightarrow> (nat \<Rightarrow> delivery) option \<Rightarrow> bool \<Rightarrow> string
    \<Rightarrow> string \<times> ('v, string) result"
where
  "client_request decode null connection writes request =
     (case validate_request request of
        Err e \<Rightarrow> ([], Err e)
      | Ok _ \<Rightarrow>
          (case connection of
             None \<Rightarrow> ([], Err ''connect to microVM manager'')
           | Some deliver \<Rightarrow>
               if \<not> writes then ([], Err ''send microVM manager request'')
               else (request @ [CHR 0x0A],
                 and_then (read_response [] (deliver (response_timeout request))) (\<lambda>line.
                 and_then (ok_or (decode line) ''decode microVM manager response'')
                   (open_envelope null)))))"

section \<open>Accepted requests\<close>

text \<open>One argument of an accepted request.\<close>

definition good_token :: "string list \<Rightarrow> string \<Rightarrow> bool" where
  "good_token allowed token \<longleftrightarrow>
     length token \<le> 1024 \<and> list_all request_byte token \<and>
     (\<exists>key value. split_once (CHR ''='') token = Some (key, value) \<and> key \<in> set allowed \<and> value \<noteq> []
       \<and> (key = ''id'' \<longrightarrow> validate_id value = Ok ())
       \<and> (key \<in> {''kernel'', ''rootfs''} \<longrightarrow> validate_guest_path value = Ok ()))"

definition key_of :: "string \<Rightarrow> string" where
  "key_of token = takeWhile (\<lambda>c. c \<noteq> CHR ''='') token"

lemma split_once_takeWhile:
  "split_once c s = Some (l, r) \<Longrightarrow> l = takeWhile (\<lambda>x. x \<noteq> c) s"
  by (induction s arbitrary: l r) (auto split: if_splits)

lemma check_token_iff:
  "check_token allowed seen token = Ok key \<longleftrightarrow>
     good_token allowed token \<and> key = key_of token \<and> key \<notin> set seen"
proof (cases "split_once (CHR ''='') token")
  case None
  then show ?thesis by (simp add: check_token_def good_token_def)
next
  case (Some kv)
  obtain k v where kv: "split_once (CHR ''='') token = Some (k, v)" using Some by (cases kv) simp
  have key: "key_of token = k" using split_once_takeWhile [OF kv] by (simp add: key_of_def)
  let ?field = "if k = ''id'' then validate_id v
    else if k = ''kernel'' \<or> k = ''rootfs'' then validate_guest_path v else Ok ()"
  have field: "?field = Ok () \<longleftrightarrow> (k = ''id'' \<longrightarrow> validate_id v = Ok ())
      \<and> (k \<in> {''kernel'', ''rootfs''} \<longrightarrow> validate_guest_path v = Ok ())"
    by simp
  have "check_token allowed seen token = Ok key \<longleftrightarrow> length token \<le> 1024 \<and> k \<in> set allowed
      \<and> k \<notin> set seen \<and> v \<noteq> [] \<and> list_all request_byte token \<and> ?field = Ok () \<and> key = k"
    unfolding check_token_def kv by (simp del: if_splits) blast
  also have "\<dots> \<longleftrightarrow> good_token allowed token \<and> key = key_of token \<and> key \<notin> set seen"
    unfolding field good_token_def kv key by auto
  finally show ?thesis .
qed

lemma check_tokens_iff:
  "check_tokens allowed seen tokens = Ok keys \<longleftrightarrow>
     (\<forall>t\<in>set tokens. good_token allowed t) \<and> distinct (map key_of tokens)
     \<and> set (map key_of tokens) \<inter> set seen = {} \<and> keys = rev (map key_of tokens) @ seen"
  by (induction tokens arbitrary: seen keys) (auto simp: check_token_iff)

definition required_fields :: "string \<Rightarrow> string set" where
  "required_fields action =
     (if action = ''create'' then {''id'', ''kernel'', ''rootfs''}
      else if action = ''start'' \<or> action = ''stop'' then {''id''} else {})"

lemma validate_request_iff:
  "validate_request request = Ok () \<longleftrightarrow>
     length request \<le> 4096 \<and> set request \<inter> set forbidden = {} \<and>
     (\<exists>action tokens allowed. split_whitespace request = action # tokens
       \<and> allowed_fields action = Some allowed
       \<and> (\<forall>t\<in>set tokens. good_token allowed t) \<and> distinct (map key_of tokens)
       \<and> required_fields action \<subseteq> set (map key_of tokens))"
proof (cases "split_whitespace request")
  case Nil
  then show ?thesis by (auto simp: validate_request_def)
next
  case (Cons action tokens)
  have "request \<noteq> []"
    using Cons by (auto simp: split_whitespace_def)
  with Cons show ?thesis
    by (auto simp: validate_request_def check_tokens_iff contains_any_iff required_fields_def)
qed

section \<open>What is sent and what is accepted\<close>

text \<open>The delivery starts with these bytes.\<close>

fun delivers :: "string \<Rightarrow> delivery \<Rightarrow> bool" where
  "delivers [] d \<longleftrightarrow> True"
| "delivers (b # bs) (Byte c d) \<longleftrightarrow> b = c \<and> delivers bs d"
| "delivers (b # bs) d \<longleftrightarrow> False"

lemma read_response_delivers:
  "read_response received d = Ok line \<Longrightarrow>
     \<exists>tail. line = received @ tail \<and> delivers (tail @ [CHR 0x0A]) d \<and> CHR 0x0A \<notin> set tail \<and> length line < MAX_RESPONSE_BYTES"
proof (induction received d arbitrary: line rule: read_response.induct)
  case (3 received b rest)
  show ?case
  proof (cases "b = CHR 0x0A")
    case True
    with 3(2) show ?thesis by (auto split: if_splits)
  next
    case False
    with 3(2) have len: "length received < MAX_RESPONSE_BYTES" and "read_response (received @ [b]) rest = Ok line"
      by (auto split: if_splits)
    from 3(1) [OF len False this(2)] obtain tail where
      "line = (received @ [b]) @ tail" "delivers (tail @ [CHR 0x0A]) rest" "CHR 0x0A \<notin> set tail"
      "length line < MAX_RESPONSE_BYTES" by blast
    with False show ?thesis by (intro exI [of _ "b # tail"]) auto
  qed
qed simp_all

lemma client_request_cases:
  "client_request decode null connection writes request = (sent, result) \<Longrightarrow>
     sent = [] \<and> \<not> is_ok result
     \<or> validate_request request = Ok () \<and> sent = request @ [CHR 0x0A]"
  by (auto simp: client_request_def split: result.splits option.splits if_splits)

lemma id_bytes_no_slash: "list_all id_byte name \<Longrightarrow> CHR ''/'' \<notin> set name"
  by (auto simp: list_all_iff id_byte_def ascii_class_defs dest!: bspec)

lemma split_on_no_sep_single: "c \<notin> set s \<Longrightarrow> split_on c s = [s]"
  by (induction s) auto


lemma sample_request: "validate_request ''stop id=web force=1'' = Ok ()"
  by code_simp




text \<open>
  A value the client returns is the data of a whole response line below the 1 MiB limit
  that decodes to a successful envelope of this protocol version, read within the time the
  action allows.
\<close>

theorem client_value_is_enveloped:
  assumes "client_request decode null connection writes request = (sent, Ok v)"
  shows "\<exists>deliver line envelope. connection = Some deliver
    \<and> delivers (line @ [CHR 0x0A]) (deliver (if hd (split_whitespace request) = ''start'' then 300 else 20))
    \<and> CHR 0x0A \<notin> set line \<and> length line < 2 ^ 20
    \<and> decode line = Some envelope \<and> version envelope = 1 \<and> ok envelope
    \<and> v = (case content envelope of None \<Rightarrow> null | Some x \<Rightarrow> x)"
proof -
  from assms obtain deliver line envelope where valid: "validate_request request = Ok ()"
    and deliver: "connection = Some deliver" and line: "read_response [] (deliver (response_timeout request)) = Ok line"
    and envelope: "decode line = Some envelope" "open_envelope null envelope = Ok v"
    unfolding client_request_def by (auto split: result.splits option.splits if_splits)
  from valid obtain action tokens where "split_whitespace request = action # tokens"
    unfolding validate_request_iff by blast
  then have "response_timeout request = (if hd (split_whitespace request) = ''start'' then 300 else 20)"
    by (simp add: response_timeout_def)
  with read_response_delivers [OF line] deliver envelope show ?thesis
    by (auto simp: open_envelope_def PROTOCOL_VERSION_def MAX_RESPONSE_BYTES_def split: if_splits)
qed

definition sample_reply :: "nat \<Rightarrow> delivery" where
  "sample_reply seconds = Byte CHR ''y'' (Byte CHR 0x0A Broken)"

lemma sample_exchange:
  "client_request (\<lambda>line. Some \<lparr>version = 1, ok = True, content = Some line, failure = None\<rparr>) []
     (Some sample_reply) True ''stop id=web force=1'' = (''stop id=web force=1'' @ [CHR 0x0A], Ok ''y'')"
  by code_simp

theorem client_value_is_enveloped_witness:
  "\<exists>line. delivers (line @ [CHR 0x0A]) (sample_reply 20) \<and> length line < 2 ^ 20"
proof -
  have "split_whitespace ''stop id=web force=1'' = [''stop'', ''id=web'', ''force=1'']" by code_simp
  with client_value_is_enveloped [OF sample_exchange] show ?thesis by (intro exI [of _ "''y''"]) auto
qed

end
