(* ===== verification/Runtime.thy ===== *)
theory Runtime
  imports Process Engine Startup Vm_Template Microvm
begin

text \<open>
  The lifecycle of the VM (src/src/runtime.rs): the commands it runs, the checks of the host
  and of the state directory, creation, provisioning updates, start, stop, restart and the
  read-only reports, over the model of the operating system. serde_json's parser, stream
  parser and printer and the derived codecs of the configuration and the report are fields
  of the runtime; interpolated parts and added
  contexts of messages are dropped.
\<close>

section \<open>The runtime and its commands\<close>

record runtime =
  state_dir :: string
  limactl_variable :: "string option"
  docker_variable :: "string option"
  apple_silicon :: bool
  unix_offset :: nat
  parse_value :: "string \<Rightarrow> json_type option"
  parse_stream :: "string \<Rightarrow> json_type option list"
  print_value :: "json_type \<Rightarrow> string option"
  decode_config :: "string \<Rightarrow> config option"
  encode_config :: "config \<Rightarrow> string option"
  decode_report :: "string \<Rightarrow> report option"
  encode_report :: "report \<Rightarrow> string option"
  guest_includes :: guest_files

definition CONTEXT_DESCRIPTION :: string where
  "CONTEXT_DESCRIPTION = ''luhmen managed Docker Engine (schema 1)''"

definition SHORT :: nat where
  "SHORT = 20000"

definition START_TIMEOUT :: nat where
  "START_TIMEOUT = 900000"

definition in_state :: "runtime \<Rightarrow> string \<Rightarrow> string" where
  "in_state rt name = path_join (state_dir rt) name"

definition engine_socket :: "runtime \<Rightarrow> string" where
  "engine_socket rt = in_state rt ''lima/luhmen/sock/docker.sock''"

definition microvm_socket :: "runtime \<Rightarrow> string" where
  "microvm_socket rt = in_state rt ''lima/luhmen/sock/microvmd.sock''"

definition endpoint :: "runtime \<Rightarrow> string" where
  "endpoint rt = ''unix://'' @ engine_socket rt"

text \<open>The variables LUHMEN_LIMACTL and LUHMEN_DOCKER replace the programs.\<close>

definition lima_program :: "runtime \<Rightarrow> string" where
  "lima_program rt = (case limactl_variable rt of None \<Rightarrow> ''limactl'' | Some p \<Rightarrow> p)"

definition docker_program :: "runtime \<Rightarrow> string" where
  "docker_program rt = (case docker_variable rt of None \<Rightarrow> ''docker'' | Some p \<Rightarrow> p)"

definition lima :: "runtime \<Rightarrow> command" where
  "lima rt =
     with_env (with_env (with_env \<lparr>program = lima_program rt, arguments = [], overrides = []\<rparr>
       ''LIMA_HOME'' (Some (in_state rt ''lima'')))
       ''LIMA_INSTANCE'' None)
       ''LIMA_SSH_PORT_FORWARDER'' (Some ''false'')"

definition docker_variables :: "string list" where
  "docker_variables = [''DOCKER_HOST'', ''DOCKER_CONTEXT'', ''DOCKER_TLS_VERIFY'', ''DOCKER_CERT_PATH'',
     ''BUILDX_BUILDER'', ''BUILDKIT_HOST'']"

definition docker_command :: "runtime \<Rightarrow> command" where
  "docker_command rt =
     foldl (\<lambda>c variable. with_env c variable None)
       \<lparr>program = docker_program rt, arguments = [], overrides = []\<rparr> docker_variables"

definition docker_workload_command :: "runtime \<Rightarrow> command" where
  "docker_workload_command rt =
     with_env (with_env (docker_command rt) ''BUILDX_CONFIG'' (Some (in_state rt ''buildx'')))
       ''BUILDX_BUILDER'' (Some NAME)"

abbreviation run_lima :: "runtime \<Rightarrow> string list \<Rightarrow> nat \<Rightarrow> string \<Rightarrow> string io" where
  "run_lima rt args timeout operation \<equiv> run_success (with_args (lima rt) args) timeout operation"

abbreviation run_docker :: "runtime \<Rightarrow> string list \<Rightarrow> string \<Rightarrow> string io" where
  "run_docker rt args operation \<equiv> run_success (with_args (docker_command rt) args) SHORT operation"

definition run_host :: "string \<Rightarrow> string list \<Rightarrow> string \<Rightarrow> string io" where
  "run_host name args operation =
     run_success \<lparr>program = name, arguments = args, overrides = []\<rparr> SHORT operation"

section \<open>Checks of the state directory\<close>

fun check_directories :: "string list \<Rightarrow> unit io" where
  "check_directories [] = return ()"
| "check_directories (p # ps) =
     bind (lstat p) (\<lambda>node.
     after (require (node = None \<or> is_directory node) ''refusing an unowned or symlinked runtime directory'')
     (check_directories ps))"

definition check_socket :: "string \<Rightarrow> string \<Rightarrow> unit io" where
  "check_socket p message =
     bind (attempt (lstat p)) (\<lambda>meta.
     require (\<not> (case meta of Ok node \<Rightarrow> is_link node | Err _ \<Rightarrow> False)) message)"

definition check_state_paths :: "runtime \<Rightarrow> unit io" where
  "check_state_paths rt =
     after (check_directories (map (in_state rt) [''buildx'', ''lima'', ''lima/luhmen'', ''lima/luhmen/sock'']))
     (after (check_socket (engine_socket rt) ''Engine socket cannot be a symlink'')
     (check_socket (microvm_socket rt) ''microVM manager socket cannot be a symlink''))"

section \<open>Checks of the host\<close>

definition reported_version :: "string \<Rightarrow> string" where
  "reported_version out =
     (let words = split_whitespace out in
      dropWhile (\<lambda>c. c = CHR ''v'') (if words = [] then [] else last words))"

definition check_lima :: "runtime \<Rightarrow> unit io" where
  "check_lima rt =
     after (check_state_paths rt)
     (bind (run_lima rt [''--version''] SHORT ''Lima version check'') (\<lambda>out.
      require (reported_version out = LIMA_VERSION) ''luhmen requires Lima''))"

definition parse_major :: "string \<Rightarrow> (nat, string) result" where
  "parse_major reported = ok_or (parse_unsigned 32 (hd (split_on (CHR ''.'') (trim reported)))) ''invalid digit found in string''"

definition macos_major :: "nat io" where
  "macos_major = bind (run_host ''sw_vers'' [''-productVersion''] ''macOS version check'') (\<lambda>reported. lift (parse_major reported))"

definition check_host :: "runtime \<Rightarrow> unit io" where
  "check_host rt =
     after (require (apple_silicon rt) ''VM operations require an Apple Silicon Mac running macOS 14 or later'')
     (bind macos_major (\<lambda>major. require (14 \<le> major) ''macOS 14 or later is required''))"

definition chip_generation :: "string \<Rightarrow> (nat, string) result" where
  "chip_generation out =
     and_then (ok_or (List.find (\<lambda>_. True) (List.map_filter (\<lambda>line. strip_prefix (trim line) ''Chip: '') (lines_of out)))
       ''could not determine the Apple chip model'') (\<lambda>chip.
     ok_or (Option.bind (strip_prefix chip ''Apple M'') (\<lambda>rest. parse_unsigned 32 (takeWhile is_ascii_digit rest)))
       ''could not determine the Apple chip generation'')"

definition check_nested_host :: "unit io" where
  "check_nested_host =
     bind macos_major (\<lambda>major.
     after (require (15 \<le> major) ''nested Firecracker support requires macOS 15 or later'')
     (bind (run_host ''system_profiler'' [''SPHardwareDataType''] ''Apple Silicon chip check'') (\<lambda>out.
      bind (lift (chip_generation out)) (\<lambda>generation.
      require (3 \<le> generation) ''nested Firecracker support requires an Apple M3 or later Mac''))))"

definition check_resources :: "config \<Rightarrow> unit io" where
  "check_resources c =
     bind (query (\<lambda>env t. parallelism env)) (\<lambda>processors.
     after (require (cpus c \<le> processors) ''VM CPU count exceeds the host CPU count'')
     (bind (run_host ''sysctl'' [''-n'', ''hw.memsize''] ''host memory check'') (\<lambda>out.
      bind (lift (ok_or (parse_unsigned 64 (trim out)) ''invalid digit found in string'')) (\<lambda>memory.
      require ((memory_gib c + 2) * 1024 * 1024 * 1024 \<le> memory)
        ''VM memory must leave at least 2 GiB of physical RAM for macOS''))))"

definition require_space :: "nat \<Rightarrow> string \<Rightarrow> unit io" where
  "require_space bytes message = bind (query free_space) (\<lambda>free. require (bytes \<le> free) message)"

section \<open>Saved state\<close>

text \<open>Opening the lock file creates it when it is missing; the lock is held until the command ends.\<close>

definition lock :: "runtime \<Rightarrow> unit io" where
  "lock rt = (\<lambda>env.
     after (syscall (\<lambda>fs.
       case follow fs (in_state rt ''operation.lock'') of
         None \<Rightarrow> (Ok (), fs(in_state rt ''operation.lock'' \<mapsto> Regular [] (private_file env)))
       | Some (Regular _ _) \<Rightarrow> (Ok (), fs)
       | Some _ \<Rightarrow> (Err ''not a file'', fs)))
     (bind (query lock_held) (\<lambda>held.
      require (\<not> held) ''another luhmen lifecycle command is active; wait for it to finish'')) env)"

definition saved_config :: "runtime \<Rightarrow> config io" where
  "saved_config rt =
     bind (read_contents (in_state rt ''config.json'')) (\<lambda>bytes.
     bind (lift (ok_or (decode_config rt bytes) ''invalid configuration'')) (\<lambda>c.
     after (lift (validate_schema c)) (return c)))"

definition MAX_TEMPLATE_BYTES :: nat where
  "MAX_TEMPLATE_BYTES = 1024 * 1024"

definition read_vm_template :: "runtime \<Rightarrow> string \<Rightarrow> json_type io" where
  "read_vm_template rt path =
     bind (lstat path) (\<lambda>node.
     bind (lift (ok_or node ''read saved VM template'')) (\<lambda>node.
     after (require (is_regular node) ''VM template must be a regular file'')
     (bind (read_contents path) (\<lambda>bytes.
      after (require (length bytes \<le> MAX_TEMPLATE_BYTES) ''VM template exceeds 1 MiB'')
      (bind (lift (ok_or (parse_value rt bytes) ''VM template is not the saved luhmen JSON format'')) (\<lambda>document.
       after (require (is_object document \<and> is_array (index_member document ''provision''))
         ''VM template is not the saved luhmen JSON format'')
       (return document))))))) "

section \<open>The VM as Lima reports it\<close>

definition summary_members :: "string list" where
  "summary_members = [''name'', ''dir'', ''status'', ''vmType'', ''arch'', ''cpus'', ''memory'', ''disk'', ''hostname'',
     ''limaVersion'', ''sshLocalPort'', ''hostAgentPID'', ''driverPID'', ''errors'']"

definition summarize :: "json_type \<Rightarrow> json_type" where
  "summarize entry =
     object (List.map_filter (\<lambda>k. map_option (Pair k) (get_member k entry)) summary_members)"

definition parse_instance :: "runtime \<Rightarrow> string \<Rightarrow> (json_type option, string) result" where
  "parse_instance rt out =
     (case parse_stream rt out of
        [] \<Rightarrow> Ok None
      | None # _ \<Rightarrow> Err ''invalid JSON''
      | Some entry # entries \<Rightarrow>
          and_then (ensure (entries = []) ''Lima returned more than one instance'') (\<lambda>_.
          and_then (ensure (str_member ''name'' entry = Some NAME) ''Lima returned an unexpected instance'') (\<lambda>_.
          and_then (ok_or (str_member ''dir'' entry) ''Lima instance has no directory'') (\<lambda>dir.
          and_then (ensure (path_eq dir (in_state rt ''lima/luhmen''))
            ''Lima instance directory does not match luhmen state'') (\<lambda>_.
          Ok (Some (summarize entry)))))))"

definition vm_entry :: "runtime \<Rightarrow> json_type option io" where
  "vm_entry rt =
     bind (path_exists (in_state rt ''lima/luhmen'')) (\<lambda>present.
     if \<not> present then return None
     else bind (run_lima rt [''list'', NAME, ''--format=json''] SHORT ''VM inspection'') (\<lambda>out.
       lift (parse_instance rt out)))"

definition vm_status :: "json_type \<Rightarrow> string option" where
  "vm_status entry = str_member ''status'' entry"

definition shell_command :: "runtime \<Rightarrow> command io" where
  "shell_command rt =
     after (check_lima rt)
     (bind (vm_entry rt) (\<lambda>found.
      bind (lift (ok_or found ''luhmen VM does not exist'')) (\<lambda>entry.
      after (require (vm_status entry = Some ''Running'') ''luhmen VM is not running'')
      (return (with_args (lima rt) [''shell'', NAME, ''--''])))))"

section \<open>The Docker context\<close>

definition context_exists :: "runtime \<Rightarrow> bool io" where
  "context_exists rt =
     bind (run_docker rt [''context'', ''ls'', ''--format'', ''{{.Name}}''] ''Docker context list'') (\<lambda>out.
     return (NAME \<in> set (lines_of out)))"

fun array_items :: "json_type \<Rightarrow> json_type list option" where
  "array_items (Array vs) = Some vs"
| "array_items _ = None"

definition owns_context :: "runtime \<Rightarrow> json_type \<Rightarrow> bool" where
  "owns_context rt found \<longleftrightarrow>
     Option.bind (pointer [''Endpoints'', ''docker'', ''Host''] found) as_str = Some (endpoint rt) \<and>
     Option.bind (pointer [''Metadata'', ''Description''] found) as_str = Some CONTEXT_DESCRIPTION"

definition context_ready :: "runtime \<Rightarrow> bool io" where
  "context_ready rt =
     bind (context_exists rt) (\<lambda>present.
     if \<not> present then return False
     else bind (run_docker rt [''context'', ''inspect'', NAME] ''Docker context inspection'') (\<lambda>out.
       bind (lift (ok_or (Option.bind (parse_value rt out) array_items) ''invalid JSON'')) (\<lambda>found.
       after (require (length found = 1) ''Docker returned an unexpected context count'')
       (after (require (owns_context rt (hd found))
         ''Docker context 'luhmen' already exists and is not owned by this state directory; use the state directory that owns it or resolve the context name collision manually'')
       (return True)))))"

definition context_create_args :: "runtime \<Rightarrow> string list" where
  "context_create_args rt =
     [''context'', ''create'', NAME, ''--description'', CONTEXT_DESCRIPTION, ''--docker'', ''host='' @ endpoint rt]"

definition ensure_context :: "runtime \<Rightarrow> unit io" where
  "ensure_context rt =
     bind (context_ready rt) (\<lambda>ready.
     if ready then return ()
     else bind (run_docker rt (context_create_args rt) ''Docker context creation'') (\<lambda>_.
       bind (context_ready rt) (\<lambda>ready. require ready ''Docker context was not created'')))"

section \<open>Inspection\<close>

record inspection =
  vm_state :: string
  engine_ready :: bool
  context_is_ready :: bool
  context_endpoint :: string
  inspected_config :: "config option"
  inspected_vm :: "json_type option"
  inspection_errors :: "string list"
  last_start :: "report option"

text \<open>A failed part becomes a message with its label, and the part keeps its default.\<close>

definition noted :: "string \<Rightarrow> 'a \<Rightarrow> ('a, string) result \<Rightarrow> 'a \<times> string list" where
  "noted label fallback r = (case r of Ok a \<Rightarrow> (a, []) | Err e \<Rightarrow> (fallback, [label @ e]))"

definition inspect_config :: "runtime \<Rightarrow> (config option \<times> string list) io" where
  "inspect_config rt =
     bind (path_exists (in_state rt ''config.json'')) (\<lambda>present.
     if \<not> present then return (None, [])
     else bind (attempt (saved_config rt)) (\<lambda>r. return (noted ''configuration: '' None (map_ok Some r))))"

definition inspect_vm :: "runtime \<Rightarrow> (string \<times> json_type option \<times> string list) io" where
  "inspect_vm rt =
     bind (path_exists (in_state rt ''lima/luhmen'')) (\<lambda>present.
     if \<not> present then return (''NotCreated'', None, [])
     else bind (attempt (after (check_lima rt) (vm_entry rt))) (\<lambda>r.
       let (entry, errors) = noted ''VM inspection: '' None r;
           reported = Option.bind entry vm_status
       in return (case reported of None \<Rightarrow> ''Unknown'' | Some s \<Rightarrow> s, entry, errors)))"

definition inspect_saved :: "runtime \<Rightarrow> (config option \<times> string \<times> json_type option \<times> string list) io" where
  "inspect_saved rt =
     bind (path_exists (state_dir rt)) (\<lambda>present.
     if \<not> present then return (None, ''NotCreated'', None, [])
     else after (ensure_owned (state_dir rt) False)
       (after (check_state_paths rt)
       (bind (inspect_config rt) (\<lambda>(c, config_errors).
        bind (inspect_vm rt) (\<lambda>(status, entry, vm_errors).
        return (c, status, entry, config_errors @ vm_errors))))))"

definition inspect_last_start :: "runtime \<Rightarrow> (report option \<times> string list) io" where
  "inspect_last_start rt =
     bind (path_exists (state_dir rt)) (\<lambda>present.
     if \<not> present then return (None, [])
     else bind (attempt (read_report (decode_report rt) (state_dir rt))) (\<lambda>r.
       return (noted ''startup diagnostics: '' None r)))"

definition inspect :: "runtime \<Rightarrow> inspection io" where
  "inspect rt =
     bind (inspect_saved rt) (\<lambda>(c, status, entry, saved_errors).
     bind (attempt ping) (\<lambda>pinged.
     let engine_errors = (case pinged of Ok _ \<Rightarrow> [] | Err e \<Rightarrow> if status = ''Running'' then [''Docker Engine: '' @ e] else []) in
     bind (attempt (context_ready rt)) (\<lambda>r.
     let (ready, context_errors) = noted ''Docker context: '' False r in
     bind (inspect_last_start rt) (\<lambda>(last, start_errors).
     return \<lparr>vm_state = status, engine_ready = is_ok pinged, context_is_ready = ready,
       context_endpoint = endpoint rt, inspected_config = c, inspected_vm = entry,
       inspection_errors = saved_errors @ engine_errors @ context_errors @ start_errors, last_start = last\<rparr>))))"

section \<open>Creation\<close>

definition store_config :: "runtime \<Rightarrow> config \<Rightarrow> unit io" where
  "store_config rt c =
     bind (path_exists (in_state rt ''config.json'')) (\<lambda>present.
     if present then
       bind (saved_config rt) (\<lambda>saved.
       require (saved = c) ''configuration differs from the created VM; creation settings are immutable'')
     else
       bind (path_exists (in_state rt ''lima/luhmen'')) (\<lambda>adopted.
       after (require (\<not> adopted) ''VM exists without a luhmen configuration; refusing to adopt it'')
       (bind (lift (ok_or (encode_config rt c) ''serialize'')) (\<lambda>bytes.
        atomic_write (in_state rt ''config.json'') bytes))))"

definition create_vm :: "runtime \<Rightarrow> config \<Rightarrow> unit io" where
  "create_vm rt c =
     after (require_space (15 * 1024 * 1024 * 1024) ''at least 15 GiB of free host storage is required to create a VM'')
     (after (create_dir_all (ancestors (in_state rt ''lima'')) (in_state rt ''lima''))
     (bind (lift (render (guest_includes rt) (print_value rt) c)) (\<lambda>template.
     (after (atomic_write (in_state rt ''vm.yaml'') template)
     (bind (run_lima rt [''create'', ''--name=luhmen'', ''--tty=false'', in_state rt ''vm.yaml''] START_TIMEOUT ''VM creation'')
       (\<lambda>_. return ()))))))"

definition create_locked :: "runtime \<Rightarrow> config \<Rightarrow> inspection io" where
  "create_locked rt c =
     bind (context_ready rt) (\<lambda>_.
     after (store_config rt c)
     (bind (vm_entry rt) (\<lambda>entry.
     after (if entry = None then create_vm rt c else return ())
     (after (ensure_context rt)
     (inspect rt)))))"

definition create :: "runtime \<Rightarrow> config \<Rightarrow> inspection io" where
  "create rt c =
     after (check_host rt)
     (after (check_lima rt)
     (after (validate_config c (state_dir rt))
     (after (if nested_virtualization c then check_nested_host else return ())
     (after (check_resources c)
     (after (ensure_owned (state_dir rt) True)
     (after (lock rt)
     (create_locked rt c)))))))"

section \<open>Provisioning updates\<close>

definition require_stopped_for_update :: "runtime \<Rightarrow> unit io" where
  "require_stopped_for_update rt =
     bind (vm_entry rt) (\<lambda>found.
     bind (lift (ok_or found ''luhmen VM does not exist'')) (\<lambda>entry.
     require (vm_status entry = Some ''Stopped'')
       ''VM must be stopped before updating provisioning; run `luhmen stop` first''))"

definition baseline_path :: "runtime \<Rightarrow> string" where
  "baseline_path rt = in_state rt ''vm.yaml''"

definition actual_path :: "runtime \<Rightarrow> string" where
  "actual_path rt = path_join (in_state rt ''lima/luhmen'') ''lima.yaml''"

definition compared_members :: "string list" where
  "compared_members = [''cpus'', ''memory'', ''disk'', ''mounts'', ''arch'', ''vmType'']"

text \<open>The new template: the saved one with the provisioning of this CLI.\<close>

definition update_candidate :: "json_type \<Rightarrow> json_type \<Rightarrow> json_type" where
  "update_candidate baseline current = set_member ''provision'' (index_member current ''provision'') baseline"

definition check_update :: "config \<Rightarrow> json_type \<Rightarrow> json_type \<Rightarrow> json_type \<Rightarrow> (json_type, string) result" where
  "check_update c baseline actual current =
     and_then (for_each (\<lambda>k. ensure (index_member baseline k = index_member current k)
       ''saved VM template differs from the creation settings; templates were preserved'') compared_members) (\<lambda>_.
     and_then (ensure ((case as_bool (index_member baseline ''nestedVirtualization'') of None \<Rightarrow> False | Some b \<Rightarrow> b)
         = nested_virtualization c)
       ''saved VM template nested virtualization differs from the creation settings; templates were preserved'') (\<lambda>_.
     let candidate = update_candidate baseline current in
     and_then (ensure (actual = baseline \<or> actual = candidate)
       ''VM template differs from the saved luhmen template; refusing to replace user edits'') (\<lambda>_.
     Ok candidate)))"

definition publish_templates ::
  "runtime \<Rightarrow> config \<Rightarrow> json_type \<Rightarrow> json_type \<Rightarrow> json_type \<Rightarrow> string \<Rightarrow> string \<Rightarrow> unit io"
where
  "publish_templates rt c baseline actual candidate bytes staged =
     after (write_all staged bytes)
     (after (sync_path staged)
     (bind (run_lima rt [''validate'', staged] SHORT ''updated VM provisioning validation'') (\<lambda>_.
     after (check_state_paths rt)
     (bind (read_vm_template rt (actual_path rt)) (\<lambda>actual_now.
      bind (if actual_now = actual then read_vm_template rt (baseline_path rt) else return Null) (\<lambda>baseline_now.
      bind (if actual_now = actual \<and> baseline_now = baseline then bind (saved_config rt) (\<lambda>saved. return (saved = c)) else return False) (\<lambda>same.
      after (require same ''VM template changed during validation; templates were preserved'')
      (after (require_stopped_for_update rt)
      (after (if actual \<noteq> candidate then atomic_write (actual_path rt) bytes else return ())
      (if baseline \<noteq> candidate then atomic_write (baseline_path rt) bytes else return ()))))))))))"

definition stage_templates ::
  "runtime \<Rightarrow> config \<Rightarrow> json_type \<Rightarrow> json_type \<Rightarrow> json_type \<Rightarrow> unit io"
where
  "stage_templates rt c baseline actual candidate =
     bind (lift (ok_or (print_value rt candidate) ''serialize'')) (\<lambda>bytes.
     bind (observe random_name) (\<lambda>name.
     let staged = path_join (in_state rt ''lima/luhmen'') (''luhmen-update-'' @ name @ ''.yaml'') in
     bind (create_new staged) (\<lambda>created.
     after (require created ''file exists'')
     (bind (attempt (publish_templates rt c baseline actual candidate bytes staged)) (\<lambda>result.
     after (ignoring (remove_file staged))
     (lift result))))))"

definition update_locked :: "runtime \<Rightarrow> bool io" where
  "update_locked rt =
     after (check_lima rt)
     (after (require_stopped_for_update rt)
     (bind (saved_config rt) (\<lambda>c.
      bind (read_vm_template rt (baseline_path rt)) (\<lambda>baseline.
      bind (read_vm_template rt (actual_path rt)) (\<lambda>actual.
      bind (lift (render (guest_includes rt) (print_value rt) c)) (\<lambda>rendered.
      bind (lift (ok_or (parse_value rt rendered) ''invalid JSON'')) (\<lambda>current.
      bind (lift (check_update c baseline actual current)) (\<lambda>candidate.
      let updated = (actual \<noteq> candidate \<or> baseline \<noteq> candidate) in
      after (if updated then stage_templates rt c baseline actual candidate else return ())
      (return updated)))))))))"

definition update :: "runtime \<Rightarrow> bool io" where
  "update rt = after (ensure_owned (state_dir rt) False) (after (lock rt) (update_locked rt))"

section \<open>Start, stop and restart\<close>

definition start_preflight :: "runtime \<Rightarrow> bool \<Rightarrow> bool io" where
  "start_preflight rt restart =
     after (check_lima rt)
     (bind (saved_config rt) (\<lambda>c.
     after (validate_config c (state_dir rt))
     (after (check_resources c)
     (after (ensure_context rt)
     (bind (vm_entry rt) (\<lambda>found.
      bind (lift (ok_or found ''VM is missing; run `luhmen create` with the saved configuration'')) (\<lambda>entry.
      bind (if vm_status entry = Some ''Running'' then return True
            else if vm_status entry = Some ''Stopped'' then return False
            else bail ''VM state unknown; inspect the Lima logs, then use `luhmen stop --force` to recover before retrying'') (\<lambda>running.
      after (if \<not> running \<or> restart
             then require_space (2 * 1024 * 1024 * 1024)
               ''at least 2 GiB of free host storage is required to start or restart the VM''
             else return ())
      (return running)))))))))"

text \<open>The probe repeats every 250 milliseconds until it succeeds, is cancelled or two minutes passed.\<close>

lemma now_ping: "ping env w = (r, w') \<Longrightarrow> now w \<le> now w'"
  by (auto simp: ping_def exchange_def bind_def syscall_def lift_cases Let_def
      split: verdict.splits result.splits)

lemma now_attempt_ping: "attempt ping env w = (r, w') \<Longrightarrow> now w \<le> now w'"
  by (auto simp: attempt_def split: prod.splits outcome.splits dest: now_ping)

function poll_engine :: "nat \<Rightarrow> unit io" where
  "poll_engine deadline env w =
     (if cancelled env (clock w)
      then (Failed ''readiness cancelled; the VM may still be running; run `luhmen inspect`'', w)
      else case attempt ping env w of
        (Done pinged, w') \<Rightarrow>
          if deadline < now w' \<or> (\<not> is_ok pinged \<and> deadline \<le> now w')
          then (Failed ''Docker Engine did not become ready within 120 seconds; VM is preserved'', w')
          else if is_ok pinged then (Done (), w')
          else (case sleep 250 env w' of (_, w'') \<Rightarrow> poll_engine deadline env w'')
      | (Failed e, w') \<Rightarrow> (Failed e, w')
      | (Crashed, w') \<Rightarrow> (Crashed, w'))"
  by pat_completeness auto
termination
  by (relation "measure (\<lambda>(deadline, env, w). deadline - now w)")
    (auto simp: sleep_def dest!: now_attempt_ping [OF sym])

declare poll_engine.simps [simp del]

definition wait_for_engine :: "unit io" where
  "wait_for_engine env w = poll_engine (now w + 120000) env w"

definition shutdown_script :: string where
  "shutdown_script = ''trap '' @ [CHR 0x27, CHR 0x27] @
     '' HUP INT TERM; exec /usr/bin/flock --nonblock /run/luhmen-docker-shutdown.lock /usr/local/libexec/luhmen-docker-shutdown''"

definition shutdown_args :: "string list" where
  "shutdown_args = [''shell'', NAME, ''--'', ''sudo'', ''/bin/sh'', ''-c'', shutdown_script]"

definition stop_args :: "bool \<Rightarrow> string list" where
  "stop_args force = [''stop''] @ (if force then [''--force''] else []) @ [NAME]"

definition start_args :: "string list" where
  "start_args = [''start'', ''--tty=false'', ''--timeout=10m'', NAME]"

definition power_off :: "runtime \<Rightarrow> bool \<Rightarrow> unit io" where
  "power_off rt force =
     bind (run_lima rt (stop_args force) 180000 ''VM stop'') (\<lambda>_.
     bind (vm_entry rt) (\<lambda>found.
     bind (lift (ok_or found ''VM disappeared while stopping'')) (\<lambda>entry.
     require (vm_status entry = Some ''Stopped'') ''Lima did not report a stopped VM'')))"

definition stop_locked :: "runtime \<Rightarrow> bool \<Rightarrow> unit io" where
  "stop_locked rt force =
     after (check_lima rt)
     (bind (vm_entry rt) (\<lambda>found.
      case found of
        None \<Rightarrow> return ()
      | Some entry \<Rightarrow>
          let status = (case vm_status entry of None \<Rightarrow> [] | Some s \<Rightarrow> s) in
          if status = ''Stopped'' then return ()
          else
            after (require (status = ''Running'' \<or> force)
              ''graceful stop is unavailable; use `luhmen stop --force` after inspecting its logs'')
            (bind (if force then return [] else run_lima rt shutdown_args 180000 ''graceful Docker shutdown'') (\<lambda>_.
             power_off rt force))))"

definition stop :: "runtime \<Rightarrow> bool \<Rightarrow> inspection io" where
  "stop rt force =
     after (check_host rt)
     (after (ensure_owned (state_dir rt) False)
     (after (lock rt)
     (after (stop_locked rt force)
     (inspect rt))))"

definition start_vm :: "runtime \<Rightarrow> unit io" where
  "start_vm rt = bind (run_lima rt start_args START_TIMEOUT ''VM start'') (\<lambda>_. return ())"

text \<open>A stage whose failure ends the operation.\<close>

definition try_stage :: "runtime \<Rightarrow> string \<Rightarrow> 'a io \<Rightarrow> trace \<Rightarrow> ('a \<times> trace) io" where
  "try_stage rt name operation tr =
     bind (run_stage (encode_report rt) name operation tr) (\<lambda>(result, tr).
     bind (lift result) (\<lambda>a. return (a, tr)))"

definition start_locked :: "runtime \<Rightarrow> bool \<Rightarrow> unit io" where
  "start_locked rt restart =
     bind current_time (\<lambda>t.
     bind (trace_new (encode_report rt) (unix_offset rt + t) (state_dir rt) (if restart then ''restart'' else ''start'')) (\<lambda>tr.
     bind (try_stage rt ''preflight'' (start_preflight rt restart) tr) (\<lambda>(running, tr).
     bind (if restart \<and> running then try_stage rt ''lima_stop'' (stop_locked rt False) tr else return ((), tr)) (\<lambda>(_, tr).
     bind (if \<not> running \<or> restart then bind (try_stage rt ''lima_start'' (start_vm rt) tr) (\<lambda>(_, tr). return tr)
           else skip_stage (encode_report rt) ''lima_start'' tr) (\<lambda>tr.
     bind (try_stage rt ''engine_socket_ready'' wait_for_engine tr) (\<lambda>(_, tr).
     bind (complete_trace (encode_report rt) tr) (\<lambda>_. return ())))))))"

definition start :: "runtime \<Rightarrow> inspection io" where
  "start rt =
     after (check_host rt)
     (after (ensure_owned (state_dir rt) False)
     (after (lock rt)
     (after (start_locked rt False)
     (inspect rt))))"

definition restart :: "runtime \<Rightarrow> inspection io" where
  "restart rt =
     after (check_host rt)
     (after (ensure_owned (state_dir rt) False)
     (after (lock rt)
     (after (start_locked rt True)
     (inspect rt))))"

section \<open>Storage, microVM requests and the doctor\<close>

definition storage_report :: "runtime \<Rightarrow> (string \<Rightarrow> 'r io) \<Rightarrow> 'r io" where
  "storage_report rt scan_state =
     after (ensure_owned (state_dir rt) False) (after (check_state_paths rt) (scan_state (state_dir rt)))"

definition microvm_request :: "runtime \<Rightarrow> (string \<Rightarrow> string \<times> (json_type, string) result) \<Rightarrow> string \<Rightarrow> json_type io" where
  "microvm_request rt client request =
     bind (saved_config rt) (\<lambda>c.
     after (require (nested_virtualization c)
       ''nested virtualization is disabled; recreate the VM with `luhmen create --nested-virtualization`'')
     (after (check_lima rt)
     (bind (vm_entry rt) (\<lambda>found.
      bind (lift (ok_or found ''luhmen VM does not exist; run `luhmen create --nested-virtualization`'')) (\<lambda>entry.
      after (require (vm_status entry = Some ''Running'') ''luhmen VM is not running; run `luhmen start`'')
      (after (check_state_paths rt)
      (lift (snd (client request)))))))))"

definition error_member :: "('a, string) result \<Rightarrow> json_type" where
  "error_member r = (case r of Ok _ \<Rightarrow> Null | Err e \<Rightarrow> Str e)"

definition trimmed_member :: "(string, string) result \<Rightarrow> json_type" where
  "trimmed_member r = (case r of Ok s \<Rightarrow> Str (trim s) | Err _ \<Rightarrow> Null)"

definition doctor :: "runtime \<Rightarrow> json_type io" where
  "doctor rt =
     bind (attempt (check_lima rt)) (\<lambda>lima_check.
     bind (attempt (check_host rt)) (\<lambda>host.
     bind (if is_ok host then attempt check_nested_host
           else return (Err ''nested virtualization requires a supported Apple Silicon host'')) (\<lambda>nested_host.
     bind (attempt (run_docker rt [''--version''] ''Docker CLI check'')) (\<lambda>docker.
     bind (attempt (run_docker rt [''compose'', ''version'', ''--short''] ''Compose check'')) (\<lambda>compose.
     bind (attempt (run_docker rt [''buildx'', ''version''] ''Buildx check'')) (\<lambda>buildx.
     bind (first_existing (ancestors (state_dir rt))) (\<lambda>_.
     bind (query free_space) (\<lambda>free.
     return (object [
       (''schema_version'', Numeral ''1''),
       (''supported_host'', Boolean (is_ok host)), (''host_error'', error_member host),
       (''nested_host_ready'', Boolean (is_ok nested_host)), (''nested_host_error'', error_member nested_host),
       (''lima_version'', Str LIMA_VERSION),
       (''lima_ready'', Boolean (is_ok lima_check)), (''lima_error'', error_member lima_check),
       (''docker'', trimmed_member docker), (''docker_error'', error_member docker),
       (''compose'', trimmed_member compose), (''compose_error'', error_member compose),
       (''buildx'', trimmed_member buildx), (''buildx_error'', error_member buildx),
       (''free_bytes'', Numeral (decimal free)),
       (''state_directory'', Str (state_dir rt)), (''endpoint'', Str (endpoint rt))])))))))))"

end
