(* ===== verification/Runtime_Trace.thy ===== *)
theory Runtime_Trace
  imports Runtime
begin

text \<open>
  Which commands the lifecycle operations run. The locale \<open>probing_relation\<close> extends the
  runner's: besides the signals to a process group the commands that only ask (\<open>probe\<close>) are
  allowed. Inspection and every check stay within them, and a graceful stop or restart that
  Docker does not confirm adds only the guest's shutdown command.
\<close>

section \<open>Commands that only ask\<close>

definition probes :: "runtime \<Rightarrow> string list list" where
  "probes rt =
     [argv_of (lima rt) @ [''--version''], argv_of (lima rt) @ [''list'', NAME, ''--format=json''],
      argv_of (docker_command rt) @ [''context'', ''ls'', ''--format'', ''{{.Name}}''],
      argv_of (docker_command rt) @ [''context'', ''inspect'', NAME],
      [''sw_vers'', ''-productVersion''], [''system_profiler'', ''SPHardwareDataType''], [''sysctl'', ''-n'', ''hw.memsize''],
      argv_of (docker_command rt) @ [''--version''],
      argv_of (docker_command rt) @ [''compose'', ''version'', ''--short''],
      argv_of (docker_command rt) @ [''buildx'', ''version'']]"

definition probe :: "runtime \<Rightarrow> string list \<Rightarrow> bool" where
  "probe rt argv \<longleftrightarrow> argv \<in> set (probes rt)"

lemma probeI: "argv \<in> set (probes rt) \<Longrightarrow> probe rt argv"
  by (simp add: probe_def)

lemma argv_lima [simp]: "argv_of (lima rt) = [lima_program rt]"
  by (simp add: lima_def argv_of_def with_env_def)

lemma argv_docker [simp]: "argv_of (docker_command rt) = [docker_program rt]"
  by (simp add: docker_command_def docker_variables_def) (simp add: argv_of_def)

section \<open>Saved files respect the relations\<close>

context world_relation begin

lemma now_calls: "obeys env R (millis t)" "obeys env R current_time"
  by (simp_all add: obeys_def millis_def current_time_def refl)

lemma env_call: "obeys env R (c env) \<Longrightarrow> obeys env R (\<lambda>e. c e e)"
  by (simp add: obeys_def)

lemma atomic_write: "obeys env R (atomic_write p bytes)"
proof -
  have "obeys env R (write_and_publish tmp p bytes)" for tmp
    unfolding write_and_publish_def by (intro basic)
  then have "obeys env R (Hostfs.bind (Hostfs.attempt (write_and_publish tmp p bytes)) (\<lambda>result.
      after (if is_ok result then return () else Hostfs.ignoring (remove_file tmp)) (lift result)))" for tmp
    by (intro basic choice)
  then show ?thesis by (simp add: obeys_def atomic_write_def Let_def cong: if_cong)
qed

lemma publish_owner: "obeys env R (publish_owner p)"
  unfolding publish_owner_def by (intro basic atomic_write)

lemma ensure_owned: "obeys env R (ensure_owned p b)"
  unfolding ensure_owned_def by (auto intro!: basic choice publish_owner split: result.split option.split)

lemma first_existing: "obeys env R (first_existing ps)"
  by (induction ps) (auto intro!: basic choice)

lemma canonical_destination: "obeys env R (canonical_destination p)"
  unfolding canonical_destination_def by (intro basic first_existing)

lemma validate_mounts: "obeys env R (validate_mounts s earlier ms)"
proof (induction ms arbitrary: earlier)
  case (Cons m ms)
  then show ?case unfolding validate_mounts.simps by (intro basic)
qed (simp add: pure)

lemma validate_config: "obeys env R (validate_config c s)"
  unfolding validate_config_def by (intro basic canonical_destination validate_mounts)

lemma check_directories: "obeys env R (check_directories ps)"
  by (induction ps) (auto intro!: basic)

lemma check_state_paths: "obeys env R (check_state_paths rt)"
  unfolding check_state_paths_def check_socket_def by (intro basic check_directories)

lemma lock: "obeys env R (lock rt)"
proof -
  have "obeys env R (after (Hostfs.syscall f) (Hostfs.bind (query lock_held) (\<lambda>held.
      require (\<not> held) ''another luhmen lifecycle command is active; wait for it to finish'')))" for f
    by (intro basic syscall)
  then show ?thesis by (simp add: obeys_def lock_def)
qed

lemma saved_config: "obeys env R (saved_config rt)"
  unfolding saved_config_def by (intro basic)

lemma read_vm_template: "obeys env R (read_vm_template rt p)"
  unfolding read_vm_template_def by (intro basic)

lemma read_report: "obeys env R (read_report d s)"
  unfolding read_report_def Let_def by (auto intro!: basic split: option.split)

lemma ping: "obeys env R Engine.ping"
  unfolding ping_def by (intro basic)

lemma require_space: "obeys env R (require_space n e)"
  unfolding require_space_def by (intro basic)

lemma checkpoint: "obeys env R (checkpoint enc tr)"
  unfolding checkpoint_def by (intro basic atomic_write)

lemma trace_new: "obeys env R (trace_new enc u s k)"
  unfolding trace_new_def Let_def by (intro basic now_calls checkpoint)

lemma skip_stage: "obeys env R (skip_stage enc n tr)"
  unfolding skip_stage_def Let_def by (intro basic checkpoint)

lemma complete_trace: "obeys env R (complete_trace enc tr)"
  unfolding complete_trace_def Let_def by (intro basic now_calls checkpoint)

lemma run_stage: "obeys env R c \<Longrightarrow> obeys env R (run_stage enc n c tr)"
  unfolding run_stage_def Let_def by (intro basic now_calls checkpoint)

lemma try_stage: "obeys env R c \<Longrightarrow> obeys env R (try_stage rt n c tr)"
  unfolding try_stage_def by (auto intro!: basic run_stage split: prod.split)

lemma wait_for_engine: "obeys env R wait_for_engine"
proof -
  have "R w w'" if "env' = env" "poll_engine deadline env' w = (r, w')" for env' deadline w r w'
    using that
  proof (induction deadline env' w rule: poll_engine.induct)
    case (1 deadline env' w)
    note env = 1(2) and run = 1(3)
    obtain c w1 where p: "Hostfs.attempt Engine.ping env w = (c, w1)" by fastforce
    note R1 = obeysD [OF attempt [OF ping] p]
    show ?case
    proof (cases "\<not> cancelled env (clock w) \<and> (\<exists>e. c = Done (Err e) \<and> now w1 < deadline)")
      case True
      obtain s w2 where nap: "Hostfs.sleep 250 env w1 = (s, w2)" by fastforce
      have "R w2 w'" using 1(1) run env p nap True by (auto simp: poll_engine.simps [of deadline env w])
      with R1 obeysD [OF sleep nap] show ?thesis by (blast intro: trans)
    next
      case False
      have unit: "x \<noteq> Ok () \<Longrightarrow> \<exists>e. x = Err e" for x :: "(unit, string) result" by (cases x) auto
      from False run env p R1 refl show ?thesis
        by (auto simp: poll_engine.simps [of deadline env w] is_ok_iff not_less
            split: outcome.splits if_splits result.splits dest!: unit)
    qed
  qed
  then show ?thesis by (simp add: obeys_def wait_for_engine_def)
qed

end

section \<open>Operations that only ask\<close>

locale probing_relation = runner_relation +
  fixes rt :: runtime
  assumes probes: "probe rt argv \<Longrightarrow> allowed argv"
begin

lemma ask_lima: "argv_of (lima rt) @ args \<in> set (probes rt) \<Longrightarrow> obeys env R (run_lima rt args t m)"
  by (intro run_success probes probeI) simp

lemma ask_docker: "argv_of (docker_command rt) @ args \<in> set (probes rt) \<Longrightarrow> obeys env R (run_docker rt args m)"
  by (intro run_success probes probeI) simp

lemma ask_host: "name # args \<in> set (probes rt) \<Longrightarrow> obeys env R (run_host name args m)"
  unfolding run_host_def by (intro run_success probes probeI) (simp add: argv_of_def)

lemma check_lima: "obeys env R (check_lima rt)"
  unfolding check_lima_def by (intro basic check_state_paths ask_lima) (simp add: probes_def)

lemma macos_major: "obeys env R macos_major"
  unfolding macos_major_def by (intro basic ask_host) (simp add: probes_def)

lemma check_host: "obeys env R (check_host rt)"
  unfolding check_host_def by (intro basic macos_major)

lemma check_nested_host: "obeys env R check_nested_host"
  unfolding check_nested_host_def by (intro basic macos_major ask_host) (simp add: probes_def)

lemma check_resources: "obeys env R (check_resources c)"
  unfolding check_resources_def by (intro basic ask_host) (simp add: probes_def)

lemma vm_entry: "obeys env R (vm_entry rt)"
  unfolding vm_entry_def by (intro basic choice ask_lima) (simp add: probes_def)

lemma context_ready: "obeys env R (context_ready rt)"
  unfolding context_ready_def context_exists_def
  by (intro basic choice ask_docker) (simp_all add: probes_def)

lemma inspect_parts:
  "obeys env R (inspect_config rt)" "obeys env R (inspect_vm rt)" "obeys env R (inspect_last_start rt)"
  unfolding inspect_config_def inspect_vm_def inspect_last_start_def Let_def
  by (auto intro!: basic choice saved_config check_lima vm_entry read_report split: prod.split)

lemma inspect_saved: "obeys env R (inspect_saved rt)"
  unfolding inspect_saved_def
  by (auto intro!: basic choice ensure_owned check_state_paths inspect_parts split: prod.split)

lemma inspect: "obeys env R (inspect rt)"
  unfolding inspect_def Let_def
  by (auto intro!: basic inspect_saved inspect_parts ping context_ready split: prod.split)

lemma doctor: "obeys env R (doctor rt)"
  unfolding doctor_def
  by (intro basic choice check_lima check_host check_nested_host ask_docker first_existing) (simp_all add: probes_def)

lemma require_stopped: "obeys env R (require_stopped_for_update rt)"
  unfolding require_stopped_for_update_def by (intro basic vm_entry)

end

interpretation asks_only: probing_relation env "adds (\<lambda>a. kill_command a \<or> probe rt a \<or> P a)"
    "\<lambda>a. kill_command a \<or> probe rt a \<or> P a" rt for env rt P
  by unfold_locales auto

interpretation asks: probing_relation env extends_commands "\<lambda>_. True" rt for env rt
  by unfold_locales simp

section \<open>A graceful stop waits for Docker\<close>

definition shutdown_argv :: "runtime \<Rightarrow> string list" where
  "shutdown_argv rt = argv_of (lima rt) @ shutdown_args"

definition stop_argv :: "runtime \<Rightarrow> bool \<Rightarrow> string list" where
  "stop_argv rt force = argv_of (lima rt) @ stop_args force"

definition start_argv :: "runtime \<Rightarrow> string list" where
  "start_argv rt = argv_of (lima rt) @ start_args"

lemma stop_args_apart:
  "\<not> kill_command (stop_argv rt f)" "\<not> probe rt (stop_argv rt f)" "stop_argv rt f \<noteq> shutdown_argv rt"
  "stop_argv rt f \<noteq> start_argv rt"
  by (cases f; auto simp: stop_argv_def shutdown_argv_def start_argv_def stop_args_def shutdown_args_def start_args_def
      kill_command_def probe_def probes_def)+

text \<open>The guest never reports that Docker was shut down.\<close>

definition docker_keeps_running :: "environment \<Rightarrow> runtime \<Rightarrow> bool" where
  "docker_keeps_running env rt \<longleftrightarrow> (\<forall>t out. child env t (shutdown_argv rt) \<noteq> Exited True out)"

lemma unconfirmed_stop:
  assumes "docker_keeps_running env rt"
  shows "obeys env (adds (\<lambda>a. kill_command a \<or> probe rt a \<or> a = shutdown_argv rt)) (stop_locked rt False)"
proof -
  let ?P = "\<lambda>a. kill_command a \<or> probe rt a \<or> a = shutdown_argv rt"
  have ask: "obeys env (adds ?P) (run_lima rt shutdown_args 180000 ''graceful Docker shutdown'')"
    by (rule runs_only.run_success) (simp add: shutdown_argv_def)
  have never: "run_lima rt shutdown_args 180000 ''graceful Docker shutdown'' env w \<noteq> (Done out, w')" for w out w'
    using assms run_success_Done [of "with_args (lima rt) shutdown_args" 180000 "''graceful Docker shutdown''" env w out w']
    by (auto simp: ended_def docker_keeps_running_def shutdown_argv_def)
  have shut: "obeys env (adds ?P) (bind (run_lima rt shutdown_args 180000 ''graceful Docker shutdown'') k)"
    for k :: "string \<Rightarrow> unit io"
    using never by (intro adds.bind_returned ask) blast
  show ?thesis
    unfolding stop_locked_def Let_def
    by (auto intro!: adds.basic adds.choice asks_only.check_lima asks_only.vm_entry shut split: option.split)
qed

definition started_commands :: "runtime \<Rightarrow> string list set" where
  "started_commands rt = {shutdown_argv rt, start_argv rt, argv_of (docker_command rt) @ context_create_args rt}"

lemma unconfirmed_start:
  assumes "docker_keeps_running env rt"
  shows "obeys env (adds (\<lambda>a. kill_command a \<or> probe rt a \<or>
      a \<in> started_commands rt)) (start_locked rt b)"
proof -
  let ?P = "\<lambda>a. kill_command a \<or> probe rt a \<or> a \<in> started_commands rt"
  have stop: "obeys env (adds ?P) (stop_locked rt False)"
    using unconfirmed_stop [OF assms] unfolding obeys_def started_commands_def by (blast intro: adds_mono)
  have start: "obeys env (adds ?P) (start_vm rt)"
    unfolding start_vm_def by (intro adds.basic runs_only.run_success) (simp add: start_argv_def started_commands_def)
  have ctx: "obeys env (adds ?P) (ensure_context rt)"
    unfolding ensure_context_def
    by (intro adds.basic adds.choice asks_only.context_ready runs_only.run_success)
      (simp add: started_commands_def)
  have preflight: "obeys env (adds ?P) (start_preflight rt b')" for b'
    unfolding start_preflight_def
    by (intro adds.basic adds.choice asks_only.check_lima adds.saved_config adds.validate_config
        asks_only.check_resources ctx asks_only.vm_entry adds.require_space)
  show ?thesis
    unfolding start_locked_def
    by (auto intro!: adds.bind adds.pure adds.now_calls adds.trace_new adds.try_stage
        adds.skip_stage adds.complete_trace adds.wait_for_engine stop start preflight split: prod.split)
qed

lemma outer_operation:
  assumes "obeys env (adds (\<lambda>a. kill_command a \<or> probe rt a \<or> Q a)) c"
  shows "obeys env (adds (\<lambda>a. kill_command a \<or> probe rt a \<or> Q a))
    (after (check_host rt) (after (ensure_owned (state_dir rt) False) (after (lock rt) (after c (inspect rt)))))"
  by (intro adds.bind asks_only.check_host adds.ensure_owned adds.lock asks_only.inspect assms)

section \<open>Operations that change no file\<close>

lemma silent_observe [io_rules]: "silent (observe f)" "silent (happenings_of a t)" "silent check_cancelled"
  by (simp_all add: silent_iff observe_def happenings_of_def check_cancelled_def)

lemma silent_poll_status [io_rules]: "silent (poll_status argv)"
  unfolding poll_status_def by (auto intro!: io_rules split: child.split)

lemma silent_capture [io_rules]: "silent (capture argv hs a b out err)"
proof (induction hs arbitrary: a b out err)
  case Nil
  show ?case unfolding capture.simps by (auto intro!: io_rules split: option.split)
next
  case (Cons h hs)
  then show ?case unfolding capture.simps by (auto intro!: io_rules split: option.split happening.split)
qed

lemma silent_reap [io_rules]: "silent (reap argv hs)"
  by (induction hs) (auto intro!: io_rules)

lemma silent_ignoring [io_rules]: "silent c \<Longrightarrow> silent (ignoring c)"
  unfolding ignoring_def by (intro io_rules)

lemma silent_signal_group [io_rules]: "silent (signal_group g s)"
  unfolding signal_group_def Let_def by (auto intro!: io_rules split: child.split)

lemma silent_terminate_group [io_rules]: "silent (terminate_group argv)"
  unfolding terminate_group_def kill_child_def by (intro io_rules silent_syscall) simp

lemma silent_run_command [io_rules]: "silent (run_command c t)"
  unfolding run_command_def by (auto intro!: io_rules split: result.split)

lemma silent_run_success [io_rules]: "silent (run_success c t m)"
  unfolding run_success_def by (intro io_rules)

lemma silent_check_directories [io_rules]: "silent (check_directories ps)"
  by (induction ps) (auto intro!: io_rules)

lemma silent_checks [io_rules]:
  "silent (check_state_paths rt)" "silent (check_lima rt)" "silent macos_major" "silent (check_host rt)"
  "silent check_nested_host" "silent (check_resources c)" "silent (require_space n e)"
  unfolding check_lima_def check_state_paths_def check_socket_def macos_major_def check_host_def
    check_nested_host_def check_resources_def require_space_def run_host_def
  by (intro io_rules)+

lemma silent_reads [io_rules]:
  "silent (saved_config rt)" "silent (read_vm_template rt p)" "silent (vm_entry rt)" "silent (context_ready rt)"
  "silent (require_stopped_for_update rt)"
  unfolding saved_config_def read_vm_template_def vm_entry_def context_ready_def context_exists_def
    require_stopped_for_update_def
  by (intro io_rules)+

lemma silent_read_report [io_rules]: "silent (read_report d s)"
  unfolding read_report_def Let_def by (auto intro!: io_rules split: option.split)

lemma silent_ping [io_rules]: "silent Engine.ping"
  unfolding ping_def by (intro io_rules)

lemma silent_inspect [io_rules]: "silent (inspect rt)"
  unfolding inspect_def inspect_saved_def inspect_config_def inspect_vm_def inspect_last_start_def Let_def
  by (auto intro!: io_rules split: prod.split)

section \<open>Successful operations\<close>

lemma power_off_Done:
  assumes "power_off rt force env w = (Done u, w')"
  shows "\<exists>w1 w2 entry. extends_commands w w1 \<and> vm_entry rt env w1 = (Done (Some entry), w2) \<and> w2 = w'
    \<and> vm_status entry = Some ''Stopped''"
proof -
  from assms obtain out w1 found w2 entry where stop: "run_lima rt (stop_args force) 180000 ''VM stop'' env w = (Done out, w1)"
    and seen: "vm_entry rt env w1 = (Done found, w2)" "found = Some entry" "vm_status entry = Some ''Stopped''" "w' = w2"
    unfolding power_off_def by (auto elim!: bind_DoneE dest!: lift_DoneD require_DoneD)
  have "extends_commands w w1" using run_success_Done [OF stop] by (auto simp: extends_commands_def)
  with seen show ?thesis by blast
qed

lemma stop_locked_Done:
  assumes "stop_locked rt force env w = (Done u, w')"
  shows "\<exists>w1 w2 found. extends_commands w w1 \<and> vm_entry rt env w1 = (Done found, w2) \<and> w2 = w'
    \<and> (found = None \<or> (\<exists>entry. found = Some entry \<and> vm_status entry = Some ''Stopped''))"
proof -
  from assms obtain w1 found w2 where checked: "check_lima rt env w = (Done (), w1)"
    and seen: "vm_entry rt env w1 = (Done found, w2)"
    and rest: "(case found of
        None \<Rightarrow> return ()
      | Some entry \<Rightarrow>
          let status = (case vm_status entry of None \<Rightarrow> [] | Some s \<Rightarrow> s) in
          if status = ''Stopped'' then return ()
          else
            after (require (status = ''Running'' \<or> force)
              ''graceful stop is unavailable; use `luhmen stop --force` after inspecting its logs'')
            (bind (if force then return [] else run_lima rt shutdown_args 180000 ''graceful Docker shutdown'') (\<lambda>_.
             power_off rt force))) env w2 = (Done u, w')"
    unfolding stop_locked_def by (elim bind_DoneE) auto
  have before: "extends_commands w w1" by (rule obeysD [OF asks.check_lima checked])
  show ?thesis
  proof (cases "found = None \<or> (\<exists>entry. found = Some entry \<and> vm_status entry = Some ''Stopped'')")
    case True
    with rest have "w' = w2" by (auto simp: return_def Let_def)
    with True before seen show ?thesis by blast
  next
    case False
    then obtain entry where entry: "found = Some entry" "vm_status entry \<noteq> Some ''Stopped''" by auto
    let ?status = "case vm_status entry of None \<Rightarrow> [] | Some s \<Rightarrow> s"
    from entry have "?status \<noteq> ''Stopped''" by (auto split: option.splits)
    with rest entry(1) have "after (require (?status = ''Running'' \<or> force)
              ''graceful stop is unavailable; use `luhmen stop --force` after inspecting its logs'')
            (bind (if force then return [] else run_lima rt shutdown_args 180000 ''graceful Docker shutdown'') (\<lambda>_.
             power_off rt force)) env w2 = (Done u, w')"
      by (simp add: Let_def cong: if_cong)
    then obtain out w4 where
      down: "(if force then return [] else run_lima rt shutdown_args 180000 ''graceful Docker shutdown'') env w2 = (Done out, w4)"
      and off: "power_off rt force env w4 = (Done u, w')"
      by (elim after_require_DoneE bind_DoneE)
    have "extends_commands w w4"
    proof -
      have "obeys env extends_commands (if force then return [] else run_lima rt shutdown_args 180000 ''graceful Docker shutdown'')"
        by (intro ext.basic ext.choice runs.run_success) simp
      from ext.trans [OF ext.trans [OF before obeysD [OF asks.vm_entry seen]] obeysD [OF this down]]
      show ?thesis .
    qed
    with power_off_Done [OF off] ext.trans show ?thesis by blast
  qed
qed

lemma poll_engine_Done:
  "poll_engine deadline env w = (Done u, w') \<Longrightarrow>
     now w' \<le> deadline \<and> (\<exists>t bytes. clock w \<le> t \<and> t < clock w' \<and> response env t = Ok bytes \<and> parse_ping (take 8193 bytes) = Ok ())"
proof (induction deadline env w rule: poll_engine.induct)
  case (1 deadline env w)
  obtain c w1 where p: "attempt ping env w = (c, w1)" by fastforce
  show ?case
  proof (cases "\<not> cancelled env (clock w) \<and> (\<exists>e. c = Done (Err e) \<and> now w1 < deadline)")
    case True
    obtain s w2 where nap: "sleep 250 env w1 = (s, w2)" by fastforce
    have "now w' \<le> deadline \<and> (\<exists>t bytes. clock w2 \<le> t \<and> t < clock w' \<and> response env t = Ok bytes \<and> parse_ping (take 8193 bytes) = Ok ())"
      using 1 p nap True by (auto simp: poll_engine.simps [of deadline env w])
    moreover have "clock w \<le> clock w2"
      using obeysD [OF same.attempt [OF same.ping] p] obeysD [OF same.sleep nap] by (simp add: same_commands_def)
    ultimately show ?thesis by (meson le_trans)
  next
    case False
    have unit: "x \<noteq> Ok () \<Longrightarrow> \<exists>e. x = Err e" for x :: "(unit, string) result" by (cases x) auto
    from False 1(2) p have ok: "c = Done (Ok ())" "w' = w1" "now w1 \<le> deadline"
      by (auto simp: poll_engine.simps [of deadline env w] is_ok_iff not_less
          split: outcome.splits if_splits result.splits dest!: unit)
    from p ok(1) have "ping env w = (Done (), w1)" by (auto elim: attempt_cases)
    then obtain bytes wx where ex: "exchange env w = (Done bytes, wx)" "parse_ping (take 8193 bytes) = Ok ()" "w1 = wx"
      unfolding ping_def by (auto elim!: bind_DoneE dest!: lift_DoneD)
    from ex(1) have "response env (clock w) = Ok bytes \<and> clock wx = clock w + 1"
      by (auto simp: exchange_def syscall_def lift_cases Let_def split: verdict.splits result.splits)
    with ex ok show ?thesis by auto
  qed
qed

lemma try_stage_Done:
  assumes "try_stage rt n c tr env w = (Done (a, tr'), w')"
  shows "\<exists>w1 w2. extends_commands w w1 \<and> c env w1 = (Done a, w2) \<and> extends_commands w2 w'"
proof -
  from assms obtain result tr1 where run: "run_stage (encode_report rt) n c tr env w = (Done (result, tr1), w')"
    and ok: "result = Ok a" "tr' = tr1"
    unfolding try_stage_def by (auto elim!: bind_DoneE dest!: lift_DoneD simp: return_def split: prod.splits)
  let ?tr = "push_stage n Stage_Running tr"
  from run obtain u1 w1 t w2 q w3 e w4 o' w5 u2 w6 where steps:
      "checkpoint (encode_report rt) ?tr env w = (Done u1, w1)" "current_time env w1 = (Done t, w2)"
      "attempt c env w2 = (Done q, w3)" "millis t env w3 = (Done e, w4)" "millis (trace_started ?tr) env w4 = (Done o', w5)"
      "checkpoint (encode_report rt) (finish_stage (is_ok q) e o' ?tr) env w5 = (Done u2, w6)"
    and last: "return (q, finish_stage (is_ok q) e o' ?tr) env w6 = (Done (result, tr1), w')"
    unfolding run_stage_def Let_def by (elim bind_DoneE) (rule that)
  from last ok have q: "q = Ok a" "w' = w6" by (simp_all add: return_def)
  have "extends_commands w w2"
    by (rule ext.trans [OF obeysD [OF ext.checkpoint steps(1)] obeysD [OF ext.now_calls(2) steps(2)]])
  moreover have "c env w2 = (Done a, w3)" using steps(3) q(1) by (auto elim: attempt_cases)
  moreover have "extends_commands w3 w'"
    unfolding q(2)
    by (rule ext.trans [OF obeysD [OF ext.now_calls(1) steps(4)]
          ext.trans [OF obeysD [OF ext.now_calls(1) steps(5)] obeysD [OF ext.checkpoint steps(6)]]])
  ultimately show ?thesis by blast
qed

lemma bind_pair_DoneE:
  assumes "bind c (\<lambda>(a, b). k a b) env w = (Done r, w')"
  obtains a b w1 where "c env w = (Done (a, b), w1)" "k a b env w1 = (Done r, w')"
  using assms by (elim bind_DoneE) (auto split: prod.splits)

lemma start_locked_Done:
  assumes "start_locked rt b env w = (Done u, w')"
  shows "\<exists>t bytes. clock w \<le> t \<and> t < clock w' \<and> response env t = Ok bytes \<and> parse_ping (take 8193 bytes) = Ok ()"
proof -
  have ops: "obeys env extends_commands (start_preflight rt b')" "obeys env extends_commands (stop_locked rt b')"
    "obeys env extends_commands (start_vm rt)" for b'
    unfolding start_preflight_def stop_locked_def power_off_def start_vm_def ensure_context_def Let_def
    by (auto intro!: ext.basic ext.choice asks.check_lima ext.saved_config ext.validate_config asks.check_resources
        asks.context_ready runs.run_success asks.vm_entry ext.require_space split: option.split)
  from assms obtain t w1 tr w2 running tr1 w3 x tr2 w4 tr3 w5 y tr4 w6 z w7 where
      s1: "current_time env w = (Done t, w1)"
    and s2: "trace_new (encode_report rt) (unix_offset rt + t) (state_dir rt) (if b then ''restart'' else ''start'') env w1 = (Done tr, w2)"
    and s3: "try_stage rt ''preflight'' (start_preflight rt b) tr env w2 = (Done (running, tr1), w3)"
    and s4: "(if b \<and> running then try_stage rt ''lima_stop'' (stop_locked rt False) tr1 else return ((), tr1)) env w3 = (Done (x, tr2), w4)"
    and s5: "(if \<not> running \<or> b then bind (try_stage rt ''lima_start'' (start_vm rt) tr2) (\<lambda>(_, tr). return tr)
           else skip_stage (encode_report rt) ''lima_start'' tr2) env w4 = (Done tr3, w5)"
    and s6: "try_stage rt ''engine_socket_ready'' wait_for_engine tr3 env w5 = (Done (y, tr4), w6)"
    and s7: "complete_trace (encode_report rt) tr4 env w6 = (Done z, w7)" and s8: "return () env w7 = (Done u, w')"
    unfolding start_locked_def by (elim bind_pair_DoneE bind_DoneE) (rule that)
  have o4: "obeys env extends_commands (if b \<and> running then try_stage rt ''lima_stop'' (stop_locked rt False) tr1 else return ((), tr1))"
    by (intro ext.choice ext.try_stage ops ext.pure)
  have o5: "obeys env extends_commands (if \<not> running \<or> b then bind (try_stage rt ''lima_start'' (start_vm rt) tr2) (\<lambda>(_, tr). return tr)
           else skip_stage (encode_report rt) ''lima_start'' tr2)"
    by (auto intro!: ext.choice ext.bind ext.try_stage ops ext.pure ext.skip_stage split: prod.split)
  have "extends_commands w w5"
    by (rule ext.trans [OF obeysD [OF ext.now_calls(2) s1] ext.trans [OF obeysD [OF ext.trace_new s2]
          ext.trans [OF obeysD [OF ext.try_stage [OF ops(1)] s3] ext.trans [OF obeysD [OF o4 s4] obeysD [OF o5 s5]]]]])
  moreover from try_stage_Done [OF s6] obtain v1 v2 where
    v: "extends_commands w5 v1" "wait_for_engine env v1 = (Done y, v2)" "extends_commands v2 w6" by blast
  moreover have "extends_commands w6 w'"
    using obeysD [OF ext.complete_trace s7] s8 by (simp add: return_def)
  moreover from poll_engine_Done [OF v(2) [unfolded wait_for_engine_def]] obtain t bytes where
    "clock v1 \<le> t" "t < clock v2" "response env t = Ok bytes" "parse_ping (take 8193 bytes) = Ok ()" by blast
  ultimately show ?thesis
    by (intro exI [of _ t] exI [of _ bytes]) (auto simp: extends_commands_def)
qed

section \<open>A concrete host\<close>

definition sample_entry :: "string \<Rightarrow> json_type" where
  "sample_entry status = object [(''name'', Str NAME), (''dir'', Str ''/s/lima/luhmen''), (''status'', Str status)]"

definition sample_config :: config where
  "sample_config = \<lparr>schema_version = 1, cpus = 2, memory_gib = 4, disk_gib = 30, mounts = [], nested_virtualization = False\<rparr>"

definition sample_context :: json_type where
  "sample_context = object [(''Endpoints'', object [(''docker'', object [(''Host'', Str ''unix:///s/lima/luhmen/sock/docker.sock'')])]),
     (''Metadata'', object [(''Description'', Str CONTEXT_DESCRIPTION)])]"

definition sample_runtime :: "string \<Rightarrow> runtime" where
  "sample_runtime status = \<lparr>state_dir = ''/s'', limactl_variable = None, docker_variable = None, apple_silicon = True,
     unix_offset = 0, parse_value = \<lambda>_. Some (Array [sample_context]), parse_stream = \<lambda>_. [Some (sample_entry status)],
     print_value = \<lambda>_. Some ''{}'', decode_config = \<lambda>_. Some sample_config, encode_config = \<lambda>_. None,
     decode_report = \<lambda>_. None, encode_report = \<lambda>_. None,
     guest_includes = \<lparr>docker_config_signature = [], docker_shutdown_base64 = [], microvm_helper = [], microvmd_launcher = []\<rparr>\<rparr>"

definition sample_output :: "string list \<Rightarrow> string" where
  "sample_output argv =
     (if argv = [''limactl'', ''--version''] then ''limactl version 2.2.0''
      else if argv = [''sw_vers'', ''-productVersion''] then ''15.1''
      else if argv = [''sysctl'', ''-n'', ''hw.memsize''] then ''34359738368''
      else ''luhmen'')"

definition sample_host_env :: environment where
  "sample_host_env = quiet\<lparr>happenings := \<lambda>_ argv _. [Out_Chunk (Some (sample_output argv)), Out_Chunk (Some []), Err_Chunk (Some [])],
     response := \<lambda>_. Ok (''HTTP/1.1 200 OK'' @ CRLFCRLF @ ''OK'')\<rparr>"

definition sample_state :: world where
  "sample_state = \<lparr>files = [''/s'' \<mapsto> Directory 448, ''/s/owner'' \<mapsto> Regular OWNER (private_file quiet),
     ''/s/config.json'' \<mapsto> Regular ''{}'' (private_file quiet), ''/s/lima/luhmen'' \<mapsto> Directory 448],
     clock = 0, now = 0, commands = []\<rparr>"

lemma sample_stops:
  "is_ok (case stop (sample_runtime ''Stopped'') False sample_host_env sample_state of (Done _, _) \<Rightarrow> Ok () | _ \<Rightarrow> Err ())"
  by code_simp

section \<open>Properties\<close>

text \<open>
  C14. A graceful stop or restart asks Lima to power the VM off only after Docker has shut
  down: as long as the guest's shutdown command never ends successfully, no stop command is
  issued, forced or not, whatever else fails and whatever Lima reports.
\<close>

theorem unconfirmed_stop_never_powers_off:
  assumes "docker_keeps_running env rt"
    and "stop rt False env w = (r, w') \<or> restart rt env w = (r, w')"
  shows "\<exists>l. commands w' = commands w @ l \<and> stop_argv rt force \<notin> set l"
proof -
  let ?Q = "\<lambda>a. a \<in> started_commands rt"
  have "obeys env (adds (\<lambda>a. kill_command a \<or> probe rt a \<or> ?Q a)) (stop_locked rt False)"
    using unconfirmed_stop [OF assms(1)] unfolding obeys_def started_commands_def by (blast intro: adds_mono)
  from outer_operation [OF this] outer_operation [OF unconfirmed_start [OF assms(1), of True]]
  have "adds (\<lambda>a. kill_command a \<or> probe rt a \<or> ?Q a) w w'"
    using assms(2) unfolding stop_def restart_def by (auto dest: obeysD)
  moreover have "\<not> (kill_command (stop_argv rt force) \<or> probe rt (stop_argv rt force) \<or> ?Q (stop_argv rt force))"
    using stop_args_apart [of rt force]
    by (auto simp: started_commands_def stop_argv_def context_create_args_def stop_args_def split: if_splits)
  ultimately show ?thesis unfolding adds_def by blast
qed

text \<open>A guest whose shutdown helper fails.\<close>

definition stuck_guest :: environment where
  "stuck_guest = sample_host_env\<lparr>child := \<lambda>_ argv. Exited (argv \<noteq> shutdown_argv (sample_runtime ''Running'')) []\<rparr>"

theorem unconfirmed_stop_never_powers_off_witness:
  "stop_argv (sample_runtime ''Running'') False
     \<notin> set (commands (snd (stop (sample_runtime ''Running'') False stuck_guest sample_state)))"
proof -
  have "docker_keeps_running stuck_guest (sample_runtime ''Running'')"
    by (simp add: docker_keeps_running_def stuck_guest_def)
  from unconfirmed_stop_never_powers_off [OF this disjI1 [OF surjective_pairing], of sample_state False]
  obtain l where "commands (snd (stop (sample_runtime ''Running'') False stuck_guest sample_state)) = commands sample_state @ l"
    "stop_argv (sample_runtime ''Running'') False \<notin> set l" by blast
  moreover have "commands sample_state = []" by (simp add: sample_state_def)
  ultimately show ?thesis by simp
qed

text \<open>
  A stop that reports success has seen the VM stopped: the last thing Lima was asked
  before the closing inspection is the instance, and it was absent or reported as stopped.
\<close>

theorem successful_stop_saw_stopped:
  assumes "stop rt force env w = (Done report, w')"
  shows "\<exists>w1 w2 found. extends_commands w w1 \<and> vm_entry rt env w1 = (Done found, w2) \<and> inspect rt env w2 = (Done report, w')
    \<and> (found = None \<or> (\<exists>entry. found = Some entry \<and> vm_status entry = Some ''Stopped''))"
proof -
  from assms obtain w1 w2 w3 w4 where c: "check_host rt env w = (Done (), w1)" "ensure_owned (state_dir rt) False env w1 = (Done (), w2)"
      "lock rt env w2 = (Done (), w3)" and stopped: "stop_locked rt force env w3 = (Done (), w4)"
    and report: "inspect rt env w4 = (Done report, w')"
    unfolding stop_def by (elim bind_DoneE) auto
  have "extends_commands w w3"
    by (rule ext.trans [OF obeysD [OF asks.check_host c(1)] ext.trans [OF obeysD [OF ext.ensure_owned c(2)] obeysD [OF ext.lock c(3)]]])
  with stop_locked_Done [OF stopped] report ext.trans show ?thesis by blast
qed

theorem successful_stop_saw_stopped_witness:
  "\<exists>w2. vm_status (sample_entry ''Stopped'') = Some ''Stopped'' \<and>
     (\<exists>report w'. inspect (sample_runtime ''Stopped'') sample_host_env w2 = (Done report, w'))"
proof -
  obtain report w' where "stop (sample_runtime ''Stopped'') False sample_host_env sample_state = (Done report, w')"
    using sample_stops by (auto split: prod.splits outcome.splits)
  from successful_stop_saw_stopped [OF this] show ?thesis
    by (auto simp: sample_entry_def vm_status_def str_member_def)
qed

text \<open>
  C30. Start and restart report success only when the Engine answers: if no ping response
  after the operation began is a healthy one, neither returns an inspection, whatever Lima
  says about the VM.
\<close>

theorem start_requires_engine:
  assumes "\<And>t bytes. clock w \<le> t \<Longrightarrow> response env t = Ok bytes \<Longrightarrow> parse_ping (take 8193 bytes) \<noteq> Ok ()"
  shows "start rt env w \<noteq> (Done report, w') \<and> restart rt env w \<noteq> (Done report, w')"
proof -
  have "\<not> (after (check_host rt) (after (ensure_owned (state_dir rt) False) (after (lock rt)
      (after (start_locked rt b) (inspect rt)))) env w = (Done report, w'))" (is "\<not> ?run") for b
  proof
    assume ?run
    then obtain w1 w2 w3 w4 where c: "check_host rt env w = (Done (), w1)" "ensure_owned (state_dir rt) False env w1 = (Done (), w2)"
      "lock rt env w2 = (Done (), w3)" and started: "start_locked rt b env w3 = (Done (), w4)"
      by (elim bind_DoneE) auto
    have "extends_commands w w3"
      by (rule ext.trans [OF obeysD [OF asks.check_host c(1)] ext.trans [OF obeysD [OF ext.ensure_owned c(2)] obeysD [OF ext.lock c(3)]]])
    then have "clock w \<le> clock w3" by (simp add: extends_commands_def)
    with start_locked_Done [OF started] assms show False by (meson le_trans)
  qed
  then show ?thesis unfolding start_def restart_def by blast
qed

theorem start_requires_engine_witness:
  "\<not> (\<exists>report w'. start (sample_runtime ''Running'') quiet sample_state = (Done report, w'))"
  using start_requires_engine [of sample_state quiet] by (simp add: quiet_def)

text \<open>
  Inspection only looks: it changes no file (every assertion on the files that other
  processes leave true stays true), and it runs nothing but Lima's version and list, Docker's
  context list and inspect, and the signals that clean up a dependency that did not end.
\<close>

theorem inspect_only_looks:
  assumes "stable env P" "P (files w)" "inspect rt env w = (r, w')"
  shows "P (files w') \<and> (\<exists>l. commands w' = commands w @ l \<and> (\<forall>a\<in>set l. kill_command a \<or> probe rt a))"
proof
  show "P (files w')" using silent_inspect assms unfolding silent_iff by blast
  have "adds (\<lambda>a. kill_command a \<or> probe rt a \<or> False) w w'" by (rule obeysD [OF asks_only.inspect assms(3)])
  then show "\<exists>l. commands w' = commands w @ l \<and> (\<forall>a\<in>set l. kill_command a \<or> probe rt a)" by (simp add: adds_def)
qed

theorem inspect_only_looks_witness:
  "files (snd (inspect (sample_runtime ''Running'') sample_host_env sample_state)) ''/s/owner'' = Some (Regular OWNER (private_file quiet))"
proof -
  have "stable sample_host_env (\<lambda>fs. fs ''/s/owner'' = Some (Regular OWNER (private_file quiet)))"
    by (simp add: stable_def sample_host_env_def quiet_def)
  from inspect_only_looks [OF this _ surjective_pairing] show ?thesis by (simp add: sample_state_def)
qed

text \<open>
  The commands see only this runtime: whatever variables luhmen inherits, Docker gets
  none that selects another host, context, certificates or builder, workloads use the builder
  of this VM with its own Buildx state, and Lima uses the instance home below the state
  directory without an instance override.
\<close>

theorem commands_see_only_this_runtime:
  "(\<forall>v\<in>set docker_variables. child_variables (docker_command rt) inherited v = None)
   \<and> child_variables (docker_workload_command rt) inherited ''DOCKER_HOST'' = None
   \<and> child_variables (docker_workload_command rt) inherited ''DOCKER_CONTEXT'' = None
   \<and> child_variables (docker_workload_command rt) inherited ''BUILDKIT_HOST'' = None
   \<and> child_variables (docker_workload_command rt) inherited ''BUILDX_BUILDER'' = Some NAME
   \<and> child_variables (docker_workload_command rt) inherited ''BUILDX_CONFIG'' = Some (in_state rt ''buildx'')
   \<and> child_variables (lima rt) inherited ''LIMA_HOME'' = Some (in_state rt ''lima'')
   \<and> child_variables (lima rt) inherited ''LIMA_INSTANCE'' = None"
  by (simp add: docker_workload_command_def docker_command_def docker_variables_def lima_def)

theorem commands_see_only_this_runtime_witness:
  "child_variables (docker_command (sample_runtime ''Running'')) [''DOCKER_HOST'' \<mapsto> ''tcp://other''] ''DOCKER_HOST'' = None"
  using commands_see_only_this_runtime [of "sample_runtime ''Running''"] by (simp add: docker_variables_def)

end
