(* ===== verification/Docker_Args.thy ===== *)
theory Docker_Args
  imports Prelude
begin

text \<open>
  The argument guard of \<open>luhmen docker\<close> (src/src/docker\_args.rs). The guard walks the
  arguments by index, exactly as the source does. The specification is Docker's own
  non-interspersed flag parser, written over the argument list and over Docker's option
  tables, which are parameters here because the Docker CLI is not part of the repository.
\<close>

section \<open>Data\<close>

datatype command_kind = Exec | Create

datatype arity = Boolean | Value

datatype arg_error =
    NoCommand
  | NotAWorkload
  | EndpointOverride
  | SubcommandAfterOptions
  | BuilderOverride
  | AmbiguousShort
  | UnsupportedLong string
  | RequiresValue string
  | HostOverride
  | ContextOverride
  | UnsupportedShort char

lemma not_Boolean_iff [simp]: "a \<noteq> Boolean \<longleftrightarrow> a = Value"
  by (cases a) auto

lemma not_Exec_iff [simp]: "k \<noteq> Exec \<longleftrightarrow> k = Create"
  by (cases k) auto

section \<open>Option tables\<close>

definition common_boolean :: "string list" where
  "common_boolean =
    [''debug'', ''help'', ''version'', ''detach'', ''interactive'', ''tty'', ''privileged'']"

definition common_value :: "string list" where
  "common_value =
    [''log-level'', ''detach-keys'', ''env'', ''env-file'', ''user'', ''workdir'']"

definition create_boolean :: "string list" where
  "create_boolean =
    [''disable-content-trust'', ''init'', ''no-healthcheck'', ''oom-kill-disable'',
     ''publish-all'', ''quiet'', ''read-only'', ''rm'', ''sig-proxy'', ''use-api-socket'']"

definition create_value :: "string list" where
  "create_value =
    [''add-host'', ''annotation'', ''attach'', ''blkio-weight'', ''blkio-weight-device'',
     ''cap-add'', ''cap-drop'', ''cgroup-parent'', ''cgroupns'', ''cidfile'', ''cpu-count'',
     ''cpu-percent'', ''cpu-period'', ''cpu-quota'', ''cpu-rt-period'', ''cpu-rt-runtime'',
     ''cpu-shares'', ''cpus'', ''cpuset-cpus'', ''cpuset-mems'', ''device'',
     ''device-cgroup-rule'', ''device-read-bps'', ''device-read-iops'', ''device-write-bps'',
     ''device-write-iops'', ''dns'', ''dns-option'', ''dns-search'', ''domainname'',
     ''entrypoint'', ''expose'', ''gpus'', ''group-add'', ''health-cmd'', ''health-interval'',
     ''health-retries'', ''health-start-interval'', ''health-start-period'',
     ''health-timeout'', ''hostname'', ''io-maxbandwidth'', ''io-maxiops'', ''ip'', ''ip6'',
     ''ipc'', ''isolation'', ''label'', ''label-file'', ''link'', ''link-local-ip'',
     ''log-driver'', ''log-opt'', ''mac-address'', ''memory'', ''memory-reservation'',
     ''memory-swap'', ''memory-swappiness'', ''mount'', ''name'', ''network'',
     ''network-alias'', ''oom-score-adj'', ''pid'', ''pids-limit'', ''platform'', ''publish'',
     ''pull'', ''restart'', ''runtime'', ''security-opt'', ''shm-size'', ''stop-signal'',
     ''stop-timeout'', ''storage-opt'', ''sysctl'', ''tmpfs'', ''ulimit'', ''userns'',
     ''uts'', ''volume'', ''volume-driver'', ''volumes-from'']"

definition long_option :: "string \<Rightarrow> command_kind \<Rightarrow> arity option" where
  "long_option name command =
     (if name \<in> set common_boolean then Some Boolean
      else if name \<in> set common_value then Some Value
      else if command = Exec then None
      else if name \<in> set create_boolean then Some Boolean
      else if name \<in> set create_value then Some Value
      else None)"

text \<open>The arity match of \<open>short_options\<close>, its two guards included.\<close>

definition short_option :: "command_kind \<Rightarrow> char \<Rightarrow> (arity, arg_error) result" where
  "short_option command name =
     and_then (ensure (name \<noteq> CHR ''H'') HostOverride) (\<lambda>_.
     and_then (ensure (name \<noteq> CHR ''c'' \<or> command = Create) ContextOverride) (\<lambda>_.
       if name \<in> set ''ditD'' then Ok Boolean
       else if command = Exec \<and> name \<in> set ''hv'' then Ok Boolean
       else if command = Exec \<and> name \<in> set ''euwl'' then Ok Value
       else if command = Create \<and> name \<in> set ''Pq'' then Ok Boolean
       else if command = Create \<and> name \<in> set ''acehlmpuvw'' then Ok Value
       else Err (UnsupportedShort name)))"

section \<open>The guard\<close>

definition require_value :: "string list \<Rightarrow> nat \<Rightarrow> string \<Rightarrow> (nat, arg_error) result" where
  "require_value args index option =
     and_then (ensure (get args (index + 1) \<noteq> None) (RequiresValue option)) (\<lambda>_. Ok 2)"

text \<open>The loop over \<open>short.char_indices()\<close>; a byte that is not ASCII is no known option.\<close>

fun short_options_loop ::
    "string list \<Rightarrow> nat \<Rightarrow> command_kind \<Rightarrow> string \<Rightarrow> (nat, arg_error) result" where
  "short_options_loop args index command [] = Ok 1"
| "short_options_loop args index command (name # rest) =
     and_then (short_option command name) (\<lambda>arity.
       case arity of
         Value \<Rightarrow> if rest = [] then require_value args index [name] else Ok 1
       | Boolean \<Rightarrow>
           if starts_with rest ''='' then Ok 1
           else short_options_loop args index command rest)"

definition short_options ::
    "string list \<Rightarrow> nat \<Rightarrow> command_kind \<Rightarrow> (nat, arg_error) result" where
  "short_options args index command =
     short_options_loop args index command (drop 1 (args ! index))"

definition split_inline :: "string \<Rightarrow> string \<times> bool" where
  "split_inline long =
     (case split_once (CHR ''='') long of None \<Rightarrow> (long, False) | Some (name, _) \<Rightarrow> (name, True))"

definition is_operand :: "string \<Rightarrow> bool" where
  "is_operand arg \<longleftrightarrow> arg = ''--'' \<or> arg = ''-'' \<or> \<not> starts_with arg ''-''"

definition consumed_by ::
    "string list \<Rightarrow> nat \<Rightarrow> command_kind \<Rightarrow> string \<Rightarrow> (nat, arg_error) result" where
  "consumed_by args index command arg =
     (case strip_prefix arg ''--'' of
        Some long \<Rightarrow>
          (let (name, inline) = split_inline long in
           case long_option name command of
             None \<Rightarrow> Err (UnsupportedLong name)
           | Some Boolean \<Rightarrow> Ok 1
           | Some Value \<Rightarrow> if inline then Ok 1 else require_value args index name)
      | None \<Rightarrow> short_options args index command)"

lemma short_options_loop_pos: "short_options_loop args i k s = Ok n \<Longrightarrow> 0 < n"
  by (induction s) (auto simp: require_value_def split: arity.splits if_splits)

lemma consumed_by_pos: "consumed_by args i k arg = Ok n \<Longrightarrow> 0 < n"
  by (auto simp: consumed_by_def short_options_def require_value_def
      dest: short_options_loop_pos split: option.splits prod.splits arity.splits if_splits)

function container_options_from ::
    "string list \<Rightarrow> command_kind \<Rightarrow> nat \<Rightarrow> (unit, arg_error) result" where
  "container_options_from args command index =
     (case get args index of
        None \<Rightarrow> Ok ()
      | Some arg \<Rightarrow>
          if is_operand arg then Ok ()
          else (case consumed_by args index command arg of
                  Err e \<Rightarrow> Err e
                | Ok consumed \<Rightarrow> container_options_from args command (index + consumed)))"
  by pat_completeness auto
termination
  by (relation "measure (\<lambda>(args, _, index). length args - index)")
    (auto dest!: consumed_by_pos get_SomeD)

declare container_options_from.simps [simp del]

definition validate_container_options ::
    "string list \<Rightarrow> command_kind \<Rightarrow> (unit, arg_error) result" where
  "validate_container_options args command = container_options_from args command 0"

definition option_name :: "string \<Rightarrow> string" where
  "option_name arg = (case split_once (CHR ''='') arg of None \<Rightarrow> arg | Some (name, _) \<Rightarrow> name)"

definition check_long_overrides :: "string list \<Rightarrow> (unit, arg_error) result" where
  "check_long_overrides args =
     for_each (\<lambda>arg. ensure (option_name arg \<notin> set [''--context'', ''--host'', ''--config''])
                       EndpointOverride) args"

definition check_other_option :: "string \<Rightarrow> (unit, arg_error) result" where
  "check_other_option arg =
     and_then (ensure (arg \<noteq> ''--builder'' \<and> \<not> starts_with arg ''--builder='') BuilderOverride)
       (\<lambda>_. case strip_prefix arg ''-'' of
              Some short \<Rightarrow>
                if starts_with short ''-'' then Ok ()
                else ensure (\<not> contains_any short ''cH'') AmbiguousShort
            | None \<Rightarrow> Ok ())"

definition validate_command :: "string \<Rightarrow> string list \<Rightarrow> (unit, arg_error) result" where
  "validate_command command options =
     (if command = ''exec'' then validate_container_options options Exec
      else if command \<in> set [''run'', ''create''] then validate_container_options options Create
      else for_each check_other_option options)"

fun validate :: "string list \<Rightarrow> (unit, arg_error) result" where
  "validate [] = Err NoCommand"
| "validate (command # remaining) =
     and_then (ensure (command \<noteq> [] \<and> \<not> starts_with command ''-'' \<and> command \<noteq> ''context'')
                NotAWorkload) (\<lambda>_.
     and_then (check_long_overrides (command # remaining)) (\<lambda>_.
       if command = ''container'' then
         (case remaining of
            [] \<Rightarrow> Ok ()
          | subcommand # options \<Rightarrow>
              and_then (ensure (\<not> starts_with subcommand ''-'') SubcommandAfterOptions)
                (\<lambda>_. validate_command subcommand options))
       else validate_command command remaining))"

section \<open>Docker's flag parser\<close>

text \<open>
  \<open>SetInterspersed(false)\<close> parsing with Docker's tables \<open>dl\<close> of long options and
  \<open>ds\<close> of short ones: flags are read up to the first operand and \<open>None\<close> is a parse
  error. The result lists the flags that take effect.
\<close>

datatype flag = LongFlag string | ShortFlag char

fun pflag_cluster :: "(char \<Rightarrow> arity option) \<Rightarrow> string \<Rightarrow> (flag list \<times> bool) option" where
  "pflag_cluster ds [] = Some ([], False)"
| "pflag_cluster ds (name # rest) =
     (case ds name of
        None \<Rightarrow> None
      | Some Value \<Rightarrow> Some ([ShortFlag name], rest = [])
      | Some Boolean \<Rightarrow>
          if starts_with rest ''='' then Some ([ShortFlag name], False)
          else map_option (\<lambda>(fs, more). (ShortFlag name # fs, more)) (pflag_cluster ds rest))"

definition pflag_word ::
    "(string \<Rightarrow> arity option) \<Rightarrow> (char \<Rightarrow> arity option) \<Rightarrow> string \<Rightarrow> (flag list \<times> bool) option"
where
  "pflag_word dl ds arg =
     (case strip_prefix arg ''--'' of
        Some long \<Rightarrow>
          (let (name, inline) = split_inline long in
           map_option (\<lambda>a. ([LongFlag name], a = Value \<and> \<not> inline)) (dl name))
      | None \<Rightarrow> pflag_cluster ds (drop 1 arg))"

fun pflag_parse ::
    "(string \<Rightarrow> arity option) \<Rightarrow> (char \<Rightarrow> arity option) \<Rightarrow> string list \<Rightarrow> flag list option" where
  "pflag_parse dl ds [] = Some []"
| "pflag_parse dl ds (arg # args) =
     (if is_operand arg then Some []
      else (case pflag_word dl ds arg of
              None \<Rightarrow> None
            | Some (fs, False) \<Rightarrow> map_option (\<lambda>gs. fs @ gs) (pflag_parse dl ds args)
            | Some (fs, True) \<Rightarrow>
                (case args of
                   [] \<Rightarrow> None
                 | _ # args' \<Rightarrow> map_option (\<lambda>gs. fs @ gs) (pflag_parse dl ds args'))))"

text \<open>The guard's own tables, as tables of such a parser.\<close>

definition guard_short :: "command_kind \<Rightarrow> char \<Rightarrow> arity option" where
  "guard_short command name =
     (case short_option command name of Ok a \<Rightarrow> Some a | Err _ \<Rightarrow> None)"

definition guard_long :: "command_kind \<Rightarrow> string \<Rightarrow> arity option" where
  "guard_long command name = long_option name command"

definition target_flag :: "command_kind \<Rightarrow> flag \<Rightarrow> bool" where
  "target_flag command f \<longleftrightarrow>
     f \<in> set [LongFlag ''context'', LongFlag ''host'', LongFlag ''config'', ShortFlag (CHR ''H'')]
     \<or> (command = Exec \<and> f = ShortFlag (CHR ''c''))"

section \<open>Correctness\<close>

lemma guard_short_Some_iff: "guard_short k c = Some a \<longleftrightarrow> short_option k c = Ok a"
  by (simp add: guard_short_def split: result.splits)

lemma guard_short_None_iff: "guard_short k c = None \<longleftrightarrow> (\<exists>e. short_option k c = Err e)"
  by (auto simp: guard_short_def split: result.splits)

lemma require_value_Ok_iff: "require_value args i opt = Ok n \<longleftrightarrow> i + 1 < length args \<and> n = 2"
  by (auto simp: require_value_def)

definition words_taken :: "string list \<Rightarrow> nat \<Rightarrow> bool \<Rightarrow> nat \<Rightarrow> bool" where
  "words_taken args i more n \<longleftrightarrow> (if more then i + 1 < length args \<and> n = 2 else n = 1)"

lemma short_options_loop_iff:
  "short_options_loop args i k s = Ok n \<longleftrightarrow>
     (\<exists>fs more. pflag_cluster (guard_short k) s = Some (fs, more) \<and> words_taken args i more n)"
proof (induction s)
  case Nil
  show ?case by (auto simp: words_taken_def)
next
  case (Cons name rest)
  show ?case
  proof (cases "short_option k name")
    case (Err e)
    then have "guard_short k name = None" by (simp add: guard_short_None_iff)
    with Err show ?thesis by simp
  next
    case (Ok a)
    then have "guard_short k name = Some a" by (simp add: guard_short_Some_iff)
    with Ok Cons show ?thesis
      by (cases a) (auto simp: require_value_Ok_iff words_taken_def)
  qed
qed

lemma consumed_by_iff:
  assumes "args ! i = arg"
  shows "consumed_by args i k arg = Ok n \<longleftrightarrow>
     (\<exists>fs more. pflag_word (guard_long k) (guard_short k) arg = Some (fs, more)
        \<and> words_taken args i more n)"
proof (cases "strip_prefix arg ''--''")
  case None
  with assms show ?thesis
    by (simp add: consumed_by_def pflag_word_def short_options_def short_options_loop_iff)
next
  case (Some long)
  obtain name inline where "split_inline long = (name, inline)" by fastforce
  with Some show ?thesis
    by (cases "long_option name k")
      (auto simp: consumed_by_def pflag_word_def guard_long_def words_taken_def
        require_value_Ok_iff split: arity.splits)
qed

lemma container_options_from_iff:
  "container_options_from args k i = Ok () \<longleftrightarrow>
     pflag_parse (guard_long k) (guard_short k) (drop i args) \<noteq> None"
proof (induction args k i rule: container_options_from.induct)
  case (1 args k i)
  show ?case
  proof (cases "i < length args")
    case False
    then show ?thesis by (subst container_options_from.simps) (simp add: get_def)
  next
    case True
    define arg where "arg = args ! i"
    from True have got: "get args i = Some arg" by (simp add: get_def arg_def)
    from True have drop: "drop i args = arg # drop (Suc i) args"
      by (simp add: Cons_nth_drop_Suc arg_def)
    show ?thesis
    proof (cases "is_operand arg")
      case op: True
      then show ?thesis by (subst container_options_from.simps) (simp add: got drop)
    next
      case opt: False
      let ?w = "pflag_word (guard_long k) (guard_short k) arg"
      note iff = consumed_by_iff [of args i arg k, OF arg_def [symmetric]]
      show ?thesis
      proof (cases "consumed_by args i k arg")
        case (Err e)
        then have none: "\<not> (\<exists>n fs more. ?w = Some (fs, more) \<and> words_taken args i more n)"
          using iff by force
        have "pflag_parse (guard_long k) (guard_short k) (drop i args) = None"
        proof (cases ?w)
          case None
          with opt show ?thesis by (simp add: drop)
        next
          case (Some p)
          obtain fs more where p: "p = (fs, more)" by (cases p)
          with Some none have "\<not> words_taken args i more (if more then 2 else 1)" by blast
          then have "more" and "length args \<le> Suc i"
            by (auto simp: words_taken_def split: if_splits)
          with Some p opt show ?thesis by (simp add: drop)
        qed
        with Err opt show ?thesis
          by (subst container_options_from.simps) (simp add: got)
      next
        case (Ok n)
        then obtain fs more where w: "?w = Some (fs, more)" and t: "words_taken args i more n"
          using iff by blast
        have IH: "container_options_from args k (i + n) = Ok () \<longleftrightarrow>
            pflag_parse (guard_long k) (guard_short k) (drop (i + n) args) \<noteq> None"
          using "1.IH" [OF got opt Ok] .
        have "container_options_from args k i = container_options_from args k (i + n)"
          using Ok opt by (subst container_options_from.simps) (simp add: got)
        moreover have "(pflag_parse (guard_long k) (guard_short k) (drop i args) \<noteq> None) =
            (pflag_parse (guard_long k) (guard_short k) (drop (i + n) args) \<noteq> None)"
          using w t opt
          by (cases more) (auto simp: drop words_taken_def numeral_2_eq_2 Cons_nth_drop_Suc [symmetric])
        ultimately show ?thesis using IH by simp
      qed
    qed
  qed
qed

text \<open>
  Monotonicity of the specification in the tables: if Docker gives every option the guard
  knows the same arity, it parses every argument list the guard's tables parse, and reads
  the same flags from it.
\<close>

definition tables_agree ::
    "command_kind \<Rightarrow> (string \<Rightarrow> arity option) \<Rightarrow> (char \<Rightarrow> arity option) \<Rightarrow> bool" where
  "tables_agree k dl ds \<longleftrightarrow>
     (\<forall>name a. guard_long k name = Some a \<longrightarrow> dl name = Some a)
     \<and> (\<forall>c a. guard_short k c = Some a \<longrightarrow> ds c = Some a)"

lemma pflag_cluster_agree:
  assumes "tables_agree k dl ds" and "pflag_cluster (guard_short k) s = Some r"
  shows "pflag_cluster ds s = Some r"
  using assms(2)
proof (induction s arbitrary: r)
  case (Cons name rest)
  then obtain a where a: "guard_short k name = Some a" by (auto split: option.splits)
  with assms(1) have "ds name = Some a" by (simp add: tables_agree_def)
  with a Cons show ?case by (cases a) (auto split: if_splits)
qed simp

lemma pflag_word_agree:
  assumes "tables_agree k dl ds"
    and "pflag_word (guard_long k) (guard_short k) arg = Some r"
  shows "pflag_word dl ds arg = Some r"
proof (cases "strip_prefix arg ''--''")
  case None
  with assms show ?thesis by (simp add: pflag_word_def pflag_cluster_agree)
next
  case (Some long)
  with assms show ?thesis
    by (cases "split_inline long") (auto simp: pflag_word_def tables_agree_def)
qed

lemma pflag_parse_ConsE:
  assumes "pflag_parse dl ds (arg # args) = Some fs" and "\<not> is_operand arg"
  obtains (alone) gs hs where "pflag_word dl ds arg = Some (gs, False)"
      "pflag_parse dl ds args = Some hs" "fs = gs @ hs"
    | (with_value) gs v rest hs where "pflag_word dl ds arg = Some (gs, True)"
      "args = v # rest" "pflag_parse dl ds rest = Some hs" "fs = gs @ hs"
  using assms by (auto split: option.splits bool.splits list.splits)

lemma pflag_parse_induct [consumes 1, case_names nil operand alone with_value]:
  assumes "pflag_parse dl ds args = Some fs"
    and nil: "P [] []"
    and operand: "\<And>arg args. is_operand arg \<Longrightarrow> P (arg # args) []"
    and alone: "\<And>arg args gs hs. \<lbrakk>\<not> is_operand arg; pflag_word dl ds arg = Some (gs, False); P args hs\<rbrakk>
      \<Longrightarrow> P (arg # args) (gs @ hs)"
    and with_value: "\<And>arg v args gs hs. \<lbrakk>\<not> is_operand arg; pflag_word dl ds arg = Some (gs, True); P args hs\<rbrakk>
      \<Longrightarrow> P (arg # v # args) (gs @ hs)"
  shows "P args fs"
  using assms(1)
proof (induction args arbitrary: fs rule: length_induct)
  case (1 args)
  show ?case
  proof (cases args)
    case Nil
    with 1 nil show ?thesis by simp
  next
    case (Cons arg rest)
    show ?thesis
    proof (cases "is_operand arg")
      case True
      with 1 Cons operand show ?thesis by simp
    next
      case False
      note parse = "1.prems" [unfolded Cons]
      from parse False show ?thesis
      proof (cases rule: pflag_parse_ConsE)
        case (alone gs hs)
        with "1.IH" Cons have "P rest hs" by simp
        with assms(4) [OF False] alone Cons show ?thesis by blast
      next
        case (with_value gs v rest' hs)
        with "1.IH" Cons have "P rest' hs" by simp
        with assms(5) [OF False] with_value Cons show ?thesis by blast
      qed
    qed
  qed
qed

lemma pflag_parse_agree:
  assumes "pflag_parse (guard_long k) (guard_short k) args = Some fs" and "tables_agree k dl ds"
  shows "pflag_parse dl ds args = Some fs"
  using assms(1)
  by (induction rule: pflag_parse_induct) (auto dest!: pflag_word_agree [OF assms(2)])

text \<open>
  The interface between the option tables and the parser: a table that does not list a
  forbidden flag can never make the parser act on it.
\<close>

locale option_tables =
  fixes long_ar :: "string \<Rightarrow> arity option"
    and short_ar :: "char \<Rightarrow> arity option"
    and forbidden :: "flag \<Rightarrow> bool"
  assumes forbidden_long: "forbidden (LongFlag name) \<Longrightarrow> long_ar name = None"
    and forbidden_short: "forbidden (ShortFlag c) \<Longrightarrow> short_ar c = None"
begin

lemma listed_long: "long_ar name = Some a \<Longrightarrow> \<not> forbidden (LongFlag name)"
  using forbidden_long by force

lemma listed_short: "short_ar c = Some a \<Longrightarrow> \<not> forbidden (ShortFlag c)"
  using forbidden_short by force

lemma cluster_avoids:
  "pflag_cluster short_ar s = Some (fs, more) \<Longrightarrow> f \<in> set fs \<Longrightarrow> \<not> forbidden f"
  by (induction s arbitrary: fs more)
    (auto split: option.splits arity.splits if_splits simp: listed_short)

lemma word_avoids:
  "pflag_word long_ar short_ar arg = Some (fs, more) \<Longrightarrow> f \<in> set fs \<Longrightarrow> \<not> forbidden f"
  by (auto simp: pflag_word_def listed_long split: option.splits prod.splits
      dest: cluster_avoids)

lemma parse_avoids:
  "pflag_parse long_ar short_ar args = Some fs \<Longrightarrow> f \<in> set fs \<Longrightarrow> \<not> forbidden f"
  by (induction rule: pflag_parse_induct) (auto dest: word_avoids)

end

lemma long_option_target:
  "name \<in> {''context'', ''host'', ''config''} \<Longrightarrow> guard_long k name = None"
  by (elim insertE emptyE; simp add: guard_long_def long_option_def common_boolean_def
      common_value_def create_boolean_def create_value_def)

lemma short_option_target:
  "guard_short k (CHR ''H'') = None" "guard_short Exec (CHR ''c'') = None"
  by (simp_all add: guard_short_def short_option_def)

lemma target_long_unlisted: "target_flag k (LongFlag name) \<Longrightarrow> guard_long k name = None"
  by (rule long_option_target) (simp add: target_flag_def)

lemma target_short_unlisted: "target_flag k (ShortFlag c) \<Longrightarrow> guard_short k c = None"
  unfolding target_flag_def using short_option_target by auto

interpretation guard_tables: option_tables "guard_long k" "guard_short k" "target_flag k" for k
  by unfold_locales (fact target_long_unlisted, fact target_short_unlisted)

lemma pflag_parse_append_operand:
  assumes "pflag_parse dl ds opts = Some fs" and "is_operand op"
  shows "pflag_parse dl ds (opts @ op # payload) = Some fs"
  using assms(1) by (induction rule: pflag_parse_induct) (auto simp: assms(2))

lemma option_name_override:
  assumes "a = name \<or> starts_with a (name @ ''='')" and "CHR ''='' \<notin> set name"
  shows "option_name a = name"
proof -
  from assms(1) consider "a = name" | r where "a = name @ CHR ''='' # r"
    by (auto simp: starts_with_iff_append)
  then show ?thesis
    by cases (auto simp: option_name_def assms(2) split_once_append
        split_once_None_iff [THEN iffD2])
qed

text \<open>The container command and its option words, as \<open>validate\<close> dispatches on them.\<close>

definition container_kind :: "string \<Rightarrow> command_kind option" where
  "container_kind command =
     (if command = ''exec'' then Some Exec
      else if command \<in> set [''run'', ''create''] then Some Create
      else None)"

fun container_command :: "string list \<Rightarrow> (command_kind \<times> string list) option" where
  "container_command (command # rest) =
     (if command = ''container'' then
        (case rest of
           [] \<Rightarrow> None
         | subcommand # options \<Rightarrow> map_option (\<lambda>k. (k, options)) (container_kind subcommand))
      else map_option (\<lambda>k. (k, rest)) (container_kind command))"
| "container_command [] = None"

lemma validate_container_command:
  assumes "validate args = Ok ()" and "container_command args = Some (k, options)"
  shows "validate_container_options options k = Ok ()"
  using assms
  by (cases args)
    (auto simp: validate_command_def container_kind_def split: if_splits list.splits)

lemma validate_container_options_iff:
  "validate_container_options args k = Ok () \<longleftrightarrow>
     pflag_parse (guard_long k) (guard_short k) args \<noteq> None"
  by (simp add: validate_container_options_def container_options_from_iff)

section \<open>Properties\<close>

text \<open>
  C10. Target protection. Whenever the guard accepts an exec, run or create command line
  (with or without the leading \<open>container\<close>), Docker's own parser reads the options
  successfully and none of the flags it acts on selects another context, host or
  configuration: no \<open>--context\<close>, \<open>--host\<close>, \<open>--config\<close>, no \<open>-H\<close>, and for
  exec no \<open>-c\<close>. Docker's tables are arbitrary beyond giving the options the guard
  knows the arities documented for them.
\<close>

theorem accepted_options_keep_target:
  assumes "validate args = Ok ()"
    and "container_command args = Some (k, options)"
    and "tables_agree k dl ds"
  shows "\<exists>fs. pflag_parse dl ds options = Some fs \<and> (\<forall>f\<in>set fs. \<not> target_flag k f)"
proof -
  obtain fs where "pflag_parse (guard_long k) (guard_short k) options = Some fs"
    using validate_container_command [OF assms(1,2)] by (auto simp: validate_container_options_iff)
  with pflag_parse_agree [OF this assms(3)] show ?thesis
    using guard_tables.parse_avoids by blast
qed

text \<open>
  Docker's tables for exec: the guard's options plus the global target options, which
  take a value.
\<close>

definition sample_docker_long :: "string \<Rightarrow> arity option" where
  "sample_docker_long name =
     (if name \<in> {''context'', ''host'', ''config''} then Some Value else guard_long Exec name)"

definition sample_docker_short :: "char \<Rightarrow> arity option" where
  "sample_docker_short c = (if c \<in> {CHR ''c'', CHR ''H''} then Some Value else guard_short Exec c)"

definition sample_exec_args :: "string list" where
  "sample_exec_args =
     [''exec'', ''-itu'', ''1000'', ''--workdir=/tmp'', ''app'', ''sh'', ''-c'', ''echo hello'']"

lemma sample_exec_options:
  "validate_container_options (tl sample_exec_args) Exec = Ok ()"
  by (simp add: validate_container_options_iff sample_exec_args_def is_operand_def pflag_word_def
      strip_prefix_def split_inline_def guard_short_def guard_long_def short_option_def
      long_option_def common_boolean_def common_value_def)

lemma sample_tables_agree: "tables_agree Exec sample_docker_long sample_docker_short"
  by (auto simp: tables_agree_def sample_docker_long_def sample_docker_short_def guard_long_def
      guard_short_def long_option_def short_option_def common_boolean_def common_value_def)

theorem accepted_options_keep_target_witness:
  "validate sample_exec_args = Ok ()
   \<and> (\<exists>fs. pflag_parse sample_docker_long sample_docker_short (tl sample_exec_args) = Some fs
        \<and> (\<forall>f\<in>set fs. \<not> target_flag Exec f))"
proof -
  have ok: "validate sample_exec_args = Ok ()"
    using sample_exec_options
    by (simp add: sample_exec_args_def validate_command_def check_long_overrides_def option_name_def)
  have "container_command sample_exec_args = Some (Exec, tl sample_exec_args)"
    by (simp add: sample_exec_args_def container_kind_def)
  from ok accepted_options_keep_target [OF ok this sample_tables_agree] show ?thesis by simp
qed

text \<open>
  No endpoint or configuration override anywhere: in an accepted command line no
  argument, payload included, is \<open>--context\<close>, \<open>--host\<close> or \<open>--config\<close>, alone or
  with an inline value.
\<close>

theorem accepted_has_no_long_override:
  assumes "validate args = Ok ()" and "a \<in> set args"
    and "name \<in> {''--context'', ''--host'', ''--config''}"
  shows "a \<noteq> name \<and> \<not> starts_with a (name @ ''='')"
proof -
  from assms(1,2) have "option_name a \<notin> {''--context'', ''--host'', ''--config''}"
    by (cases args) (auto simp: check_long_overrides_def)
  moreover have "CHR ''='' \<notin> set name" using assms(3) by auto
  ultimately show ?thesis using option_name_override assms(3) by blast
qed

theorem accepted_has_no_long_override_witness:
  "validate [''ps'', ''--all''] = Ok ()
   \<and> ''--all'' \<noteq> ''--host'' \<and> \<not> starts_with ''--all'' (''--host'' @ ''='')"
proof -
  have ok: "validate [''ps'', ''--all''] = Ok ()"
    by (simp add: validate_command_def check_long_overrides_def option_name_def
        check_other_option_def strip_prefix_def)
  show ?thesis
    using ok accepted_has_no_long_override [OF ok, of "''--all''" "''--host''"] by simp
qed

text \<open>
  C9. The index loop of \<open>validate_container_options\<close> decides exactly the flag grammar:
  it accepts an argument list if and only if non-interspersed flag parsing with the
  guard's tables succeeds on it.
\<close>

theorem container_guard_decides_grammar:
  "validate_container_options args k = Ok () \<longleftrightarrow>
     (\<exists>fs. pflag_parse (guard_long k) (guard_short k) args = Some fs)"
  by (simp add: validate_container_options_iff)

text \<open>
  Command payloads are retained: once the options before the container or image are
  accepted, whatever follows that operand (such as \<open>sh -c\<close> or \<open>curl -H\<close>) leaves the
  verdict unchanged.
\<close>

theorem payload_is_not_inspected:
  assumes "validate_container_options opts k = Ok ()" and "is_operand op"
  shows "validate_container_options (opts @ op # payload) k = Ok ()"
  using assms pflag_parse_append_operand by (auto simp: validate_container_options_iff)

theorem payload_is_not_inspected_witness:
  "validate_container_options [''app'', ''curl'', ''-H'', ''X-Fixture: yes''] Exec = Ok ()"
  using payload_is_not_inspected [of "[]" Exec "''app''" "[''curl'', ''-H'', ''X-Fixture: yes'']"]
  by (simp add: validate_container_options_iff is_operand_def)

text \<open>
  Every other Docker command and plugin is guarded conservatively: an accepted option
  list selects no builder and has no single-dash word containing \<open>c\<close> or \<open>H\<close>.
\<close>

theorem other_commands_keep_target:
  assumes "validate (command # options) = Ok ()"
    and "command \<notin> {''container'', ''exec'', ''run'', ''create''}"
    and "a \<in> set options"
  shows "a \<noteq> ''--builder'' \<and> \<not> starts_with a ''--builder=''
     \<and> (starts_with a ''-'' \<and> \<not> starts_with a ''--'' \<longrightarrow>
          CHR ''c'' \<notin> set a \<and> CHR ''H'' \<notin> set a)"
proof -
  from assms have "check_other_option a = Ok ()"
    by (auto simp: validate_command_def)
  then show ?thesis
    by (cases a)
      (auto simp: check_other_option_def strip_prefix_def contains_any_iff split: if_splits)
qed

theorem other_commands_keep_target_witness:
  "validate [''ps'', ''-a''] = Ok () \<and> CHR ''H'' \<notin> set ''-a''"
proof -
  have ok: "validate [''ps'', ''-a''] = Ok ()"
    by (simp add: validate_command_def check_long_overrides_def option_name_def
        check_other_option_def strip_prefix_def contains_any_def)
  show ?thesis using ok other_commands_keep_target [OF ok, of "''-a''"] by simp
qed

end
