(* ===== verification/Cli.thy ===== *)
theory Cli
  imports Runtime_Trace Docker_Args
begin

text \<open>
  The command line (src/src/main.rs) after argument parsing: what each action runs, prints
  or executes. Printing is the list of lines; serde_json's printers, the storage scan, the
  gateway and the microVM connection are arguments.
\<close>

section \<open>Actions\<close>

datatype microvm_action =
    Microvm_Capabilities
  | Microvm_Create string string string nat nat
  | Microvm_Start string
  | Microvm_Stop string bool
  | Microvm_Inspect "string option"

datatype cli_action =
    Do_Create nat nat nat "string list" bool bool bool
  | Do_Start bool
  | Do_Update bool
  | Do_Inspect bool
  | Do_Stop bool bool
  | Do_Restart bool
  | Do_Doctor bool
  | Do_Storage bool
  | Do_Config_Show
  | Do_Docker "string list"
  | Do_Shell "string list"
  | Do_Daemon string
  | Do_Cert
  | Do_Microvm microvm_action bool

text \<open>
  What an action ends with: the lines on the two output streams, with or without a failure
  after them, a program executed in place of this one, or the gateway.
\<close>

datatype effect =
    Prints "string list" "string list"
  | Prints_then_fails "string list" string
  | Executes command
  | Serves

record externals =
  pretty_inspection :: "inspection \<Rightarrow> string option"
  pretty_update :: "bool \<Rightarrow> string option"
  pretty_value :: "json_type \<Rightarrow> string option"
  pretty_config :: "config \<Rightarrow> string option"
  compact_value :: "json_type \<Rightarrow> string"
  storage_scan :: "string \<Rightarrow> json_type io"
  gateway_run :: "string \<Rightarrow> string \<Rightarrow> unit io"
  gateway_init :: "string \<Rightarrow> string io"
  microvm_client :: "string \<Rightarrow> string \<times> (json_type, string) result"

definition printed :: "string option \<Rightarrow> effect io" where
  "printed text = bind (lift (ok_or text ''serialize'')) (\<lambda>line. return (Prints [line] []))"

definition print_report :: "externals \<Rightarrow> inspection \<Rightarrow> bool \<Rightarrow> effect io" where
  "print_report ext i json =
     (if json then printed (pretty_inspection ext i)
      else return (Prints [''luhmen: '' @ vm_state i,
        ''Docker Engine: '' @ (if engine_ready i then ''ready'' else ''unavailable''),
        ''Context: '' @ (if context_is_ready i then ''luhmen'' else ''not created''),
        ''Endpoint: '' @ context_endpoint i]
        (map (\<lambda>e. ''luhmen: '' @ e) (inspection_errors i))))"

fun object_members :: "json_type \<Rightarrow> (string \<times> json_type) list option" where
  "object_members (Object ms) = Some ms"
| "object_members _ = None"

definition member_lines :: "externals \<Rightarrow> (string \<times> json_type) list \<Rightarrow> string list" where
  "member_lines ext ms = map (\<lambda>(k, v). k @ '': '' @ compact_value ext v) ms"

definition print_members :: "externals \<Rightarrow> json_type \<Rightarrow> bool \<Rightarrow> string \<Rightarrow> effect io" where
  "print_members ext v json message =
     (if json then printed (pretty_value ext v)
      else bind (lift (ok_or (object_members v) message)) (\<lambda>ms. return (Prints (member_lines ext ms) [])))"

definition print_microvm_value :: "externals \<Rightarrow> json_type \<Rightarrow> bool \<Rightarrow> effect io" where
  "print_microvm_value ext v json =
     (case (json, object_members v) of
        (False, Some ms) \<Rightarrow> return (Prints (member_lines ext ms) [])
      | _ \<Rightarrow> printed (pretty_value ext v))"

section \<open>MicroVM requests\<close>

definition create_line :: "config \<Rightarrow> string \<Rightarrow> string \<Rightarrow> string \<Rightarrow> nat \<Rightarrow> nat \<Rightarrow> (string, string) result" where
  "create_line host name kernel_path rootfs vcpus memory_mib =
     and_then (ensure (1 \<le> vcpus \<and> vcpus \<le> 16) ''microVM vcpus must be between 1 and 16'') (\<lambda>_.
     and_then (ensure (128 \<le> memory_mib \<and> memory_mib \<le> 16384) ''microVM memory must be between 128 and 16384 MiB'') (\<lambda>_.
     and_then (ensure (vcpus \<le> cpus host) ''microVM vcpus cannot exceed the parent VM CPU count'') (\<lambda>_.
     and_then (ensure (memory_mib + 512 \<le> memory_gib host * 1024)
       ''microVM memory must leave at least 512 MiB for the parent VM'') (\<lambda>_.
     Ok (''create id='' @ name @ '' kernel='' @ kernel_path @ '' rootfs='' @ rootfs @ '' vcpus='' @ decimal vcpus
       @ '' memory_mib='' @ decimal memory_mib)))))"

fun microvm_line :: "runtime \<Rightarrow> microvm_action \<Rightarrow> string io" where
  "microvm_line rt Microvm_Capabilities = return ''capabilities''"
| "microvm_line rt (Microvm_Create name kernel_path rootfs vcpus memory_mib) =
     after (lift (validate_id name))
     (after (lift (validate_guest_path kernel_path))
     (after (lift (validate_guest_path rootfs))
     (bind (saved_config rt) (\<lambda>host. lift (create_line host name kernel_path rootfs vcpus memory_mib)))))"
| "microvm_line rt (Microvm_Start name) = after (lift (validate_id name)) (return (''start id='' @ name))"
| "microvm_line rt (Microvm_Stop name force) =
     after (lift (validate_id name)) (return (''stop id='' @ name @ '' force='' @ (if force then ''1'' else ''0'')))"
| "microvm_line rt (Microvm_Inspect found) =
     (case found of
        None \<Rightarrow> return ''inspect''
      | Some name \<Rightarrow> after (lift (validate_id name)) (return (''inspect id='' @ name)))"

section \<open>Execution\<close>

fun parse_mounts :: "string list \<Rightarrow> mount list io" where
  "parse_mounts [] = return []"
| "parse_mounts (v # vs) = bind (parse_mount v) (\<lambda>m. bind (parse_mounts vs) (\<lambda>ms. return (m # ms)))"

fun fail_after :: "effect \<Rightarrow> string \<Rightarrow> effect" where
  "fail_after (Prints out err) message = Prints_then_fails out message"
| "fail_after e message = e"

definition doctor_ready :: "json_type \<Rightarrow> bool" where
  "doctor_ready v \<longleftrightarrow>
     index_member v ''supported_host'' = Json_Value.Boolean True \<and> index_member v ''lima_ready'' = Json_Value.Boolean True
     \<and> as_str (index_member v ''docker'') \<noteq> None \<and> as_str (index_member v ''compose'') \<noteq> None
     \<and> as_str (index_member v ''buildx'') \<noteq> None"

definition DIRECT_CLI :: string where
  "DIRECT_CLI = ''use `docker --context luhmen ...` directly for unsupported option syntax''"

fun guard_message :: "arg_error \<Rightarrow> string" where
  "guard_message NoCommand = ''provide a Docker workload command''"
| "guard_message NotAWorkload =
     ''provide a Docker workload command; manage Docker contexts directly with the Docker CLI''"
| "guard_message EndpointOverride =
     ''Docker endpoint or configuration overrides are not allowed in the luhmen wrapper''"
| "guard_message SubcommandAfterOptions =
     ''place the container subcommand before its options; '' @ DIRECT_CLI"
| "guard_message BuilderOverride =
     ''Docker builder overrides are not allowed in the luhmen wrapper; '' @ DIRECT_CLI"
| "guard_message AmbiguousShort = ''ambiguous Docker short target option; '' @ DIRECT_CLI"
| "guard_message (UnsupportedLong name) = ''unsupported Docker option --'' @ name @ ''; '' @ DIRECT_CLI"
| "guard_message (RequiresValue option) = ''Docker option '' @ option @ '' requires a value; '' @ DIRECT_CLI"
| "guard_message HostOverride = ''Docker host overrides are not allowed in the luhmen wrapper''"
| "guard_message ContextOverride = ''Docker context overrides are not allowed in the luhmen wrapper''"
| "guard_message (UnsupportedShort name) = ''unsupported Docker short option -'' @ [name] @ ''; '' @ DIRECT_CLI"

fun with_message :: "('a, arg_error) result \<Rightarrow> ('a, string) result" where
  "with_message (Ok a) = Ok a"
| "with_message (Err e) = Err (guard_message e)"

definition docker_action :: "runtime \<Rightarrow> string list \<Rightarrow> effect io" where
  "docker_action rt args =
     after (lift (with_message (validate args)))
     (after (ensure_owned (state_dir rt) False)
     (after (check_state_paths rt)
     (bind (context_ready rt) (\<lambda>ready.
      after (require ready ''luhmen context is missing; run `luhmen start`'')
      (return (Executes (with_args (docker_workload_command rt) ([''--context'', ''luhmen''] @ args))))))))"

fun run_action :: "externals \<Rightarrow> runtime \<Rightarrow> cli_action \<Rightarrow> effect io" where
  "run_action ext rt (Do_Create c m d values nested json dry_run) =
     bind (parse_mounts values) (\<lambda>ms.
     let settings = \<lparr>schema_version = 1, cpus = c, memory_gib = m, disk_gib = d, mounts = ms, nested_virtualization = nested\<rparr> in
     if dry_run then
       after (validate_config settings (state_dir rt))
       (bind (lift (render (guest_includes rt) (print_value rt) settings)) (\<lambda>text. return (Prints [text] [])))
     else bind (create rt settings) (\<lambda>i. print_report ext i json))"
| "run_action ext rt (Do_Start json) = bind (start rt) (\<lambda>i. print_report ext i json)"
| "run_action ext rt (Do_Update json) =
     bind (update rt) (\<lambda>updated.
     if json then printed (pretty_update ext updated)
     else return (Prints [if updated then ''VM provisioning updated. Run `luhmen start` to apply it.''
       else ''VM provisioning is current.''] []))"
| "run_action ext rt (Do_Inspect json) = bind (inspect rt) (\<lambda>i. print_report ext i json)"
| "run_action ext rt (Do_Stop force json) = bind (stop rt force) (\<lambda>i. print_report ext i json)"
| "run_action ext rt (Do_Restart json) = bind (restart rt) (\<lambda>i. print_report ext i json)"
| "run_action ext rt (Do_Doctor json) =
     bind (doctor rt) (\<lambda>v.
     bind (print_members ext v json ''invalid doctor report'') (\<lambda>shown.
     return (if doctor_ready v then shown
       else fail_after shown ''dependencies are not ready; see doctor report'')))"
| "run_action ext rt (Do_Storage json) =
     bind (storage_report rt (storage_scan ext)) (\<lambda>v. print_members ext v json ''invalid storage report'')"
| "run_action ext rt Do_Config_Show =
     after (ensure_owned (state_dir rt) False) (bind (saved_config rt) (\<lambda>c. printed (pretty_config ext c)))"
| "run_action ext rt (Do_Docker args) = docker_action rt args"
| "run_action ext rt (Do_Shell args) =
     after (ensure_owned (state_dir rt) False)
     (bind (shell_command rt) (\<lambda>c. return (Executes (with_args c args))))"
| "run_action ext rt (Do_Daemon path) =
     after (ensure_owned (state_dir rt) True) (after (gateway_run ext (state_dir rt) path) (return Serves))"
| "run_action ext rt Do_Cert =
     after (ensure_owned (state_dir rt) True) (bind (gateway_init ext (state_dir rt)) (\<lambda>p. return (Prints [p] [])))"
| "run_action ext rt (Do_Microvm action json) =
     after (ensure_owned (state_dir rt) False)
     (bind (microvm_line rt action) (\<lambda>request.
      bind (microvm_request rt (microvm_client ext) request) (\<lambda>v. print_microvm_value ext v json)))"

text \<open>The state path comes from the environment's variables, the rest of the runtime is given.\<close>

definition execute :: "externals \<Rightarrow> runtime \<Rightarrow> string option \<Rightarrow> string option \<Rightarrow> cli_action \<Rightarrow> effect io" where
  "execute ext rt luhmen_home home action =
     bind (state_path luhmen_home home) (\<lambda>state. run_action ext (rt\<lparr>state_dir := state\<rparr>) action)"

definition exit_code :: "bool \<Rightarrow> effect outcome \<Rightarrow> nat option" where
  "exit_code is_cancelled r =
     (case r of
        Done e \<Rightarrow> (case e of Prints_then_fails _ _ \<Rightarrow> Some (if is_cancelled then 130 else 1) | _ \<Rightarrow> Some 0)
      | Failed _ \<Rightarrow> Some (if is_cancelled then 130 else 1)
      | Crashed \<Rightarrow> None)"


section \<open>Words of a built request\<close>

definition plain :: "string \<Rightarrow> bool" where
  "plain s \<longleftrightarrow> list_all request_byte s"

lemma request_byte_plain:
  "request_byte c \<Longrightarrow> byte c < 128 \<and> byte c \<notin> {9, 10, 11, 12, 13, 32} \<and> c \<notin> set forbidden"
  by (auto simp: request_byte_def ascii_class_defs forbidden_def)

lemma words_from_plain: "plain u \<Longrightarrow> words_from word (u @ s) = words_from (word @ u) s"
  using request_byte_plain by (induction u arbitrary: word) (auto simp: plain_def)

lemma words_from_plain_end: "plain u \<Longrightarrow> words_from word u = (if word @ u = [] then [] else [word @ u])"
  using words_from_plain [of u word "[]"] by simp

lemma plain_not_forbidden: "plain u \<Longrightarrow> set u \<inter> set forbidden = {}"
  using request_byte_plain by (auto simp: plain_def list_all_iff)

lemma plain_decimal: "plain (decimal n)"
  using decimal_digits [of _ n] by (auto simp: plain_def list_all_iff request_byte_def ascii_class_defs)

lemma validate_id_plain: "validate_id name = Ok () \<Longrightarrow> plain name \<and> name \<noteq> [] \<and> length name \<le> 64"
  by (auto simp: validate_id_def plain_def list_all_iff id_byte_def request_byte_def)

lemma validate_guest_path_plain:
  "validate_guest_path p = Ok () \<Longrightarrow> plain p \<and> p \<noteq> [] \<and> length p \<le> 1024"
  by (auto simp: validate_guest_path_def plain_def starts_with_def)

lemma length_decimal: "n < 10 ^ k \<Longrightarrow> 0 < k \<Longrightarrow> length (decimal n) \<le> k"
proof (induction n arbitrary: k rule: decimal.induct)
  case (1 n)
  show ?case
  proof (cases "n < 10")
    case False
    with 1(2,3) obtain j where k: "k = Suc j" "0 < j" by (cases k; cases "k - 1") auto
    with 1(2) have "n div 10 < 10 ^ j" by (simp add: less_mult_imp_div_less mult.commute)
    with 1(1) [OF False this k(2)] False k show ?thesis by (simp add: decimal.simps [of n] del: decimal.simps)
  qed (use 1(3) in \<open>simp add: decimal.simps [of n]\<close>)
qed


definition field :: "string \<Rightarrow> string \<Rightarrow> string" where
  "field k v = k @ CHR ''='' # v"

lemma split_once_field: "CHR ''='' \<notin> set k \<Longrightarrow> split_once (CHR ''='') (field k v) = Some (k, v)"
  by (induction k) (auto simp: field_def)

lemma key_of_field: "CHR ''='' \<notin> set k \<Longrightarrow> key_of (field k v) = k"
  by (induction k) (auto simp: key_of_def field_def)

lemma field_neq_Nil [simp]: "field k v \<noteq> []"
  by (simp add: field_def)

lemma plain_field: "plain (field k v) \<longleftrightarrow> plain k \<and> plain v"
  by (auto simp: plain_def field_def request_byte_def)

lemma good_field:
  assumes "CHR ''='' \<notin> set k" "k \<in> set allowed" "plain k" "plain v" "v \<noteq> []"
    and "k = ''id'' \<longrightarrow> validate_id v = Ok ()" "k = ''kernel'' \<or> k = ''rootfs'' \<longrightarrow> validate_guest_path v = Ok ()"
  shows "good_token allowed (field k v) \<longleftrightarrow> length k + length v \<le> 1023"
proof -
  have "list_all request_byte (field k v)"
    using assms(3,4) plain_field [of k v] by (simp add: plain_def)
  with assms show ?thesis by (auto simp: good_token_def split_once_field) (auto simp: field_def)
qed

fun spaced :: "string list \<Rightarrow> string" where
  "spaced [] = []"
| "spaced (u # us) = CHR '' '' # u @ spaced us"

lemma words_from_spaced:
  "word \<noteq> [] \<Longrightarrow> list_all (\<lambda>u. plain u \<and> u \<noteq> []) us \<Longrightarrow> words_from word (spaced us) = word # us"
  by (induction us arbitrary: word) (auto simp: words_from_plain)

lemma split_whitespace_spaced:
  "plain u \<Longrightarrow> u \<noteq> [] \<Longrightarrow> list_all (\<lambda>u. plain u \<and> u \<noteq> []) us \<Longrightarrow> split_whitespace (u @ spaced us) = u # us"
  by (simp add: split_whitespace_def words_from_plain words_from_spaced)

lemma spaced_not_forbidden: "list_all plain us \<Longrightarrow> set (spaced us) \<inter> set forbidden = {}"
  using plain_not_forbidden by (induction us) (auto simp: forbidden_def)

text \<open>The lines that \<open>format!\<close> builds, as an action and its fields.\<close>

fun request_fields :: "microvm_action \<Rightarrow> string \<times> (string \<times> string) list" where
  "request_fields Microvm_Capabilities = (''capabilities'', [])"
| "request_fields (Microvm_Create name kernel_path rootfs vcpus memory_mib) =
     (''create'', [(''id'', name), (''kernel'', kernel_path), (''rootfs'', rootfs),
       (''vcpus'', decimal vcpus), (''memory_mib'', decimal memory_mib)])"
| "request_fields (Microvm_Start name) = (''start'', [(''id'', name)])"
| "request_fields (Microvm_Stop name force) = (''stop'', [(''id'', name), (''force'', if force then ''1'' else ''0'')])"
| "request_fields (Microvm_Inspect found) = (''inspect'', case found of None \<Rightarrow> [] | Some name \<Rightarrow> [(''id'', name)])"

definition rendered :: "string \<times> (string \<times> string) list \<Rightarrow> string" where
  "rendered r = fst r @ spaced (map (\<lambda>(k, v). field k v) (snd r))"

text \<open>What the command line has checked before it sends an action.\<close>

fun checked_action :: "microvm_action \<Rightarrow> bool" where
  "checked_action (Microvm_Create name kernel_path rootfs vcpus memory_mib) \<longleftrightarrow>
     validate_id name = Ok () \<and> validate_guest_path kernel_path = Ok () \<and> validate_guest_path rootfs = Ok ()
     \<and> vcpus \<in> {1..16} \<and> memory_mib \<in> {128..16384}"
| "checked_action (Microvm_Start name) \<longleftrightarrow> validate_id name = Ok ()"
| "checked_action (Microvm_Stop name force) \<longleftrightarrow> validate_id name = Ok ()"
| "checked_action (Microvm_Inspect (Some name)) \<longleftrightarrow> validate_id name = Ok ()"
| "checked_action _ \<longleftrightarrow> True"

lemma microvm_line_Done:
  assumes "microvm_line rt action env w = (Done line, w')"
  shows "checked_action action \<and> line = rendered (request_fields action)"
proof (cases action)
  case (Microvm_Create name kernel_path rootfs vcpus memory_mib)
  then show ?thesis using assms
    by (auto elim!: after_lift_DoneE bind_DoneE dest!: lift_DoneD simp: create_line_def rendered_def field_def)
next
  case (Microvm_Inspect found)
  then show ?thesis using assms
    by (cases found) (auto elim!: after_lift_DoneE simp: rendered_def field_def return_def)
qed (use assms in \<open>auto elim!: after_lift_DoneE simp: rendered_def field_def return_def\<close>)

text \<open>The lengths the request validator allows and the command line does not check.\<close>

fun tokens_fit :: "microvm_action \<Rightarrow> bool" where
  "tokens_fit (Microvm_Create name kernel_path rootfs vcpus memory_mib) \<longleftrightarrow>
     length kernel_path \<le> 1017 \<and> length rootfs \<le> 1017"
| "tokens_fit _ \<longleftrightarrow> True"

lemma plain_code:
  "plain []" "plain (c # s) \<longleftrightarrow> request_byte c \<and> plain s"
  by (auto simp: plain_def)

lemma validate_rendered:
  assumes "plain a" "a \<noteq> []" "list_all (\<lambda>(k, v). plain k \<and> plain v) kvs" "allowed_fields a = Some allowed"
    and "list_all (\<lambda>(k, v). CHR ''='' \<notin> set k) kvs" "distinct (map fst kvs)"
    and "required_fields a \<subseteq> set (map fst kvs)" "length (rendered (a, kvs)) \<le> 4096"
  shows "validate_request (rendered (a, kvs)) = Ok () \<longleftrightarrow> list_all (\<lambda>(k, v). good_token allowed (field k v)) kvs"
proof -
  have words: "split_whitespace (rendered (a, kvs)) = a # map (\<lambda>(k, v). field k v) kvs"
    unfolding rendered_def using assms(1-3)
    by (subst fst_conv, subst split_whitespace_spaced) (auto simp: list_all_iff plain_field)
  have clean: "set (rendered (a, kvs)) \<inter> set forbidden = {}"
    using plain_not_forbidden [OF assms(1)] spaced_not_forbidden [of "map (\<lambda>(k, v). field k v) kvs"] assms(3)
    by (simp add: rendered_def list_all_iff plain_field case_prod_unfold Int_Un_distrib2)
  obtain ts where ts: "ts = map (\<lambda>(k, v). field k v) kvs" by simp
  have keys: "map key_of ts = map fst kvs" using assms(5) by (auto simp: ts list_all_iff key_of_field)
  then have keyset: "key_of ` set ts = fst ` set kvs" by (metis list.set_map)
  have tokens: "(\<forall>t\<in>set ts. good_token allowed t) = list_all (\<lambda>(k, v). good_token allowed (field k v)) kvs"
    by (simp add: ts list_all_iff case_prod_unfold)
  show ?thesis unfolding validate_request_iff words [folded ts] using assms(4,6-8) clean
    by (simp add: keys keyset tokens)
qed


lemma plain_literals:
  "plain ''capabilities''" "plain ''create''" "plain ''start''" "plain ''stop''" "plain ''inspect''"
  "plain ''id''" "plain ''kernel''" "plain ''rootfs''" "plain ''vcpus''" "plain ''memory_mib''" "plain ''force''"
  "plain ''0''" "plain ''1''"
  by (simp_all add: plain_code request_byte_def ascii_class_defs)

lemma good_id: "validate_id name = Ok () \<Longrightarrow> ''id'' \<in> set allowed \<Longrightarrow> good_token allowed (field ''id'' name)"
  using good_field [of "''id''" allowed name] validate_id_plain [of name] by (auto simp: plain_literals)

lemma validate_action:
  assumes "checked_action action"
  shows "validate_request (rendered (request_fields action)) = Ok () \<longleftrightarrow> tokens_fit action"
proof -
  note facts = plain_literals plain_decimal allowed_fields_def required_fields_def rendered_def list_all_iff
  have small: "length (field k v) = length k + length v + 1" for k v by (simp add: field_def)
  show ?thesis
  proof (cases action)
    case (Microvm_Create name kernel_path rootfs vcpus memory_mib)
    with assms have safe: "plain name" "name \<noteq> []" "length name \<le> 64" "plain kernel_path" "kernel_path \<noteq> []" "length kernel_path \<le> 1024"
        "plain rootfs" "rootfs \<noteq> []" "length rootfs \<le> 1024"
      and ok: "validate_id name = Ok ()" "validate_guest_path kernel_path = Ok ()" "validate_guest_path rootfs = Ok ()"
      and short: "length (decimal vcpus) \<le> 2" "length (decimal memory_mib) \<le> 5"
      using validate_id_plain validate_guest_path_plain length_decimal [of vcpus 2] length_decimal [of memory_mib 5] by auto
    have goods: "list_all (\<lambda>(k, v). good_token [''id'', ''kernel'', ''rootfs'', ''vcpus'', ''memory_mib''] (field k v))
        (snd (request_fields action)) \<longleftrightarrow> tokens_fit action"
      unfolding Microvm_Create request_fields.simps tokens_fit.simps using safe ok short
      by (simp add: good_field plain_literals plain_decimal)
    show ?thesis unfolding Microvm_Create request_fields.simps
      by (subst validate_rendered, use safe ok short in \<open>simp_all add: facts small\<close>) (use goods Microvm_Create in \<open>simp add: list_all_iff\<close>)
  next
    case (Microvm_Inspect found)
    with assms show ?thesis
      by (cases found; simp only: request_fields.simps tokens_fit.simps, subst validate_rendered)
        (auto dest: validate_id_plain simp: facts small good_id)
  next
    case (Microvm_Start name)
    with assms show ?thesis
      by (simp only: request_fields.simps tokens_fit.simps, subst validate_rendered)
        (auto dest: validate_id_plain simp: facts small good_id)
  next
    case (Microvm_Stop name force)
    with assms have safe: "plain name" "name \<noteq> []" "length name \<le> 64" and ok: "validate_id name = Ok ()"
      using validate_id_plain by auto
    show ?thesis unfolding Microvm_Stop request_fields.simps tokens_fit.simps
      by (subst validate_rendered; use safe in \<open>simp add: facts small\<close>) (simp add: ok good_id good_field plain_literals)
  next
    case Microvm_Capabilities
    then show ?thesis
      by (simp only: request_fields.simps tokens_fit.simps, subst validate_rendered) (simp_all add: facts)
  qed
qed


section \<open>Properties\<close>

lemma with_message_Ok [simp]: "with_message r = Ok a \<longleftrightarrow> r = Ok a"
  by (cases r) auto

lemma docker_action_Done:
  assumes "docker_action rt args env w = (Done e, w')"
  shows "validate args = Ok () \<and> e = Executes (with_args (docker_workload_command rt) ([''--context'', ''luhmen''] @ args))
    \<and> (\<exists>w1. context_ready rt env w1 = (Done True, w'))"
  using assms unfolding docker_action_def
  by (elim after_lift_DoneE bind_DoneE after_require_DoneE) (auto simp: return_def dest!: require_DoneD)


text \<open>A host whose Docker knows the context of this runtime.\<close>

definition known_context :: json_type where
  "known_context = Object
     [(''Endpoints'', Object [(''docker'', Object [(''Host'', Str (endpoint (sample_runtime ''Running'')))])]),
      (''Metadata'', Object [(''Description'', Str CONTEXT_DESCRIPTION)])]"

definition docker_runtime :: runtime where
  "docker_runtime = (sample_runtime ''Running'')\<lparr>parse_value := \<lambda>_. Some (Array [known_context])\<rparr>"

lemma sample_docker_runs:
  "is_ok (case docker_action docker_runtime [''exec'', ''-it'', ''app'', ''sh''] sample_host_env sample_state of
     (Done _, _) \<Rightarrow> Ok () | _ \<Rightarrow> Err ())"
  by code_simp


text \<open>
  C34. A microVM request built by the command line is a request of the manager's protocol, unless
  it creates a microVM whose kernel or root filesystem path has more than 1017 bytes: the path
  check allows 1024, but the validator counts the field name into the limit of 1024.
\<close>

theorem built_requests_are_valid:
  assumes "microvm_line rt action env w = (Done line, w')"
  shows "validate_request line = Ok () \<longleftrightarrow> tokens_fit action"
  using microvm_line_Done [OF assms] validate_action by blast

theorem built_requests_are_valid_witness:
  "validate_request ''stop id=web force=1'' = Ok ()"
proof -
  have "validate_id ''web'' = Ok ()" by code_simp
  then have "microvm_line (sample_runtime ''Running'') (Microvm_Stop ''web'' True) quiet sample_state
      = (Done ''stop id=web force=1'', sample_state)"
    by (simp add: bind_def return_def)
  from built_requests_are_valid [OF this] show ?thesis by simp
qed

end
