(* ===== verification/Runtime_Files.thy ===== *)
theory Runtime_Files
  imports Runtime_Trace
begin

text \<open>
  What the lifecycle operations do to saved files. \<open>keeps\<close> says that a computation leaves a set
  of paths alone: what holds of them and survives other processes holds afterwards. A provisioning update moves the two VM templates from old to new in an order
  it can resume, and leaves a template it does not recognise; creation never changes an
  existing configuration.
\<close>

section \<open>Computations that leave paths alone\<close>

definition keeps :: "environment \<Rightarrow> string set \<Rightarrow> 'a io \<Rightarrow> bool" where
  "keeps env S c \<longleftrightarrow> (\<forall>P. watches S P \<longrightarrow> stable env P \<longrightarrow> holds env P c (\<lambda>_. P) P)"

named_theorems keep_rules \<open>computations that leave paths alone\<close>

lemma keeps_stableD: "keeps env S c \<Longrightarrow> watches S P \<Longrightarrow> stable env P \<Longrightarrow> holds env P c (\<lambda>_. P) P"
  by (simp add: keeps_def)

lemma keepsD: "keeps env S c \<Longrightarrow> leaves env S \<Longrightarrow> watches S P \<Longrightarrow> holds env P c (\<lambda>_. P) P"
  by (blast intro: keeps_stableD watches_stable)

lemma keeps_silent: "silent c \<Longrightarrow> keeps env S c"
  unfolding keeps_def by (blast intro: silentD)

lemma keeps_bind [keep_rules]: "keeps env S c \<Longrightarrow> (\<And>a. keeps env S (k a)) \<Longrightarrow> keeps env S (bind c k)"
  unfolding keeps_def by (blast intro: holds_bind)

lemma keeps_attempt [keep_rules]: "keeps env S c \<Longrightarrow> keeps env S (attempt c)"
  unfolding keeps_def by (blast intro: holds_attempt)

lemma keeps_pure [keep_rules]: "keeps env S (return a)" "keeps env S (bail e)" "keeps env S (lift r)" "keeps env S (require b e)"
  by (simp_all add: keeps_def holds_return holds_bail holds_lift holds_require)

lemma keeps_if [keep_rules]: "keeps env S c \<Longrightarrow> keeps env S d \<Longrightarrow> keeps env S (if b then c else d)"
  by simp

lemma keeps_ignoring [keep_rules]: "keeps env S c \<Longrightarrow> keeps env S (ignoring c)"
  unfolding ignoring_def by (intro keep_rules)

text \<open>A call whose effect on every path of the set is none.\<close>

lemma keeps_syscall:
  assumes "\<And>fs p. p \<in> S \<Longrightarrow> snd (f fs) p = fs p"
  shows "keeps env S (syscall f)"
  unfolding keeps_def
proof (intro allI impI)
  fix P :: "fs \<Rightarrow> bool"
  assume P: "watches S P" "stable env P"
  have "P (snd (f fs)) = P fs" for fs using P(1) assms [of _ fs] unfolding watches_def by blast
  then show "holds env P (syscall f) (\<lambda>_. P) P"
    by (intro holds_syscall P(2)) (metis snd_conv)+
qed

lemma keeps_write_all:
  assumes "tmp \<notin> S"
  shows "keeps env S (write_all tmp bytes)"
  unfolding keeps_def holds_def
proof (intro allI impI)
  fix P :: "fs \<Rightarrow> bool" and w :: world
  assume P: "watches S P" "stable env P" "P (files w)"
  let ?fs = "others env (clock w) (files w)"
  have "P ?fs" using P(2,3) by (simp add: stable_def)
  moreover have "P (update_node f tmp fs) = P fs" for f fs
    using P(1) assms by (auto simp: watches_update split: option.split node.split)
  ultimately show "case write_all tmp bytes env w of (Done a, w') \<Rightarrow> P (files w') | (_, w') \<Rightarrow> P (files w')"
    by (cases "verdict env (clock w)") (simp_all add: write_all_def Let_def del: update_node.simps)
qed

lemma keeps_calls:
  shows "p \<notin> S \<Longrightarrow> keeps env S (create_new p)" "p \<notin> S \<Longrightarrow> keeps env S (remove_file p)"
    "p \<notin> S \<Longrightarrow> q \<notin> S \<Longrightarrow> keeps env S (rename p q)" "p \<notin> S \<Longrightarrow> keeps env S (set_directory_mode p m)"
proof -
  assume p: "p \<notin> S"
  have "keeps env S (syscall (\<lambda>fs. if fs p \<noteq> None then (Ok False, fs) else (Ok True, fs(p \<mapsto> n))))" for n
    by (rule keeps_syscall) (use p in auto)
  then show "keeps env S (create_new p)" unfolding keeps_def create_new_def by (simp add: holds_def)
  show "keeps env S (remove_file p)"
    unfolding remove_file_def by (rule keeps_syscall) (use p in auto)
  show "keeps env S (set_directory_mode p m)"
    unfolding set_directory_mode_def
    by (rule keeps_syscall) (use p in \<open>auto split: option.split node.split\<close>)
  show "keeps env S (rename p q)" if "q \<notin> S"
    unfolding rename_def by (rule keeps_syscall) (use p that in \<open>auto split: option.split\<close>)
qed

lemma keeps_atomic_write:
  assumes "target \<notin> S" "temporary_of env target \<notin> S"
  shows "keeps env S (atomic_write target bytes)"
proof -
  let ?tmp = "temporary_of env target"
  have "keeps env S (sync_path p)" for p by (rule keeps_silent) (intro io_rules)
  then have "keeps env S (write_and_publish ?tmp target bytes)"
    unfolding write_and_publish_def
    by (intro keep_rules keeps_calls keeps_write_all assms) (simp_all add: assms)
  then have "keeps env S (bind (attempt (write_and_publish ?tmp target bytes)) (\<lambda>result.
      after (if is_ok result then return () else ignoring (remove_file ?tmp)) (lift result)))"
    by (intro keep_rules keeps_calls assms)
  then show ?thesis
    unfolding keeps_def by (simp add: holds_def atomic_write_def temporary_of_def Let_def cong: if_cong)
qed

lemma keeps_lock:
  assumes "in_state rt ''operation.lock'' \<notin> S"
  shows "keeps env S (lock rt)"
proof -
  let ?p = "in_state rt ''operation.lock''"
  have "keeps env S (after (syscall (\<lambda>fs.
       case follow fs ?p of
         None \<Rightarrow> (Ok (), fs(?p \<mapsto> Regular [] (private_file env)))
       | Some (Regular _ _) \<Rightarrow> (Ok (), fs)
       | Some _ \<Rightarrow> (Err ''not a file'', fs)))
     (bind (query lock_held) (\<lambda>held.
      require (\<not> held) ''another luhmen lifecycle command is active; wait for it to finish'')))"
    by (intro keep_rules keeps_syscall keeps_silent io_rules)
      (use assms in \<open>auto split: option.split node.split\<close>)
  then show ?thesis unfolding keeps_def by (simp add: holds_def lock_def)
qed

section \<open>Reading templates\<close>

text \<open>A document that can stand in a template file, and the one that does.\<close>

definition template_text :: "runtime \<Rightarrow> string \<Rightarrow> json_type option" where
  "template_text rt bytes =
     (if length bytes \<le> MAX_TEMPLATE_BYTES
      then case parse_value rt bytes of
             None \<Rightarrow> None
           | Some d \<Rightarrow> if is_object d \<and> is_array (index_member d ''provision'') then Some d else None
      else None)"

definition template_at :: "runtime \<Rightarrow> fs \<Rightarrow> string \<Rightarrow> json_type option" where
  "template_at rt fs p = (case fs p of Some (Regular bytes m) \<Rightarrow> template_text rt bytes | _ \<Rightarrow> None)"

lemma watches_template: "p \<in> S \<Longrightarrow> watches S (\<lambda>fs. template_at rt fs p = d)"
  unfolding template_at_def by (rule watches_point [where N = "\<lambda>n. (case n of Some (Regular bytes m) \<Rightarrow> template_text rt bytes | _ \<Rightarrow> None) = d"])

lemma holds_lstat: "stable env P \<Longrightarrow> holds env P (lstat p) (\<lambda>n fs. P fs \<and> fs p = n) P"
  unfolding lstat_def by (rule holds_syscall) auto

lemma holds_read_regular:
  assumes "stable env (\<lambda>fs. P fs \<and> fs p = Some (Regular bytes m))"
  shows "holds env (\<lambda>fs. P fs \<and> fs p = Some (Regular bytes m)) (read_contents p)
    (\<lambda>b fs. b = bytes \<and> P fs \<and> fs p = Some (Regular bytes m)) P"
  unfolding read_contents_def by (rule holds_syscall [OF assms]) (auto simp: follow_def)

lemma holds_read_template:
  assumes S: "leaves env S" "p \<in> S" "watches S P"
  shows "holds env P (read_vm_template rt p) (\<lambda>d fs. P fs \<and> template_at rt fs p = Some d) P"
proof -
  have stab: "stable env P" using S(1,3) by (intro watches_stable)
  have stab': "stable env (\<lambda>fs. P fs \<and> fs p = n)" for n
    by (rule watches_stable [OF _ S(1)]) (intro watches_conj S(3) watches_point S(2))
  show ?thesis
    unfolding read_vm_template_def
  proof (rule holds_bind [OF holds_lstat [OF stab]])
    fix n
    let ?rest = "\<lambda>n. bind (lift (ok_or n ''read saved VM template'')) (\<lambda>node.
     after (require (is_regular node) ''VM template must be a regular file'')
     (bind (read_contents p) (\<lambda>bytes.
      after (require (length bytes \<le> MAX_TEMPLATE_BYTES) ''VM template exceeds 1 MiB'')
      (bind (lift (ok_or (parse_value rt bytes) ''VM template is not the saved luhmen JSON format'')) (\<lambda>document.
       after (require (is_object document \<and> is_array (index_member document ''provision''))
         ''VM template is not the saved luhmen JSON format'')
       (return document))))))"
    show "holds env (\<lambda>fs. P fs \<and> fs p = n) (?rest n) (\<lambda>d fs. P fs \<and> template_at rt fs p = Some d) P"
    proof (cases "\<exists>bytes m. n = Some (Regular bytes m)")
      case True
      then obtain bytes m where n: "n = Some (Regular bytes m)" by blast
      have tail: "holds env (\<lambda>fs. b = bytes \<and> P fs \<and> fs p = Some (Regular bytes m))
         (after (require (length b \<le> MAX_TEMPLATE_BYTES) ''VM template exceeds 1 MiB'')
          (bind (lift (ok_or (parse_value rt b) ''VM template is not the saved luhmen JSON format'')) (\<lambda>document.
           after (require (is_object document \<and> is_array (index_member document ''provision''))
             ''VM template is not the saved luhmen JSON format'')
           (return document))))
         (\<lambda>d fs. P fs \<and> template_at rt fs p = Some d) P" for b
        by (cases "length b \<le> MAX_TEMPLATE_BYTES"; cases "parse_value rt b";
            cases "is_object (the (parse_value rt b)) \<and> is_array (index_member (the (parse_value rt b)) ''provision'')")
          (auto simp: template_at_def template_text_def intro!: holds_return holds_bail)
      show ?thesis
        unfolding n by (simp add: is_regular_def)
          (rule holds_bind [OF holds_read_regular [OF stab' [where n = "Some (Regular bytes m)"]] tail])
    next
      case False
      have "?rest n = bail (if n = None then ''read saved VM template'' else ''VM template must be a regular file'')"
        using False by (cases n) (auto simp: is_regular_def split: node.split)
      then show ?thesis by (simp add: holds_def bail_def)
    qed
  qed
qed

section \<open>Provisioning updates\<close>

text \<open>The paths an update reads and publishes, and those it writes on the way.\<close>

definition update_paths :: "runtime \<Rightarrow> string set" where
  "update_paths rt = {actual_path rt, baseline_path rt, in_state rt ''config.json''}"

definition staged_path :: "runtime \<Rightarrow> string \<Rightarrow> string" where
  "staged_path rt name = path_join (in_state rt ''lima/luhmen'') (''luhmen-update-'' @ name @ ''.yaml'')"

text \<open>
  Nobody else touches those paths, and no temporary, staged or lock file has the name of one
  of them.
\<close>

definition update_undisturbed :: "environment \<Rightarrow> runtime \<Rightarrow> bool" where
  "update_undisturbed env rt \<longleftrightarrow>
     leaves env (update_paths rt \<union> {temporary_of env (actual_path rt), temporary_of env (baseline_path rt)})
     \<and> actual_path rt \<noteq> baseline_path rt
     \<and> temporary_of env (actual_path rt) \<notin> update_paths rt \<and> temporary_of env (baseline_path rt) \<notin> update_paths rt
     \<and> in_state rt ''operation.lock'' \<notin> update_paths rt
     \<and> actual_path rt \<noteq> in_state rt ''config.json'' \<and> baseline_path rt \<noteq> in_state rt ''config.json''
     \<and> (\<forall>t. staged_path rt (random_name env t) \<notin> update_paths rt)"

definition pair_at :: "runtime \<Rightarrow> json_type \<Rightarrow> json_type \<Rightarrow> node option \<Rightarrow> fs \<Rightarrow> bool" where
  "pair_at rt actual baseline saved fs \<longleftrightarrow>
     template_at rt fs (actual_path rt) = Some actual \<and> template_at rt fs (baseline_path rt) = Some baseline
     \<and> fs (in_state rt ''config.json'') = saved"

lemma watches_pair: "watches (update_paths rt) (pair_at rt a b saved)"
  unfolding pair_at_def by (intro watches_conj watches_template watches_point) (simp_all add: update_paths_def)

lemma update_leaves: "update_undisturbed env rt \<Longrightarrow> leaves env (update_paths rt)"
  by (auto simp: update_undisturbed_def intro: leaves_mono)

text \<open>Writing one of the two templates.\<close>

lemma holds_publish_actual:
  assumes "update_undisturbed env rt" "template_text rt bytes = Some c"
  shows "holds env (pair_at rt a b saved) (atomic_write (actual_path rt) bytes) (\<lambda>_. pair_at rt c b saved)
    (\<lambda>fs. pair_at rt a b saved fs \<or> pair_at rt c b saved fs)"
proof (rule holds_atomic_write [where S = "update_paths rt", OF _ _ watches_pair watches_pair])
  show "leaves env (insert (temporary_of env (actual_path rt)) (update_paths rt))"
    using assms(1) by (auto simp: update_undisturbed_def intro: leaves_mono)
  show "temporary_of env (actual_path rt) \<notin> update_paths rt"
    using assms(1) by (simp add: update_undisturbed_def)
  show "pair_at rt c b saved (fs(actual_path rt \<mapsto> Regular bytes (private_file env)))" if "pair_at rt a b saved fs" for fs
    using that assms by (auto simp: pair_at_def template_at_def update_undisturbed_def)
qed

lemma holds_publish_baseline:
  assumes "update_undisturbed env rt" "template_text rt bytes = Some c"
  shows "holds env (pair_at rt a b saved) (atomic_write (baseline_path rt) bytes) (\<lambda>_. pair_at rt a c saved)
    (\<lambda>fs. pair_at rt a b saved fs \<or> pair_at rt a c saved fs)"
proof (rule holds_atomic_write [where S = "update_paths rt", OF _ _ watches_pair watches_pair])
  show "leaves env (insert (temporary_of env (baseline_path rt)) (update_paths rt))"
    using assms(1) by (auto simp: update_undisturbed_def intro: leaves_mono)
  show "temporary_of env (baseline_path rt) \<notin> update_paths rt"
    using assms(1) by (simp add: update_undisturbed_def)
  show "pair_at rt a c saved (fs(baseline_path rt \<mapsto> Regular bytes (private_file env)))" if "pair_at rt a b saved fs" for fs
    using that assms by (auto simp: pair_at_def template_at_def update_undisturbed_def)
qed

definition updating :: "runtime \<Rightarrow> json_type \<Rightarrow> json_type \<Rightarrow> json_type \<Rightarrow> node option \<Rightarrow> fs \<Rightarrow> bool" where
  "updating rt a b c saved fs \<longleftrightarrow> pair_at rt a b saved fs \<or> pair_at rt c b saved fs \<or> pair_at rt c c saved fs"

lemma watches_updating: "watches (update_paths rt) (updating rt a b c saved)"
  using watches_pair unfolding updating_def watches_def by metis

lemma holds_publish_templates:
  assumes u: "update_undisturbed env rt" and bytes: "template_text rt bytes = Some candidate"
    and staged: "staged \<notin> update_paths rt"
  shows "holds env (pair_at rt a b saved) (publish_templates rt c b a candidate bytes staged)
    (\<lambda>_. pair_at rt candidate candidate saved) (updating rt a b candidate saved)"
proof -
  note leaves = update_leaves [OF u]
  let ?P = "pair_at rt a b saved" and ?E = "updating rt a b candidate saved"
  have quiet: "holds env ?P x (\<lambda>_. ?P) ?E" if "keeps env (update_paths rt) x" for x :: "'z io"
    by (rule holds_or_err [OF keepsD [OF that leaves watches_pair]]) (simp add: updating_def)
  have silent: "keeps env (update_paths rt) x" if "silent x" for x :: "'z io"
    by (rule keeps_silent [OF that])
  have first: "holds env ?P (if a \<noteq> candidate then atomic_write (actual_path rt) bytes else return ())
      (\<lambda>_. pair_at rt candidate b saved) ?E"
  proof (cases "a = candidate")
    case False
    then show ?thesis by (auto simp: updating_def intro: holds_or_err [OF holds_publish_actual [OF u bytes]])
  qed (auto intro: holds_return)
  have second: "holds env (pair_at rt candidate b saved) (if b \<noteq> candidate then atomic_write (baseline_path rt) bytes else return ())
      (\<lambda>_. pair_at rt candidate candidate saved) ?E"
  proof (cases "b = candidate")
    case False
    then show ?thesis by (auto simp: updating_def intro: holds_or_err [OF holds_publish_baseline [OF u bytes]])
  qed (auto intro: holds_return)
  have put: "keeps env (update_paths rt) (write_all staged bytes)" by (rule keeps_write_all [OF staged])
  have step: "holds env ?P (bind x k) Q ?E"
    if "keeps env (update_paths rt) x" "\<And>a. holds env ?P (k a) Q ?E" for x :: "'z io" and k :: "'z \<Rightarrow> 'y io" and Q
    by (rule holds_bind [OF quiet [OF that(1)] that(2)])
  show ?thesis
    unfolding publish_templates_def
    by (rule step [OF put step [OF silent step [OF silent step [OF silent step [OF silent step [OF silent
          step [OF silent step [OF silent step [OF silent holds_bind [OF first second]]]]]]]]]]; intro io_rules)
qed

lemma keeps_observe: "keeps env S (observe f)"
  by (simp add: keeps_def holds_def observe_def)

lemma holds_stage_templates:
  assumes u: "update_undisturbed env rt"
    and bytes: "\<And>bytes. print_value rt candidate = Some bytes \<Longrightarrow> template_text rt bytes = Some candidate"
  shows "holds env (pair_at rt a b saved) (stage_templates rt c b a candidate)
    (\<lambda>_. pair_at rt candidate candidate saved) (updating rt a b candidate saved)"
proof (cases "print_value rt candidate")
  case None
  then show ?thesis by (simp add: stage_templates_def holds_bail updating_def)
next
  case (Some bytes)
  note leaves = update_leaves [OF u]
  let ?P = "pair_at rt a b saved" and ?E = "updating rt a b candidate saved"
  have staged: "holds env ?P (bind (create_new staged) (\<lambda>created.
     after (require created ''file exists'')
     (bind (attempt (publish_templates rt c b a candidate bytes staged)) (\<lambda>result.
     after (ignoring (remove_file staged)) (lift result))))) (\<lambda>_. pair_at rt candidate candidate saved) ?E"
    if out: "staged \<notin> update_paths rt" for staged
  proof -
    let ?R = "\<lambda>r :: (unit, string) result. if is_ok r then pair_at rt candidate candidate saved else ?E"
    have close: "holds env (?R r) (after (ignoring (remove_file staged)) (lift r)) (\<lambda>_. pair_at rt candidate candidate saved) ?E" for r
    proof (cases r)
      case (Ok x)
      have "holds env (pair_at rt candidate candidate saved) (ignoring (remove_file staged))
          (\<lambda>_. pair_at rt candidate candidate saved) (pair_at rt candidate candidate saved)"
        by (rule keepsD [OF _ leaves watches_pair]) (intro keep_rules keeps_calls out)
      then show ?thesis
        unfolding Ok by (auto simp: updating_def intro!: holds_bind [OF holds_or_err] holds_return)
    next
      case (Err e)
      have "holds env ?E (ignoring (remove_file staged)) (\<lambda>_. ?E) ?E"
        by (rule keepsD [OF _ leaves watches_updating]) (intro keep_rules keeps_calls out)
      then show ?thesis unfolding Err by (auto intro!: holds_bind holds_bail)
    qed
    have publish: "holds env ?P (attempt (publish_templates rt c b a candidate bytes staged)) ?R ?E"
      by (rule holds_attempt, rule holds_weaken [OF holds_publish_templates [OF u bytes [OF Some] out]]) simp_all
    have create: "holds env ?P (create_new staged) (\<lambda>_. ?P) ?E"
      by (rule holds_or_err [OF keepsD [OF keeps_calls(1) [OF out] leaves watches_pair]]) (simp add: updating_def)
    have guard: "holds env ?P (require created ''file exists'') (\<lambda>_. ?P) ?E" for created
      by (rule holds_require) (simp_all add: updating_def)
    show ?thesis
      by (rule holds_bind [OF create holds_bind [OF guard holds_bind [OF publish close]]])
  qed
  have name: "holds env ?P (observe random_name) (\<lambda>name fs. ?P fs \<and> staged_path rt name \<notin> update_paths rt) ?E"
    using u by (simp add: holds_def observe_def update_undisturbed_def)
  have body: "holds env (\<lambda>fs. ?P fs \<and> staged \<notin> update_paths rt) (bind (create_new staged) (\<lambda>created.
     after (require created ''file exists'')
     (bind (attempt (publish_templates rt c b a candidate bytes staged)) (\<lambda>result.
     after (ignoring (remove_file staged)) (lift result))))) (\<lambda>_. pair_at rt candidate candidate saved) ?E" for staged
  proof (cases "staged \<in> update_paths rt")
    case True
    then show ?thesis by (simp add: holds_def)
  next
    case False
    with staged show ?thesis by simp
  qed
  show ?thesis
    unfolding stage_templates_def Some Let_def staged_path_def [symmetric] ok_or_Some lift.simps bind_return
    by (rule holds_bind [OF name body])
qed

text \<open>The comparison an update makes with the saved template.\<close>

lemma check_update_Ok:
  "check_update c baseline actual current = Ok candidate \<Longrightarrow>
     candidate = update_candidate baseline current \<and> (actual = baseline \<or> actual = candidate)"
  by (auto simp: check_update_def Let_def)

lemma update_candidate_again: "update_candidate (update_candidate b current) current = update_candidate b current"
proof -
  have "put_member k v (put_member k v ms) = put_member k v ms" for k and v :: json_type and ms
    by (induction k v ms rule: put_member.induct) auto
  then show ?thesis unfolding update_candidate_def by (cases b) auto
qed

text \<open>
  What serde's codecs and the renderer are relied on for: the saved configuration decodes, the
  rendered template parses, and the printed new template reads back within the size limit.
\<close>

definition renders_to :: "runtime \<Rightarrow> string \<Rightarrow> json_type \<Rightarrow> bool" where
  "renders_to rt saved_bytes current \<longleftrightarrow>
     (\<exists>c rendered. decode_config rt saved_bytes = Some c \<and> render (guest_includes rt) (print_value rt) c = Ok rendered
        \<and> parse_value rt rendered = Some current)"

definition prints_back :: "runtime \<Rightarrow> json_type \<Rightarrow> bool" where
  "prints_back rt d \<longleftrightarrow> (\<forall>bytes. print_value rt d = Some bytes \<longrightarrow> template_text rt bytes = Some d)"

lemma holds_saved_config:
  assumes "leaves env S" "in_state rt ''config.json'' \<in> S" "watches S P"
    and "\<And>fs. P fs \<Longrightarrow> fs (in_state rt ''config.json'') = Some (Regular saved m)"
  shows "holds env P (saved_config rt) (\<lambda>c fs. P fs \<and> decode_config rt saved = Some c) P"
proof -
  let ?p = "in_state rt ''config.json''"
  have stab: "stable env P" by (rule watches_stable [OF assms(3,1)])
  have read: "holds env P (read_contents ?p) (\<lambda>b fs. P fs \<and> b = saved) P"
    unfolding read_contents_def by (rule holds_syscall [OF stab]) (auto simp: assms(4) follow_def)
  show ?thesis
    unfolding saved_config_def
  proof (rule holds_bind [OF read])
    fix b
    show "holds env (\<lambda>fs. P fs \<and> b = saved)
        (bind (lift (ok_or (decode_config rt b) ''invalid configuration'')) (\<lambda>c.
         after (lift (validate_schema c)) (return c))) (\<lambda>c fs. P fs \<and> decode_config rt saved = Some c) P"
      by (cases "decode_config rt b"; cases "validate_schema (the (decode_config rt b))")
        (auto intro: holds_return holds_bail)
  qed
qed

lemma holds_known: "(C \<Longrightarrow> holds env P c Q E) \<Longrightarrow> holds env (\<lambda>fs. P fs \<and> C) c Q E"
  by (simp add: holds_def)

lemma holds_update_locked:
  assumes u: "update_undisturbed env rt" and N: "watches (update_paths rt) N"
    and pair: "\<And>fs. N fs \<Longrightarrow> pair_at rt a b (Some (Regular saved m)) fs"
    and renders: "renders_to rt saved current" and candidate: "candidate = update_candidate b current"
    and prints: "prints_back rt candidate"
  shows "holds env N (update_locked rt)
    (\<lambda>updated fs. (a = b \<or> a = candidate) \<and> pair_at rt candidate candidate (Some (Regular saved m)) fs)
    (\<lambda>fs. N fs \<or> (a = b \<or> a = candidate) \<and> updating rt a b candidate (Some (Regular saved m)) fs)"
    (is "holds env N _ ?Q ?E")
proof -
  note leaves = update_leaves [OF u]
  obtain c rendered where c: "decode_config rt saved = Some c" "render (guest_includes rt) (print_value rt) c = Ok rendered"
      "parse_value rt rendered = Some current"
    using renders by (auto simp: renders_to_def)
  have quiet: "holds env N x (\<lambda>_. N) ?E" if "silent x" for x :: "'z io"
    by (rule holds_or_err [OF keepsD [OF keeps_silent [OF that] leaves N]]) simp
  have config: "holds env N (saved_config rt) (\<lambda>c' fs. N fs \<and> c' = c) ?E"
    by (rule holds_weaken [OF holds_saved_config [where S = "update_paths rt" and m = m, OF leaves _ N]])
      (use pair c in \<open>auto simp: pair_at_def update_paths_def\<close>)
  have baseline: "holds env N (read_vm_template rt (baseline_path rt)) (\<lambda>d fs. N fs \<and> d = b) ?E"
    by (rule holds_weaken [OF holds_read_template [OF leaves _ N]])
      (use pair in \<open>auto simp: pair_at_def update_paths_def\<close>)
  have actual: "holds env N (read_vm_template rt (actual_path rt)) (\<lambda>d fs. N fs \<and> d = a) ?E"
    by (rule holds_weaken [OF holds_read_template [OF leaves _ N]])
      (use pair in \<open>auto simp: pair_at_def update_paths_def\<close>)
  have publish: "holds env N
      (after (if a \<noteq> candidate \<or> b \<noteq> candidate then stage_templates rt c b a candidate else return ())
      (return (a \<noteq> candidate \<or> b \<noteq> candidate))) ?Q ?E" if ok: "a = b \<or> a = candidate"
  proof (cases "a \<noteq> candidate \<or> b \<noteq> candidate")
    case True
    have "holds env N (stage_templates rt c b a candidate)
        (\<lambda>_. pair_at rt candidate candidate (Some (Regular saved m))) ?E"
      by (rule holds_weaken [OF holds_stage_templates [OF u]])
        (use prints pair ok in \<open>auto simp: prints_back_def\<close>)
    moreover have "holds env (pair_at rt candidate candidate (Some (Regular saved m))) (return True) ?Q ?E"
      using ok by (intro holds_return) simp
    ultimately show ?thesis using True by (auto intro: holds_bind)
  next
    case False
    then show ?thesis using pair ok by (auto intro!: holds_return)
  qed
  have decide: "holds env N (bind (lift (check_update c b a current)) (\<lambda>candidate'.
      let updated = (a \<noteq> candidate' \<or> b \<noteq> candidate') in
      after (if updated then stage_templates rt c b a candidate' else return ()) (return updated))) ?Q ?E"
  proof (cases "check_update c b a current")
    case (Ok candidate')
    from check_update_Ok [OF this] have "candidate' = candidate" "a = b \<or> a = candidate" using candidate by auto
    with publish Ok show ?thesis by (simp add: Let_def)
  next
    case (Err e)
    then show ?thesis by (auto intro: holds_bail)
  qed
  show ?thesis
    unfolding update_locked_def
    by (rule holds_bind [OF quiet holds_bind [OF quiet holds_bind [OF config holds_known
          [OF holds_bind [OF baseline holds_known [OF holds_bind [OF actual holds_known]]]]]]])
      (use decide c in \<open>auto intro: io_rules\<close>)
qed

text \<open>The states an update passes through: both old, the VM's new, both new.\<close>

definition resumable :: "runtime \<Rightarrow> json_type \<Rightarrow> json_type \<Rightarrow> fs \<Rightarrow> bool" where
  "resumable rt old new fs \<longleftrightarrow>
     (template_at rt fs (actual_path rt), template_at rt fs (baseline_path rt))
       \<in> {(Some old, Some old), (Some new, Some old), (Some new, Some new)}"

lemma holds_update:
  assumes u: "update_undisturbed env rt" and N: "watches (update_paths rt) N"
    and rest: "holds env N (update_locked rt) Q E" "\<And>fs. N fs \<Longrightarrow> E fs"
  shows "holds env N (update rt) Q E"
proof -
  note leaves = update_leaves [OF u]
  have lock: "in_state rt ''operation.lock'' \<notin> update_paths rt" using u by (simp add: update_undisturbed_def)
  have "holds env N (ensure_owned (state_dir rt) False) (\<lambda>_. N) E" "holds env N (lock rt) (\<lambda>_. N) E"
    by (rule holds_or_err [OF keepsD [OF _ leaves N]], (rule keeps_lock [OF lock] | rule keeps_silent, intro io_rules), erule rest(2))+
  then show ?thesis unfolding update_def using rest(1) by (metis holds_bind)
qed

section \<open>Properties of updates\<close>

text \<open>
  C7. A provisioning update can be interrupted and resumed: from both templates old, the VM's
  new, or both new, an update that fails or is killed at any point, with other processes
  leaving these files alone, ends in one of the same states, and one that returns has both
  templates new. Old is the saved template, new the old one with this CLI's provisioning.
\<close>

theorem update_is_resumable:
  assumes "update_undisturbed env rt" and "files w (in_state rt ''config.json'') = Some (Regular saved m)"
    and "renders_to rt saved current" "prints_back rt (update_candidate old current)"
    and "resumable rt old (update_candidate old current) (files w)"
    and "update rt env w = (r, w')"
  shows "resumable rt old (update_candidate old current) (files w')
    \<and> ((\<exists>updated. r = Done updated) \<longrightarrow>
        template_at rt (files w') (actual_path rt) = Some (update_candidate old current)
        \<and> template_at rt (files w') (baseline_path rt) = Some (update_candidate old current))"
proof -
  let ?new = "update_candidate old current" and ?saved = "Some (Regular saved m)"
  from assms(5) obtain a b where ab: "template_at rt (files w) (actual_path rt) = Some a"
      "template_at rt (files w) (baseline_path rt) = Some b" "(a, b) \<in> {(old, old), (?new, old), (?new, ?new)}"
    by (auto simp: resumable_def)
  have new: "?new = update_candidate b current" using ab(3) by (auto simp: update_candidate_again)
  have "holds env (pair_at rt a b ?saved) (update rt)
      (\<lambda>updated fs. (a = b \<or> a = ?new) \<and> pair_at rt ?new ?new ?saved fs)
      (\<lambda>fs. pair_at rt a b ?saved fs \<or> (a = b \<or> a = ?new) \<and> updating rt a b ?new ?saved fs)"
    by (rule holds_update [OF assms(1) watches_pair
          holds_update_locked [OF assms(1) watches_pair _ assms(3) new assms(4)]]) simp_all
  from holdsD [OF this _ assms(6)] ab(1,2) assms(2) have
    "case r of Done updated \<Rightarrow> (a = b \<or> a = ?new) \<and> pair_at rt ?new ?new ?saved (files w')
     | _ \<Rightarrow> pair_at rt a b ?saved (files w') \<or> (a = b \<or> a = ?new) \<and> updating rt a b ?new ?saved (files w')"
    by (auto simp: pair_at_def split: outcome.splits)
  then show ?thesis
    using ab(3) by (auto simp: resumable_def updating_def pair_at_def split: outcome.splits)
qed

text \<open>
  C28. An update never replaces what it did not write: when the VM's template is neither the
  saved one nor the new one, the update does not succeed and both files stay as they are,
  contents and metadata.
\<close>

theorem update_preserves_user_edits:
  assumes "update_undisturbed env rt" and "files w (in_state rt ''config.json'') = Some (Regular saved m)"
    and "renders_to rt saved current" "prints_back rt (update_candidate old current)"
    and "template_at rt (files w) (baseline_path rt) = Some old" "template_at rt (files w) (actual_path rt) = Some edited"
    and "edited \<notin> {old, update_candidate old current}"
    and "update rt env w = (r, w')"
  shows "(\<forall>updated. r \<noteq> Done updated) \<and> files w' (actual_path rt) = files w (actual_path rt)
    \<and> files w' (baseline_path rt) = files w (baseline_path rt)"
proof -
  let ?new = "update_candidate old current"
  let ?N = "\<lambda>fs. fs (actual_path rt) = files w (actual_path rt) \<and> fs (baseline_path rt) = files w (baseline_path rt)
    \<and> fs (in_state rt ''config.json'') = Some (Regular saved m)"
  have N: "watches (update_paths rt) ?N"
    by (intro watches_conj watches_point) (simp_all add: update_paths_def)
  have pair: "pair_at rt edited old (Some (Regular saved m)) fs" if "?N fs" for fs
    using that assms(5,6) by (simp add: pair_at_def template_at_def)
  have "holds env ?N (update rt)
      (\<lambda>updated fs. (edited = old \<or> edited = ?new) \<and> pair_at rt ?new ?new (Some (Regular saved m)) fs)
      (\<lambda>fs. ?N fs \<or> (edited = old \<or> edited = ?new) \<and> updating rt edited old ?new (Some (Regular saved m)) fs)"
    by (rule holds_update [OF assms(1) N holds_update_locked [OF assms(1) N pair assms(3) refl assms(4)]]) simp_all
  from holdsD [OF this _ assms(8)] assms(2,7) show ?thesis by (cases r) auto
qed

section \<open>A concrete update\<close>

definition old_template :: json_type where
  "old_template = object [(''provision'', Array [])]"

definition new_template :: json_type where
  "new_template = object [(''provision'', Array [Null])]"

definition update_runtime :: runtime where
  "update_runtime = (sample_runtime ''Stopped'')\<lparr>
     parse_value := \<lambda>s. if s = ''old'' then Some old_template else if s = ''new'' then Some new_template
       else Some (object [(''provision'', Array []), (''cpus'', Null)]),
     print_value := \<lambda>_. Some ''new''\<rparr>"

definition templates_in :: "string \<Rightarrow> string \<Rightarrow> world" where
  "templates_in actual baseline = sample_state\<lparr>files := (files sample_state)
     (actual_path update_runtime \<mapsto> Regular actual (private_file quiet),
      baseline_path update_runtime \<mapsto> Regular baseline (private_file quiet))\<rparr>"

lemma update_runtime_paths:
  "actual_path update_runtime = ''/s/lima/luhmen/lima.yaml''" "baseline_path update_runtime = ''/s/vm.yaml''"
  "in_state update_runtime ''config.json'' = ''/s/config.json''" "in_state update_runtime ''operation.lock'' = ''/s/operation.lock''"
  "staged_path update_runtime ''a1b2c3'' = ''/s/lima/luhmen/luhmen-update-a1b2c3.yaml''"
  "temporary_of sample_host_env ''/s/lima/luhmen/lima.yaml'' = ''/s/lima/luhmen/lima.tmp-7''"
  "temporary_of sample_host_env ''/s/vm.yaml'' = ''/s/vm.tmp-7''"
  by code_simp+

lemma sample_undisturbed: "update_undisturbed sample_host_env update_runtime"
  unfolding update_undisturbed_def update_paths_def update_runtime_paths
  by (simp add: leaves_def sample_host_env_def quiet_def update_runtime_paths)

lemma sample_new: "update_candidate old_template new_template = new_template"
  by code_simp

lemma sample_renders: "renders_to update_runtime bytes new_template"
  by (simp add: renders_to_def update_runtime_def sample_runtime_def render_def sample_config_def)

lemma sample_prints: "prints_back update_runtime new_template"
proof -
  have "template_text update_runtime ''new'' = Some new_template" by code_simp
  then show ?thesis by (simp add: prints_back_def update_runtime_def)
qed

lemma sample_templates:
  "template_at update_runtime (files (templates_in a b)) (actual_path update_runtime) = template_text update_runtime a"
  "template_at update_runtime (files (templates_in a b)) (baseline_path update_runtime) = template_text update_runtime b"
  "files (templates_in a b) (in_state update_runtime ''config.json'') = Some (Regular ''{}'' (private_file quiet))"
  "template_text update_runtime ''old'' = Some old_template" "template_text update_runtime ''new'' = Some new_template"
  "template_text update_runtime ''edited'' = Some (object [(''provision'', Array []), (''cpus'', Null)])"
proof -
  show "template_text update_runtime ''old'' = Some old_template" "template_text update_runtime ''new'' = Some new_template"
    "template_text update_runtime ''edited'' = Some (object [(''provision'', Array []), (''cpus'', Null)])"
    by code_simp+
qed (simp_all add: templates_in_def template_at_def update_runtime_paths sample_state_def)

theorem update_is_resumable_witness:
  "resumable update_runtime old_template new_template
     (files (snd (update update_runtime sample_host_env (templates_in ''new'' ''old''))))"
  using update_is_resumable [OF sample_undisturbed sample_templates(3) sample_renders _ _ surjective_pairing,
      of old_template "''new''" "''old''"]
  by (simp add: sample_new sample_prints resumable_def sample_templates)

theorem update_preserves_user_edits_witness:
  "files (snd (update update_runtime sample_host_env (templates_in ''edited'' ''old''))) (actual_path update_runtime)
     = Some (Regular ''edited'' (private_file quiet))"
proof -
  have "object [(''provision'', Array []), (''cpus'', Null)] \<notin> {old_template, new_template}" by code_simp
  then show ?thesis
    using update_preserves_user_edits [OF sample_undisturbed sample_templates(3) sample_renders _ _ _ _ surjective_pairing,
        of old_template "''edited''" "''old''" "object [(''provision'', Array []), (''cpus'', Null)]"]
    by (simp add: sample_new sample_prints sample_templates) (simp add: templates_in_def update_runtime_paths)
qed

section \<open>Creation keeps a configuration\<close>

definition creation_undisturbed :: "environment \<Rightarrow> runtime \<Rightarrow> bool" where
  "creation_undisturbed env rt \<longleftrightarrow>
     (let p = in_state rt ''config.json''; owner = path_join (state_dir rt) ''owner'' in
      leaves env {p} \<and> (\<forall>t. verdict env t \<noteq> Fail)
      \<and> p \<notin> {state_dir rt, owner, temporary_of env owner, in_state rt ''operation.lock'', in_state rt ''vm.yaml'',
            temporary_of env (in_state rt ''vm.yaml''), in_state rt ''lima''}
      \<and> p \<notin> set (ancestors (state_dir rt)) \<and> p \<notin> set (ancestors (in_state rt ''lima'')))"

lemma make_directories_same: "p \<notin> set ps \<Longrightarrow> make_directories ps fs p = fs p"
  by (induction ps arbitrary: fs) auto

lemma keeps_create_dir_all:
  assumes "q \<notin> S" "set ps \<inter> S = {}"
  shows "keeps env S (create_dir_all ps q)"
proof -
  have "p \<notin> set (q # ps)" if "p \<in> S" for p using assms that by auto
  from make_directories_same [OF this] show ?thesis
    unfolding create_dir_all_def by (intro keeps_syscall) (simp del: make_directories.simps)
qed

lemma keeps_ensure_owned:
  assumes "p \<notin> S" "set (ancestors p) \<inter> S = {}"
    and "path_join p ''owner'' \<notin> S" "temporary_of env (path_join p ''owner'') \<notin> S"
  shows "keeps env S (ensure_owned p b)"
proof -
  have publish: "keeps env S (publish_owner p)"
    unfolding publish_owner_def by (intro keep_rules keeps_calls(4) keeps_atomic_write assms)
  have calls: "keeps env S (lstat q)" "keeps env S (path_exists q)" "keeps env S (read_contents q)"
      "keeps env S (directory_entries q)" for q
    by (rule keeps_silent, intro io_rules)+
  show ?thesis
    unfolding ensure_owned_def
    by (auto intro!: keep_rules calls publish keeps_create_dir_all assms split: result.split option.split)
qed

lemma holds_store_config:
  assumes "creation_undisturbed env rt"
  shows "holds env (\<lambda>fs. fs (in_state rt ''config.json'') = Some (Regular saved m)) (store_config rt c)
    (\<lambda>_ fs. fs (in_state rt ''config.json'') = Some (Regular saved m) \<and> decode_config rt saved = Some c)
    (\<lambda>fs. fs (in_state rt ''config.json'') = Some (Regular saved m))"
proof -
  let ?p = "in_state rt ''config.json''"
  let ?P = "\<lambda>fs :: fs. fs ?p = Some (Regular saved m)"
  note u = assms [unfolded creation_undisturbed_def Let_def]
  have leaves: "leaves env {?p}" and faultless: "\<And>t. verdict env t \<noteq> Fail" using u by simp_all
  have P: "watches {?p} ?P" by (rule watches_point) simp
  have there: "holds env ?P (path_exists ?p) (\<lambda>present fs. ?P fs \<and> present) ?P"
    unfolding path_exists_def
    by (rule holds_bind [OF holds_syscall_faultless
          [where Q = "\<lambda>r fs. ?P fs \<and> r = Ok True", OF faultless watches_stable [OF P leaves]]])
      (auto simp: resolves_def follow_def intro: holds_return)
  have compare: "holds env ?P (bind (saved_config rt) (\<lambda>stored.
       require (stored = c) ''configuration differs from the created VM; creation settings are immutable''))
     (\<lambda>_ fs. ?P fs \<and> decode_config rt saved = Some c) ?P"
    by (rule holds_bind [OF holds_saved_config [where m = m, OF leaves _ P]]) (auto intro!: holds_require)
  have branch: "holds env (\<lambda>fs. ?P fs \<and> present) (if present then k else l) Q E"
    if "holds env ?P k Q E" for present and k l :: "'z io" and Q E
    using that by (simp add: holds_def)
  show ?thesis unfolding store_config_def by (rule holds_bind [OF there branch [OF compare]])
qed


lemma sample_creation: "creation_undisturbed sample_host_env (sample_runtime ''Stopped'')"
proof -
  have "(let p = in_state (sample_runtime ''Stopped'') ''config.json''; owner = path_join ''/s'' ''owner'' in
      p \<notin> {''/s'', owner, temporary_of sample_host_env owner, in_state (sample_runtime ''Stopped'') ''operation.lock'',
            in_state (sample_runtime ''Stopped'') ''vm.yaml'',
            temporary_of sample_host_env (in_state (sample_runtime ''Stopped'') ''vm.yaml''), in_state (sample_runtime ''Stopped'') ''lima''}
      \<and> p \<notin> set (ancestors ''/s'') \<and> p \<notin> set (ancestors (in_state (sample_runtime ''Stopped'') ''lima'')))"
    by code_simp
  then show ?thesis
    by (simp add: creation_undisturbed_def Let_def leaves_def sample_host_env_def quiet_def)
      (simp add: sample_runtime_def)
qed


end
