(* ===== verification/Directories.thy ===== *)
theory Directories
  imports Hostfs
begin

text \<open>
  Whole directories: removing one, moving one over another, and the random names of temporary
  directories.
\<close>

text \<open>A path is in a tree when it is its root or lies below it.\<close>

definition in_tree :: "string \<Rightarrow> string \<Rightarrow> bool" where
  "in_tree root p \<longleftrightarrow> p = root \<or> starts_with p (root @ ''/'')"

definition remove_tree :: "string \<Rightarrow> unit io" where
  "remove_tree path = syscall (\<lambda>fs. (Ok (), \<lambda>p. if in_tree path p then None else fs p))"

definition move_tree :: "string \<Rightarrow> string \<Rightarrow> fs \<Rightarrow> fs" where
  "move_tree a b fs p =
     (if in_tree b p then fs (a @ drop (length b) p) else if in_tree a p then None else fs p)"

text \<open>A directory replaces nothing but a missing path or an empty directory.\<close>

definition rename_directory :: "string \<Rightarrow> string \<Rightarrow> unit io" where
  "rename_directory a b = (\<lambda>env w. syscall (\<lambda>fs.
     if \<not> is_directory (fs a) then (Err ''not a directory'', fs)
     else if fs b = None \<or> is_directory (fs b) \<and> listing env (clock w) b = Some [] then (Ok (), move_tree a b fs)
     else (Err ''directory not empty'', fs)) env w)"

text \<open>\<open>Path::try_exists\<close>: a missing file is an answer, any other error is not.\<close>

definition try_exists :: "string \<Rightarrow> bool io" where
  "try_exists path = syscall (\<lambda>fs. (Ok (resolves fs path), fs))"

definition random :: "string io" where
  "random = query random_name"

end
