(* ===== verification/Gateway_Identity.thy ===== *)
theory Gateway_Identity
  imports Gateway Runtime_Files Directories
begin

text \<open>
  The certificate authority of the gateway and its start (src/src/gateway.rs): creating and
  publishing the key and the certificate, loading and checking them, the certificates of the
  routes and the lock, over the model of the operating system. Key generation, signing and the
  checks of a key pair are rcgen's and rustls', so they are a parameter.
\<close>

section \<open>Certificates\<close>

record crypto =
  generate_key :: "nat \<Rightarrow> (string, string) result"
  self_sign :: "nat \<Rightarrow> string \<Rightarrow> (string, string) result"
  key_pair :: "string \<Rightarrow> string \<Rightarrow> (unit, string) result"
  sign_leaf :: "nat \<Rightarrow> string \<Rightarrow> string \<Rightarrow> string \<Rightarrow> string \<Rightarrow> (string, string) result"

section \<open>The certificate authority\<close>

definition write_private :: "string \<Rightarrow> string \<Rightarrow> unit io" where
  "write_private path bytes =
     bind (create_new path) (\<lambda>created.
     after (require created ''file exists'')
     (after (write_all path bytes) (sync_path path)))"

text \<open>The permission bits of group and others are the low six.\<close>

definition is_private :: "nat \<Rightarrow> bool" where
  "is_private m \<longleftrightarrow> m mod 64 = 0"

definition check_ca_file :: "string \<Rightarrow> string \<Rightarrow> unit io" where
  "check_ca_file ca_dir name =
     bind (lstat (path_join ca_dir name)) (\<lambda>node.
     case node of
       None \<Rightarrow> bail ''not found''
     | Some (Regular contents m) \<Rightarrow>
         after (require (length contents \<le> MAX_CONFIG_BYTES) ''CA file exceeds 64 KiB'')
         (require (name = ''key.pem'' \<longrightarrow> is_private (mode m)) ''CA private key permissions must be 0600'')
     | Some _ \<Rightarrow> bail ''CA file must be a regular file'')"

text \<open>The key and the certificate, checked to belong together.\<close>

definition load_ca :: "crypto \<Rightarrow> string \<Rightarrow> (string \<times> string) io" where
  "load_ca cr ca_dir =
     bind (lstat ca_dir) (\<lambda>node.
     case node of
       None \<Rightarrow> bail ''not found''
     | Some (Directory m) \<Rightarrow>
         after (require (is_private m) ''CA directory permissions must be 0700'')
         (after (check_ca_file ca_dir ''key.pem'')
         (after (check_ca_file ca_dir ''ca.pem'')
         (bind (read_contents (path_join ca_dir ''key.pem'')) (\<lambda>secret.
          bind (read_contents (path_join ca_dir ''ca.pem'')) (\<lambda>pem.
          after (lift (key_pair cr secret pem)) (return (secret, pem)))))))
     | Some _ \<Rightarrow> bail ''CA directory must be a real directory'')"

definition staging_path :: "string \<Rightarrow> string \<Rightarrow> string" where
  "staging_path state name = path_join state (''.gateway-ca-'' @ name)"

definition ca_path :: "string \<Rightarrow> string" where
  "ca_path state = path_join state ''gateway-ca''"

definition now_tick :: "nat io" where
  "now_tick = query (\<lambda>_ t. t)"

text \<open>Filling and publishing the staging directory; a lost race is no error.\<close>

definition publish_ca :: "crypto \<Rightarrow> string \<Rightarrow> string \<Rightarrow> unit io" where
  "publish_ca cr state staging =
     after (set_directory_mode staging 448)
     (bind now_tick (\<lambda>t.
      bind (lift (generate_key cr t)) (\<lambda>secret.
      bind (lift (self_sign cr t secret)) (\<lambda>pem.
      after (write_private (path_join staging ''key.pem'') secret)
      (after (write_private (path_join staging ''ca.pem'') pem)
      (bind (attempt (rename_directory staging (ca_path state))) (\<lambda>renamed.
       after (if is_ok renamed then return ()
         else bind (try_exists (ca_path state)) (\<lambda>present. if present then return () else lift renamed))
       (sync_path state))))))))"

text \<open>The temporary directory is removed when it is dropped, on success and on every error.\<close>

definition with_staging :: "string \<Rightarrow> (string \<Rightarrow> unit io) \<Rightarrow> unit io" where
  "with_staging state body =
     bind random (\<lambda>name.
     after (create_directory (staging_path state name))
     (bind (attempt (body (staging_path state name))) (\<lambda>result.
      after (ignoring (remove_tree (staging_path state name))) (lift result))))"

definition gateway_init :: "crypto \<Rightarrow> string \<Rightarrow> string io" where
  "gateway_init cr state =
     after (create_dir_all (ancestors state) state)
     (bind (try_exists (ca_path state)) (\<lambda>present.
      after (if present then return () else with_staging state (publish_ca cr state))
      (bind (load_ca cr (ca_path state)) (\<lambda>_.
       return (path_join (ca_path state) ''ca.pem'')))))"

section \<open>Starting the gateway\<close>

fun leaf_certificates :: "crypto \<Rightarrow> string \<times> string \<Rightarrow> string list \<Rightarrow> (string \<times> string) list io" where
  "leaf_certificates cr ca [] = return []"
| "leaf_certificates cr ca (hostname # hs) =
     bind now_tick (\<lambda>t.
     bind (lift (generate_key cr t)) (\<lambda>secret.
     bind (lift (sign_leaf cr t hostname secret (fst ca) (snd ca))) (\<lambda>certificate.
     bind (leaf_certificates cr ca hs) (\<lambda>rest. return ((hostname, certificate) # rest)))))"

definition tls_config :: "crypto \<Rightarrow> string \<Rightarrow> (string \<times> nat) list \<Rightarrow> (string \<times> string) list io" where
  "tls_config cr state rs =
     bind (gateway_init cr state) (\<lambda>_.
     bind (load_ca cr (ca_path state)) (\<lambda>ca. leaf_certificates cr ca (map fst rs)))"

definition check_gateway_lock :: "string \<Rightarrow> unit io" where
  "check_gateway_lock lock_path =
     bind (attempt (lstat lock_path)) (\<lambda>meta.
     require (case meta of Ok (Some node) \<Rightarrow> is_regular node | _ \<Rightarrow> True) ''gateway lock must be a regular file'')"

definition take_gateway_lock :: "string \<Rightarrow> unit io" where
  "take_gateway_lock lock_path = (\<lambda>env.
     (after (syscall (\<lambda>fs.
        case follow fs lock_path of
          None \<Rightarrow> (Ok (), fs(lock_path \<mapsto> Regular [] (private_file env)))
        | Some (Regular _ _) \<Rightarrow> (Ok (), fs)
        | Some _ \<Rightarrow> (Err ''not a file'', fs)))
      (bind (query lock_held) (\<lambda>held. require (\<not> held) ''another luhmen gateway is using this state directory''))) env)"

definition gateway_run ::
    "crypto \<Rightarrow> (string \<Rightarrow> gateway_config option) \<Rightarrow> (gateway_config \<Rightarrow> (string \<times> string) list \<Rightarrow> unit io) \<Rightarrow>
     string \<Rightarrow> string \<Rightarrow> unit io" where
  "gateway_run cr decode serve state config_path =
     bind (read_contents config_path) (\<lambda>contents.
     bind (lift (read_gateway decode contents)) (\<lambda>c.
     bind (tls_config cr state (routes c)) (\<lambda>tls.
     after (check_gateway_lock (path_join state ''gateway.lock''))
     (after (take_gateway_lock (path_join state ''gateway.lock'')) (serve c tls)))))"

section \<open>Paths of the authority\<close>

abbreviation key_path :: "string \<Rightarrow> string" where
  "key_path d \<equiv> path_join d ''key.pem''"

abbreviation cert_path :: "string \<Rightarrow> string" where
  "cert_path d \<equiv> path_join d ''ca.pem''"

definition ca_paths :: "string \<Rightarrow> string set" where
  "ca_paths state = {ca_path state, key_path (ca_path state), cert_path (ca_path state)}"

definition staging_paths :: "environment \<Rightarrow> string \<Rightarrow> string set" where
  "staging_paths env state = (\<Union>t. let d = staging_path state (random_name env t) in {d, key_path d, cert_path d})"

lemma path_join_shape: "\<exists>base. \<forall>name. \<not> starts_with name ''/'' \<longrightarrow> path_join state name = base @ name"
proof (cases "state = [] \<or> ends_with state ''/''")
  case True
  then show ?thesis by (intro exI [of _ state]) (simp add: path_join_def)
next
  case False
  then show ?thesis by (intro exI [of _ "state @ ''/''"]) (simp add: path_join_def)
qed

lemma ca_and_staging_shape:
  obtains base where "ca_path state = base @ ''gateway-ca''" "\<And>name. staging_path state name = base @ ''.gateway-ca-'' @ name"
proof -
  obtain base where "\<forall>name. \<not> starts_with name ''/'' \<longrightarrow> path_join state name = base @ name" using path_join_shape by blast
  then show thesis using that [of base] by (simp add: ca_path_def staging_path_def)
qed

lemma ca_children: "key_path (ca_path state) = ca_path state @ ''/key.pem''" "cert_path (ca_path state) = ca_path state @ ''/ca.pem''"
  by (rule ca_and_staging_shape [of state]; simp add: path_join_def ends_with_def)+

lemma in_tree_below: "in_tree d (d @ ''/'' @ name)" "in_tree d d"
  by (auto simp: in_tree_def starts_with_iff_append)

lemma ca_outside_staging: "in_tree (ca_path state) p \<Longrightarrow> \<not> in_tree (staging_path state name) p"
proof -
  obtain base where shape: "ca_path state = base @ ''gateway-ca''" "staging_path state name = base @ ''.gateway-ca-'' @ name"
    using ca_and_staging_shape by metis
  show "in_tree (ca_path state) p \<Longrightarrow> \<not> in_tree (staging_path state name) p"
    unfolding in_tree_def starts_with_iff_append shape by auto
qed

lemma ca_paths_in_tree: "p \<in> ca_paths state \<Longrightarrow> in_tree (ca_path state) p"
  by (auto simp: ca_paths_def ca_children in_tree_def starts_with_iff_append)

lemma staging_outside_ca: "in_tree (staging_path state name) p \<Longrightarrow> p \<notin> ca_paths state"
  using ca_outside_staging ca_paths_in_tree by blast

lemma length_ancestors: "p \<in> set (ancestors s) \<Longrightarrow> length p \<le> length s"
proof (induction s rule: ancestors.induct)
  case (1 s)
  show ?case
  proof (cases "parent s")
    case None
    with 1(2) show ?thesis by (simp add: ancestors.simps [of s])
  next
    case (Some q)
    then have "length q \<le> length s" using length_dropWhile_le [of "\<lambda>c. c \<noteq> CHR ''/''" "rev s"]
      by (auto simp: parent_def Let_def split: if_splits)
    with 1 Some show ?thesis by (auto simp: ancestors.simps [of s])
  qed
qed

lemma ca_not_ancestor: "p \<in> ca_paths state \<Longrightarrow> p \<notin> set (ancestors state)"
proof
  assume p: "p \<in> ca_paths state" "p \<in> set (ancestors state)"
  have "length state < length (ca_path state)" by (simp add: ca_path_def path_join_def)
  with p length_ancestors [OF p(2)] show False by (auto simp: ca_paths_def ca_children)
qed

lemma staging_children:
  assumes "CHR ''/'' \<notin> set name"
  shows "key_path (staging_path state name) = staging_path state name @ ''/key.pem''"
    "cert_path (staging_path state name) = staging_path state name @ ''/ca.pem''"
proof -
  obtain base where shape: "staging_path state name = base @ ''.gateway-ca-'' @ name"
    using ca_and_staging_shape by metis
  have "\<not> ends_with (base @ ''.gateway-ca-'' @ name) ''/''"
    using assms by (cases name rule: rev_cases) (auto simp: ends_with_def)
  then show "key_path (staging_path state name) = staging_path state name @ ''/key.pem''"
    "cert_path (staging_path state name) = staging_path state name @ ''/ca.pem''"
    unfolding shape by (simp_all add: path_join_def)
qed

section \<open>Contracts of the steps\<close>

lemma holds_at_tick: "(\<And>t. holds env P (syscall (f env t)) Q E) \<Longrightarrow> holds env P (\<lambda>env w. syscall (f env (clock w)) env w) Q E"
  by (simp add: holds_def)

lemma holds_query: "stable env P \<Longrightarrow> holds env P (query f) (\<lambda>a fs. P fs \<and> (\<exists>t. a = f env t)) P"
  unfolding query_def holds_def
  by (auto simp: syscall_def stable_def Let_def split: verdict.splits)

lemma stable_conj: "stable env P \<Longrightarrow> stable env Q \<Longrightarrow> stable env (\<lambda>fs. P fs \<and> Q fs)"
  by (simp add: stable_def)

lemma stable_point: "leaves env {p} \<Longrightarrow> stable env (\<lambda>fs. N (fs p))"
  by (simp add: stable_def leaves_def)

lemma holds_write_private:
  assumes env: "leaves env {p}" and stab: "stable env J" and upd: "\<And>fs n. J (fs(p := n)) = J fs"
  shows "holds env J (write_private p bytes) (\<lambda>_ fs. J fs \<and> fs p = Some (Regular bytes (private_file env))) J"
proof -
  let ?m = "private_file env"
  note upd' = upd [unfolded fun_upd_def]
  note stabs = stable_conj [OF stab stable_point [OF env]]
  have create: "holds env J (create_new p) (\<lambda>created fs. J fs \<and> (created \<longrightarrow> (\<exists>c. fs p = Some (Regular c ?m)))) J"
    unfolding create_new_def by (rule holds_env, rule holds_syscall [OF stab]) (auto simp: upd' fun_upd_def split: if_splits)
  have put: "holds env (\<lambda>fs. J fs \<and> (\<exists>c. fs p = Some (Regular c ?m))) (write_all p bytes)
      (\<lambda>_ fs. J fs \<and> fs p = Some (Regular bytes ?m)) J"
    using stabs [of "\<lambda>n. \<exists>c. n = Some (Regular c ?m)"] by (rule holds_write_to) (rule upd)
  have sync: "holds env (\<lambda>fs. J fs \<and> fs p = Some (Regular bytes ?m)) (sync_path p)
      (\<lambda>_ fs. J fs \<and> fs p = Some (Regular bytes ?m)) J"
    unfolding sync_path_def
    by (rule holds_syscall [OF stabs [of "\<lambda>n. n = Some (Regular bytes ?m)"]]) (auto split: if_splits)
  have rest: "holds env (\<lambda>fs. J fs \<and> (created \<longrightarrow> (\<exists>c. fs p = Some (Regular c ?m))))
      (after (require created ''file exists'') (after (write_all p bytes) (sync_path p)))
      (\<lambda>_ fs. J fs \<and> fs p = Some (Regular bytes ?m)) J" for created
    using holds_bind [OF put sync] by (cases created) (auto intro: holds_bail)
  show ?thesis unfolding write_private_def by (rule holds_bind [OF create rest])
qed

text \<open>The identity of the authority: its directory, its key and its certificate.\<close>

definition identity :: "string \<Rightarrow> fs \<Rightarrow> node option \<times> node option \<times> node option" where
  "identity state fs = (fs (ca_path state), fs (key_path (ca_path state)), fs (cert_path (ca_path state)))"

definition absent :: "string \<Rightarrow> fs \<Rightarrow> bool" where
  "absent state fs \<longleftrightarrow> identity state fs = (None, None, None)"

definition published :: "crypto \<Rightarrow> environment \<Rightarrow> string \<Rightarrow> fs \<Rightarrow> bool" where
  "published cr env state fs \<longleftrightarrow>
     (\<exists>t secret pem. generate_key cr t = Ok secret \<and> self_sign cr t secret = Ok pem \<and>
        identity state fs = (Some (Directory 448), Some (Regular secret (private_file env)), Some (Regular pem (private_file env))))"

lemma watches_identity: "watches (ca_paths state) (\<lambda>fs. N (identity state fs))"
  by (simp add: watches_def identity_def ca_paths_def)

text \<open>
  What other processes may do: leave the temporary directory alone, and publish an authority where
  none is, as a concurrent \<open>luhmen\<close> does, never change one. \<open>rival\<close> says which ones they publish.
  The listing of a published directory is never empty, and a random name has no slash.
\<close>

definition rivals_publish_whole :: "environment \<Rightarrow> string \<Rightarrow> (node option \<times> node option \<times> node option \<Rightarrow> bool) \<Rightarrow> bool" where
  "rivals_publish_whole env state rival \<longleftrightarrow>
     leaves env (staging_paths env state) \<and>
     (\<forall>t fs. identity state (others env t fs) = identity state fs \<or>
        absent state fs \<and> rival (identity state (others env t fs))) \<and>
     (\<forall>i. rival i \<longrightarrow> is_directory (fst i)) \<and>
     (\<forall>t. listing env t (ca_path state) \<noteq> Some []) \<and> (\<forall>t. CHR ''/'' \<notin> set (random_name env t))"

definition settled ::
    "crypto \<Rightarrow> environment \<Rightarrow> string \<Rightarrow> (node option \<times> node option \<times> node option \<Rightarrow> bool) \<Rightarrow> fs \<Rightarrow> bool" where
  "settled cr env state rival fs \<longleftrightarrow> published cr env state fs \<or> rival (identity state fs)"

text \<open>Nothing yet, or a complete authority.\<close>

definition whole ::
    "crypto \<Rightarrow> environment \<Rightarrow> string \<Rightarrow> (node option \<times> node option \<times> node option \<Rightarrow> bool) \<Rightarrow> fs \<Rightarrow> bool" where
  "whole cr env state rival fs \<longleftrightarrow> absent state fs \<or> settled cr env state rival fs"

lemma wholeI [intro, simp]: "settled cr env state rival fs \<Longrightarrow> whole cr env state rival fs"
  by (simp add: whole_def)

lemma settled_directory:
  assumes "rivals_publish_whole env state rival" "settled cr env state rival fs"
  shows "is_directory (fs (ca_path state))"
proof (cases "rival (identity state fs)")
  case True
  with assms(1) have "is_directory (fst (identity state fs))"
    unfolding rivals_publish_whole_def by blast
  then show ?thesis by (simp add: identity_def)
next
  case False
  with assms(2) show ?thesis by (auto simp: settled_def published_def is_directory_def identity_def)
qed

lemma directory_not_absent: "is_directory (fs (ca_path state)) \<Longrightarrow> \<not> absent state fs"
  by (simp add: absent_def identity_def is_directory_def split: option.splits)

lemma stable_identity:
  assumes "rivals_publish_whole env state rival" "i \<noteq> (None, None, None)"
  shows "stable env (\<lambda>fs. identity state fs = i)"
  using assms unfolding rivals_publish_whole_def stable_def absent_def by metis

lemma stable_settled:
  assumes "rivals_publish_whole env state rival"
  shows "stable env (settled cr env state rival)"
    and "stable env (whole cr env state rival)"
proof -
  have same: "identity state (others env t fs) = identity state fs \<or>
      absent state fs \<and> rival (identity state (others env t fs))" for t fs
    using assms by (simp add: rivals_publish_whole_def)
  show settled: "stable env (settled cr env state rival)"
    unfolding stable_def
  proof (intro allI impI)
    fix t fs
    assume "settled cr env state rival fs"
    moreover from this have "identity state (others env t fs) = identity state fs"
      using same settled_directory [OF assms] directory_not_absent by blast
    ultimately show "settled cr env state rival (others env t fs)" by (simp add: settled_def published_def)
  qed
  show "stable env (whole cr env state rival)"
    unfolding stable_def
  proof (intro allI impI)
    fix t fs
    assume "whole cr env state rival fs"
    with settled same [where t=t and fs=fs]
    show "whole cr env state rival (others env t fs)"
      by (auto simp: stable_def whole_def absent_def settled_def)
  qed
qed

lemma watches_settled: "watches (ca_paths state) (whole cr env state rival)"
  "watches (ca_paths state) (settled cr env state rival)"
  by (simp_all add: watches_def ca_paths_def whole_def absent_def settled_def published_def identity_def)

lemma move_to_ca:
  fixes state :: string
  assumes "CHR ''/'' \<notin> set name"
  defines "d \<equiv> staging_path state name"
  shows "identity state (move_tree d (ca_path state) fs) = (fs d, fs (key_path d), fs (cert_path d))"
  using staging_children [OF assms(1), of state]
  by (simp add: identity_def move_tree_def ca_children in_tree_below d_def in_tree_below(1) [of _ "''key.pem''", simplified]
      in_tree_below(1) [of _ "''ca.pem''", simplified])

lemma holds_publish_ca:
  fixes state :: string and t0 :: nat
  assumes rivals: "rivals_publish_whole env state rival"
  defines "d \<equiv> staging_path state (random_name env t0)"
  shows "holds env (whole cr env state rival) (publish_ca cr state d)
    (\<lambda>_. settled cr env state rival) (whole cr env state rival)"
proof -
  let ?W = "settled cr env state rival" and ?m = "private_file env"
  let ?E = "whole cr env state rival"
  have env: "leaves env (staging_paths env state)" and name: "CHR ''/'' \<notin> set (random_name env t0)"
    and full: "listing env t (ca_path state) \<noteq> Some []" for t
    using rivals by (auto simp: rivals_publish_whole_def)
  note kids = staging_children [OF name, of state, folded d_def]
  have in_staging: "{d, key_path d, cert_path d} \<subseteq> staging_paths env state"
    unfolding staging_paths_def d_def Let_def by blast
  have alone: "leaves env {d}" "leaves env {key_path d}" "leaves env {cert_path d}"
    using in_staging by (auto intro: leaves_mono [OF env])
  have fresh: "d \<notin> ca_paths state" "key_path d \<notin> ca_paths state" "cert_path d \<notin> ca_paths state"
    using staging_outside_ca [of state "random_name env t0"] in_tree_below [of d] kids unfolding d_def by auto
  have distinct: "key_path d \<noteq> d" "cert_path d \<noteq> d" "cert_path d \<noteq> key_path d" by (simp_all add: kids)
  note upd = watches_update [OF watches_settled(1)]
  let ?D = "\<lambda>fs. ?E fs \<and> fs d = Some (Directory 448)"
  let ?K = "\<lambda>secret fs. ?D fs \<and> fs (key_path d) = Some (Regular secret ?m)"
  let ?C = "\<lambda>secret pem fs. ?K secret fs \<and> fs (cert_path d) = Some (Regular pem ?m)"
  have stabE: "stable env ?E" and stabW: "stable env ?W" by (rule stable_settled [OF rivals])+
  have stabD: "stable env ?D" by (rule stable_conj [OF stabE stable_point [OF alone(1)]])
  have stabK: "stable env (?K secret)" for secret
    by (rule stable_conj [OF stabD stable_point [OF alone(2), of "\<lambda>n. n = Some (Regular secret ?m)"]])
  have stabC: "stable env (?C secret pem)" for secret pem
    by (rule stable_conj [OF stabK stable_point [OF alone(3), of "\<lambda>n. n = Some (Regular pem ?m)"]])
  have mode: "holds env ?E (set_directory_mode d 448) (\<lambda>_. ?D) ?E"
    unfolding set_directory_mode_def
    by (rule holds_syscall [OF stabE]) (auto simp: upd [OF fresh(1)] split: option.splits node.splits)
  have tick: "holds env ?D now_tick (\<lambda>_. ?D) ?E"
    unfolding now_tick_def by (rule holds_weaken [OF holds_query [OF stabD]]) auto
  have key: "holds env ?D (write_private (key_path d) secret) (\<lambda>_. ?K secret) ?E" for secret
    by (rule holds_or_err [OF holds_write_private [OF alone(2) stabD]]) (use distinct in \<open>auto simp: upd [OF fresh(2)]\<close>)
  have cert: "holds env (?K secret) (write_private (cert_path d) pem) (\<lambda>_. ?C secret pem) ?E" for secret pem
    by (rule holds_or_err [OF holds_write_private [OF alone(3) stabK]]) (use distinct in \<open>auto simp: upd [OF fresh(3)]\<close>)
  let ?R = "\<lambda>renamed :: (unit, string) result. if is_ok renamed then ?W else ?E"
  have rename: "holds env (?C secret pem) (attempt (rename_directory d (ca_path state))) ?R ?E"
    if gen: "generate_key cr t = Ok secret" "self_sign cr t secret = Ok pem" for t secret pem
  proof (rule holds_attempt)
    have pub: "?C secret pem fs \<Longrightarrow> ?W (move_tree d (ca_path state) fs)" for fs
      using gen by (auto simp: settled_def published_def d_def move_to_ca [OF name])
    show "holds env (?C secret pem) (rename_directory d (ca_path state)) (\<lambda>a. ?R (Ok a)) ?E"
      unfolding rename_directory_def
      by (rule holds_at_tick, rule holds_syscall [OF stabC]) (use pub full in \<open>auto split: if_splits\<close>)
  qed simp_all
  have looked: "holds env ?E (try_exists (ca_path state)) (\<lambda>present fs. ?E fs \<and> (present \<longrightarrow> ?W fs)) ?E"
    unfolding try_exists_def
    by (rule holds_syscall [OF stabE]) (auto simp: whole_def absent_def identity_def resolves_def follow_def)
  have finish: "holds env (?R renamed)
      (after (if is_ok renamed then return () else bind (try_exists (ca_path state)) (\<lambda>present. if present then return () else lift renamed))
        (sync_path state)) (\<lambda>_. ?W) ?E" for renamed
  proof (rule holds_bind)
    show "holds env ?W (sync_path state) (\<lambda>_. ?W) ?E"
      by (rule holds_or_err [OF silentD [OF silent_calls(2) stabW]]) simp
    have "holds env (\<lambda>fs. ?E fs \<and> (present \<longrightarrow> ?W fs)) (if present then return () else bail e) (\<lambda>_. ?W) ?E" for present e
      by (cases present) (auto intro: holds_return holds_bail)
    then have "holds env ?E (bind (try_exists (ca_path state)) (\<lambda>present. if present then return () else bail e)) (\<lambda>_. ?W) ?E" for e
      by (rule holds_bind [OF looked])
    then show "holds env (?R renamed) (if is_ok renamed then return ()
        else bind (try_exists (ca_path state)) (\<lambda>present. if present then return () else lift renamed)) (\<lambda>_. ?W) ?E"
      by (cases renamed) (simp_all add: holds_return cong: if_cong)
  qed
  have tail: "holds env ?D (after (write_private (key_path d) secret) (after (write_private (cert_path d) pem)
      (bind (attempt (rename_directory d (ca_path state))) (\<lambda>renamed.
       after (if is_ok renamed then return () else bind (try_exists (ca_path state)) (\<lambda>present. if present then return () else lift renamed))
       (sync_path state))))) (\<lambda>_. ?W) ?E"
    if "generate_key cr t = Ok secret" "self_sign cr t secret = Ok pem" for t secret pem
    by (rule holds_bind [OF key holds_bind [OF cert holds_bind [OF rename [OF that] finish]]])
  have signed: "holds env ?D (bind (lift (self_sign cr t secret)) (\<lambda>pem.
      after (write_private (key_path d) secret) (after (write_private (cert_path d) pem)
      (bind (attempt (rename_directory d (ca_path state))) (\<lambda>renamed.
       after (if is_ok renamed then return () else bind (try_exists (ca_path state)) (\<lambda>present. if present then return () else lift renamed))
       (sync_path state)))))) (\<lambda>_. ?W) ?E" if "generate_key cr t = Ok secret" for t secret
    using tail [OF that] by (cases "self_sign cr t secret") (auto intro: holds_bail)
  have keyed: "holds env ?D (bind (lift (generate_key cr t)) (\<lambda>secret. bind (lift (self_sign cr t secret)) (\<lambda>pem.
      after (write_private (key_path d) secret) (after (write_private (cert_path d) pem)
      (bind (attempt (rename_directory d (ca_path state))) (\<lambda>renamed.
       after (if is_ok renamed then return () else bind (try_exists (ca_path state)) (\<lambda>present. if present then return () else lift renamed))
       (sync_path state))))))) (\<lambda>_. ?W) ?E" for t
    using signed by (cases "generate_key cr t") (auto intro: holds_bail)
  show ?thesis unfolding publish_ca_def
    by (rule holds_bind [OF mode holds_bind [OF tick keyed]])
qed

lemma holds_remove_staging:
  assumes "stable env J" "watches (ca_paths state) J"
  shows "holds env J (remove_tree (staging_path state name)) (\<lambda>_. J) J"
proof -
  have "J (\<lambda>p. if in_tree (staging_path state name) p then None else fs p) = J fs" for fs
  proof -
    let ?fs = "\<lambda>p. if in_tree (staging_path state name) p then None else fs p"
    have "\<not> in_tree (staging_path state name) p" if "p \<in> ca_paths state" for p
      using staging_outside_ca that by blast
    then have "\<forall>p\<in>ca_paths state. ?fs p = fs p" by simp
    with assms(2) [unfolded watches_def, THEN spec, THEN spec, of ?fs fs] show "J ?fs = J fs" by (rule mp)
  qed
  then show ?thesis unfolding remove_tree_def by (intro holds_syscall [OF assms(1)]) auto
qed

lemma holds_with_staging:
  fixes state :: string
  assumes rivals: "rivals_publish_whole env state rival"
  shows "holds env (whole cr env state rival) (with_staging state (publish_ca cr state))
    (\<lambda>_. settled cr env state rival) (whole cr env state rival)"
proof -
  let ?W = "settled cr env state rival"
  let ?E = "whole cr env state rival"
  let ?R = "\<lambda>result :: (unit, string) result. if is_ok result then ?W else ?E"
  have stabE: "stable env ?E" and stabW: "stable env ?W" by (rule stable_settled [OF rivals])+
  have name: "holds env ?E random (\<lambda>name fs. ?E fs \<and> (\<exists>t. name = random_name env t)) ?E"
    unfolding random_def by (rule holds_query [OF stabE])
  have rest: "holds env (\<lambda>fs. ?E fs \<and> (\<exists>t. name = random_name env t))
      (after (create_directory (staging_path state name))
       (bind (attempt (publish_ca cr state (staging_path state name))) (\<lambda>result.
        after (ignoring (remove_tree (staging_path state name))) (lift result)))) (\<lambda>_. ?W) ?E" for name
  proof (rule holds_pure_pre)
    show "?E fs \<and> (\<exists>t. name = random_name env t) \<Longrightarrow> \<exists>t. name = random_name env t" for fs by simp
    assume "\<exists>t. name = random_name env t"
    then obtain t where t: "name = random_name env t" by blast
    let ?d = "staging_path state name"
    have mkdir: "holds env ?E (create_directory ?d) (\<lambda>_. ?E) ?E"
      unfolding create_directory_def
      by (rule holds_syscall [OF stabE])
        (auto simp: watches_update [OF watches_settled(1) staging_outside_ca [OF in_tree_below(2)]] split: if_splits)
    have body: "holds env ?E (attempt (publish_ca cr state ?d)) ?R ?E"
      using holds_publish_ca [OF rivals, of cr t] unfolding t by (intro holds_attempt) auto
    have cleanup: "holds env (?R result) (after (ignoring (remove_tree ?d)) (lift result)) (\<lambda>_. ?W) ?E" for result
    proof (rule holds_bind)
      have "holds env (?R result) (ignoring (remove_tree ?d)) (\<lambda>_. ?R result) (?R result)"
        by (rule holds_ignoring, rule holds_remove_staging; cases result)
          (simp_all add: stabE stabW watches_settled)
      then show "holds env (?R result) (ignoring (remove_tree ?d)) (\<lambda>_. ?R result) ?E"
        by (rule holds_or_err) (cases result; simp)
      show "holds env (?R result) (lift result) (\<lambda>_. ?W) ?E"
        by (cases result) (auto intro: holds_return holds_bail)
    qed
    have "holds env ?E (after (create_directory ?d) (bind (attempt (publish_ca cr state ?d)) (\<lambda>result.
        after (ignoring (remove_tree ?d)) (lift result)))) (\<lambda>_. ?W) ?E"
      by (rule holds_bind [OF mkdir holds_bind [OF body cleanup]])
    then show "holds env (\<lambda>fs. ?E fs \<and> (\<exists>t. name = random_name env t))
        (after (create_directory ?d) (bind (attempt (publish_ca cr state ?d)) (\<lambda>result.
        after (ignoring (remove_tree ?d)) (lift result)))) (\<lambda>_. ?W) ?E"
      by (rule holds_weaken) simp_all
  qed
  show ?thesis unfolding with_staging_def by (rule holds_bind [OF name rest])
qed

section \<open>The loaded authority\<close>

definition sound_ca_file :: "string \<Rightarrow> node option \<Rightarrow> bool" where
  "sound_ca_file name n \<longleftrightarrow> (\<exists>c m. n = Some (Regular c m) \<and> length c \<le> MAX_CONFIG_BYTES \<and>
     (name = ''key.pem'' \<longrightarrow> is_private (mode m)))"

text \<open>The directory and the key are the user's alone and the pair belongs together.\<close>

definition usable :: "crypto \<Rightarrow> node option \<times> node option \<times> node option \<Rightarrow> string \<times> string \<Rightarrow> bool" where
  "usable cr i pair \<longleftrightarrow> (case (i, pair) of ((d, k, c), (secret, pem)) \<Rightarrow>
     (\<exists>m. d = Some (Directory m) \<and> is_private m) \<and>
     sound_ca_file ''key.pem'' k \<and> (\<exists>m. k = Some (Regular secret m)) \<and>
     sound_ca_file ''ca.pem'' c \<and> (\<exists>m. c = Some (Regular pem m)) \<and> key_pair cr secret pem = Ok ())"

lemma stable_pure: "stable env J \<Longrightarrow> stable env (\<lambda>fs. J fs \<and> C)"
  by (simp add: stable_def)

lemma holds_check_ca_file:
  assumes J: "stable env J" "\<And>fs. J fs \<Longrightarrow> fs (path_join d name) = n"
  shows "holds env J (check_ca_file d name) (\<lambda>_ fs. J fs \<and> sound_ca_file name n) J"
  unfolding check_ca_file_def
proof (rule holds_bind [OF holds_lstat [OF J(1)]])
  fix node
  show "holds env (\<lambda>fs. J fs \<and> fs (path_join d name) = node)
      (case node of None \<Rightarrow> bail ''not found''
       | Some (Regular contents m) \<Rightarrow>
           after (require (length contents \<le> MAX_CONFIG_BYTES) ''CA file exceeds 64 KiB'')
           (require (name = ''key.pem'' \<longrightarrow> is_private (mode m)) ''CA private key permissions must be 0600'')
       | Some _ \<Rightarrow> bail ''CA file must be a regular file'')
      (\<lambda>_ fs. J fs \<and> sound_ca_file name n) J"
    using J(2)
    by (auto simp: holds_def require_def ensure_def bind_def return_def bail_def sound_ca_file_def
        split: option.splits node.splits)
qed

lemma holds_read_node:
  assumes "stable env J" "\<And>fs. J fs \<Longrightarrow> fs p = Some (Regular c m)"
  shows "holds env J (read_contents p) (\<lambda>bytes fs. J fs \<and> bytes = c) J"
  unfolding read_contents_def by (rule holds_syscall [OF assms(1)]) (auto simp: assms(2) follow_def)

lemma holds_load_ca:
  assumes "stable env (\<lambda>fs. identity state fs = i)"
  shows "holds env (\<lambda>fs. identity state fs = i) (load_ca cr (ca_path state))
    (\<lambda>pair fs. identity state fs = i \<and> usable cr i pair) (\<lambda>fs. identity state fs = i)"
proof -
  obtain d k c where i: "i = (d, k, c)" by (cases i)
  let ?J = "\<lambda>fs. identity state fs = i"
  have at: "?J fs \<Longrightarrow> fs (ca_path state) = d" "?J fs \<Longrightarrow> fs (key_path (ca_path state)) = k"
      "?J fs \<Longrightarrow> fs (cert_path (ca_path state)) = c" for fs
    by (auto simp: i identity_def)
  let ?D = "\<lambda>fs. ?J fs \<and> (\<exists>m. d = Some (Directory m) \<and> is_private m)"
  let ?K = "\<lambda>fs. ?D fs \<and> sound_ca_file ''key.pem'' k"
  let ?C = "\<lambda>fs. ?K fs \<and> sound_ca_file ''ca.pem'' c"
  let ?R = "\<lambda>secret fs. ?C fs \<and> (\<exists>m. k = Some (Regular secret m))"
  let ?S = "\<lambda>secret pem fs. ?R secret fs \<and> (\<exists>m. c = Some (Regular pem m))"
  have stabs: "stable env ?D" "stable env ?K" "stable env ?C" "stable env (?R secret)" for secret
    using assms by (simp_all add: stable_def)
  have weaken: "holds env I f Q I' \<Longrightarrow> (\<And>fs. I' fs \<Longrightarrow> ?J fs) \<Longrightarrow> holds env I f Q ?J" for I I' and f :: "'b io" and Q
    by (rule holds_or_err)
  have key: "holds env ?D (check_ca_file (ca_path state) ''key.pem'') (\<lambda>_. ?K) ?J"
    by (rule weaken [OF holds_check_ca_file [OF stabs(1)]]) (auto simp: at)
  have cert: "holds env ?K (check_ca_file (ca_path state) ''ca.pem'') (\<lambda>_. ?C) ?J"
    by (rule weaken [OF holds_check_ca_file [OF stabs(2)]]) (auto simp: at)
  have secret: "holds env ?C (read_contents (key_path (ca_path state))) ?R ?J"
  proof (rule holds_pure_pre)
    assume "sound_ca_file ''key.pem'' k"
    then obtain s m where "k = Some (Regular s m)" by (auto simp: sound_ca_file_def)
    then show ?thesis by (intro weaken [OF holds_weaken [OF holds_read_node [OF stabs(3)]]]) (auto simp: at)
  qed simp
  have pem: "holds env (?R s) (read_contents (cert_path (ca_path state))) (?S s) ?J" for s
  proof (rule holds_pure_pre)
    assume "sound_ca_file ''ca.pem'' c"
    then obtain b m where "c = Some (Regular b m)" by (auto simp: sound_ca_file_def)
    then show ?thesis by (intro weaken [OF holds_weaken [OF holds_read_node [OF stabs(4)]]]) (auto simp: at)
  qed simp
  have paired: "holds env (?S s b) (after (lift (key_pair cr s b)) (return (s, b))) (\<lambda>pair fs. ?J fs \<and> usable cr i pair) ?J" for s b
    by (cases "key_pair cr s b") (auto simp: usable_def i intro!: holds_return holds_bail)
  have checked: "holds env ?D
      (after (check_ca_file (ca_path state) ''key.pem'') (after (check_ca_file (ca_path state) ''ca.pem'')
       (bind (read_contents (key_path (ca_path state))) (\<lambda>secret. bind (read_contents (cert_path (ca_path state))) (\<lambda>pem.
        after (lift (key_pair cr secret pem)) (return (secret, pem))))))) (\<lambda>pair fs. ?J fs \<and> usable cr i pair) ?J"
    by (rule holds_bind [OF key holds_bind [OF cert holds_bind [OF secret holds_bind [OF pem paired]]]])
  show ?thesis
    unfolding load_ca_def
  proof (rule holds_bind [OF holds_lstat [OF assms]])
    fix n
    show "holds env (\<lambda>fs. ?J fs \<and> fs (ca_path state) = n)
      (case n of None \<Rightarrow> bail ''not found''
       | Some (Directory m) \<Rightarrow>
           after (require (is_private m) ''CA directory permissions must be 0700'')
           (after (check_ca_file (ca_path state) ''key.pem'') (after (check_ca_file (ca_path state) ''ca.pem'')
            (bind (read_contents (key_path (ca_path state))) (\<lambda>secret. bind (read_contents (cert_path (ca_path state))) (\<lambda>pem.
             after (lift (key_pair cr secret pem)) (return (secret, pem)))))))
       | Some _ \<Rightarrow> bail ''CA directory must be a real directory'')
      (\<lambda>pair fs. ?J fs \<and> usable cr i pair) ?J"
      by (auto simp: at split: option.split node.split intro!: holds_bail holds_bind [OF holds_require checked])
  qed
qed

section \<open>Creating the authority\<close>

lemma state_outside_ca: "insert state (set (ancestors state)) \<inter> ca_paths state = {}"
proof -
  have "length state < length (ca_path state)" by (simp add: ca_path_def path_join_def)
  then have "state \<notin> ca_paths state" by (auto simp: ca_paths_def ca_children dest: arg_cong [of _ _ length])
  then show ?thesis using ca_not_ancestor by auto
qed

lemma holds_create_state:
  assumes "stable env J" "watches (ca_paths state) J"
  shows "holds env J (create_dir_all (ancestors state) state) (\<lambda>_. J) J"
  by (rule keeps_stableD [OF keeps_create_dir_all assms(2,1)]) (use state_outside_ca [of state] in auto)

lemma holds_load_identity:
  assumes "rivals_publish_whole env state rival" "\<not> N (None, None, None)"
  shows "holds env (\<lambda>fs. N (identity state fs)) (load_ca cr (ca_path state))
    (\<lambda>pair fs. N (identity state fs) \<and> usable cr (identity state fs) pair) (\<lambda>fs. N (identity state fs))"
  unfolding holds_def
proof (intro allI impI)
  fix w :: world
  assume N: "N (identity state (files w))"
  obtain r w' where run: "load_ca cr (ca_path state) env w = (r, w')" by fastforce
  have "stable env (\<lambda>fs. identity state fs = identity state (files w))"
    using N assms(2) by (intro stable_identity [OF assms(1)]) metis
  from holdsD [OF holds_load_ca [OF this] refl run] N
  show "case load_ca cr (ca_path state) env w of
      (Done a, w') \<Rightarrow> N (identity state (files w')) \<and> usable cr (identity state (files w')) a
    | (_, w') \<Rightarrow> N (identity state (files w'))"
    by (auto simp: run split: outcome.splits)
qed

lemma holds_gateway_init:
  assumes rivals: "rivals_publish_whole env state rival"
    and J: "stable env J" "watches (ca_paths state) J"
    and new: "holds env J (bind (try_exists (ca_path state)) (\<lambda>present.
        if present then return () else with_staging state (publish_ca cr state)))
        (\<lambda>_ fs. N (identity state fs)) J"
    and N: "\<not> N (None, None, None)" "\<And>fs. N (identity state fs) \<Longrightarrow> J fs"
  shows "holds env J (gateway_init cr state)
    (\<lambda>pem fs. N (identity state fs) \<and> pem = cert_path (ca_path state) \<and> (\<exists>pair. usable cr (identity state fs) pair)) J"
proof -
  have load: "holds env (\<lambda>fs. N (identity state fs)) (bind (load_ca cr (ca_path state)) (\<lambda>_. return (cert_path (ca_path state))))
      (\<lambda>pem fs. N (identity state fs) \<and> pem = cert_path (ca_path state) \<and> (\<exists>pair. usable cr (identity state fs) pair)) J"
    by (rule holds_or_err, rule holds_bind [OF holds_load_identity [where N = N, OF rivals N(1)]]) (auto intro: holds_return dest: N(2))
  show ?thesis
    unfolding gateway_init_def
    by (rule holds_bind [OF holds_create_state [OF J] holds_bind [OF new load, unfolded bind_assoc]])
qed

lemma settled_by_identity:
  obtains N where "settled cr env state rival = (\<lambda>fs. N (identity state fs))"
    and "rivals_publish_whole env state rival \<Longrightarrow> \<not> N (None, None, None)"
proof
  let ?N = "\<lambda>i. (\<exists>t secret pem. generate_key cr t = Ok secret \<and> self_sign cr t secret = Ok pem \<and>
      i = (Some (Directory 448), Some (Regular secret (private_file env)), Some (Regular pem (private_file env)))) \<or> rival i"
  show "settled cr env state rival = (\<lambda>fs. ?N (identity state fs))" by (simp add: settled_def [abs_def] published_def)
  show "\<not> ?N (None, None, None)" if "rivals_publish_whole env state rival"
    using that unfolding rivals_publish_whole_def is_directory_def by fastforce
qed

text \<open>
  What an initialisation leaves of the authority that was there \<open>before\<close>: the same one or, where
  none was, a complete one.
\<close>

definition as_before ::
    "crypto \<Rightarrow> environment \<Rightarrow> string \<Rightarrow> (node option \<times> node option \<times> node option \<Rightarrow> bool) \<Rightarrow>
     node option \<times> node option \<times> node option \<Rightarrow> fs \<Rightarrow> bool" where
  "as_before cr env state rival before fs \<longleftrightarrow>
     identity state fs = before \<or> before = (None, None, None) \<and> settled cr env state rival fs"

lemma as_before_simps:
  "as_before cr env state rival (None, None, None) = whole cr env state rival"
  "before \<noteq> (None, None, None) \<Longrightarrow> as_before cr env state rival before = (\<lambda>fs. identity state fs = before)"
  by (auto simp: as_before_def whole_def absent_def fun_eq_iff)

lemma watches_as_before: "watches (ca_paths state) (as_before cr env state rival before)"
  by (cases "before = (None, None, None)")
    (simp_all add: as_before_simps watches_settled watches_identity [where N = "\<lambda>i. i = before"])

lemma stable_as_before:
  "rivals_publish_whole env state rival \<Longrightarrow> stable env (as_before cr env state rival before)"
  by (cases "before = (None, None, None)") (simp_all add: as_before_simps stable_settled(2) stable_identity)

lemma holds_init_as_before:
  assumes rivals: "rivals_publish_whole env state rival"
    and start: "before = (None, None, None) \<or> (\<exists>n. fst before = Some n \<and> (\<forall>target. n \<noteq> Link target))"
  shows "holds env (as_before cr env state rival before) (gateway_init cr state)
    (\<lambda>pem fs. as_before cr env state rival before fs \<and> pem = cert_path (ca_path state) \<and>
       (\<exists>pair. usable cr (identity state fs) pair)) (as_before cr env state rival before)"
proof (cases "before = (None, None, None)")
  case True
  let ?W = "settled cr env state rival" and ?E = "whole cr env state rival"
  obtain N where N: "?W = (\<lambda>fs. N (identity state fs))" "\<not> N (None, None, None)"
    using settled_by_identity rivals by metis
  have stabE: "stable env ?E" by (rule stable_settled(2) [OF rivals])
  have look: "holds env ?E (try_exists (ca_path state)) (\<lambda>present fs. ?E fs \<and> (present \<longrightarrow> ?W fs)) ?E"
    unfolding try_exists_def
    by (rule holds_syscall [OF stabE]) (auto simp: whole_def absent_def identity_def resolves_def follow_def)
  have "holds env (\<lambda>fs. ?E fs \<and> (present \<longrightarrow> ?W fs))
      (if present then return () else with_staging state (publish_ca cr state)) (\<lambda>_. ?W) ?E" for present
    using holds_with_staging [OF rivals] by (cases present) (auto intro: holds_return)
  then have "holds env ?E (gateway_init cr state) (\<lambda>pem fs. N (identity state fs) \<and> pem = cert_path (ca_path state) \<and>
      (\<exists>pair. usable cr (identity state fs) pair)) ?E"
    by (intro holds_gateway_init [where N = N, OF rivals stabE watches_settled(1) _ N(2)] holds_bind [OF look])
      (simp_all add: N(1) [symmetric] fun_cong [OF N(1)] whole_def)
  then show ?thesis unfolding True as_before_simps(1)
    by (rule holds_weaken) (auto simp: N(1) [symmetric] fun_cong [OF N(1)] whole_def)
next
  case False
  let ?J = "\<lambda>fs. identity state fs = before"
  have stab: "stable env ?J" by (rule stable_identity [OF rivals False])
  from False start have "resolves fs (ca_path state)" if "?J fs" for fs
    using that by (auto simp: identity_def resolves_def follow_def split: option.splits node.splits)
  then have look: "holds env ?J (try_exists (ca_path state)) (\<lambda>present fs. ?J fs \<and> present) ?J"
    unfolding try_exists_def by (intro holds_syscall [OF stab]) auto
  have "holds env (\<lambda>fs. ?J fs \<and> present)
      (if present then return () else with_staging state (publish_ca cr state)) (\<lambda>_. ?J) ?J" for present
    by (cases present) (auto simp: holds_def return_def)
  then show ?thesis unfolding as_before_simps(2) [OF False]
    by (intro holds_gateway_init [OF rivals stab, where N = "\<lambda>i. i = before"] holds_bind [OF look]
        watches_identity) (use False in auto)
qed

text \<open>An initialisation never damages a certificate authority and never publishes half of one.
  Whatever call fails, wherever the process is killed and whichever concurrent initialiser wins, an
  authority that is there afterwards is the one that was there before or, where none was, a complete
  one: the rival's, or this run's private directory with its private key and the certificate signed
  by it. When the command succeeds, the authority on disk has the permissions and the matching pair
  that later starts insist on.\<close>

theorem ca_identity_is_published_whole:
  assumes rivals: "rivals_publish_whole env state rival"
    and start: "absent state (files w) \<or> (\<exists>n. files w (ca_path state) = Some n \<and> (\<forall>target. n \<noteq> Link target))"
    and run: "gateway_init cr state env w = (r, w')"
  shows "(identity state (files w') = identity state (files w)
      \<or> absent state (files w) \<and> settled cr env state rival (files w'))
    \<and> (\<forall>pem. r = Done pem \<longrightarrow> pem = cert_path (ca_path state) \<and> (\<exists>pair. usable cr (identity state (files w')) pair))"
proof -
  have "fst (identity state (files w)) = files w (ca_path state)" by (simp add: identity_def)
  then have "identity state (files w) = (None, None, None) \<or>
      (\<exists>n. fst (identity state (files w)) = Some n \<and> (\<forall>target. n \<noteq> Link target))"
    using start by (simp add: absent_def)
  from holdsD [OF holds_init_as_before [OF rivals this] _ run] show ?thesis
    by (cases r) (auto simp: as_before_def absent_def)
qed

definition sample_crypto :: crypto where
  "sample_crypto = \<lparr>generate_key = \<lambda>_. Ok ''key'', self_sign = \<lambda>_ secret. Ok (''signed by '' @ secret),
     key_pair = \<lambda>secret pem. if pem = ''signed by '' @ secret then Ok () else Err ''mismatch'',
     sign_leaf = \<lambda>_ host _ _ _. Ok host\<rparr>"

lemma quiet_rivals: "rivals_publish_whole quiet state (\<lambda>_. False)"
  using quiet_leaves by (simp add: rivals_publish_whole_def) (simp add: quiet_def)

lemma sample_gateway_init:
  "is_ok (case fst (gateway_init sample_crypto ''/s'' quiet empty_world) of Done pem \<Rightarrow> Ok pem | _ \<Rightarrow> Err ())"
  "\<not> absent ''/s'' (files (snd (gateway_init sample_crypto ''/s'' quiet empty_world)))"
  by code_simp+

theorem ca_identity_is_published_whole_witness:
  "settled sample_crypto quiet ''/s'' (\<lambda>_. False) (files (snd (gateway_init sample_crypto ''/s'' quiet empty_world)))"
proof -
  have "absent ''/s'' (files empty_world)" by (simp add: absent_def identity_def empty_world_def)
  with ca_identity_is_published_whole [OF quiet_rivals _ surjective_pairing, of "''/s''" empty_world sample_crypto]
    sample_gateway_init(2) show ?thesis by (auto simp: absent_def)
qed

end
