(* ===== verification/Gateway_Cli.thy ===== *)
theory Gateway_Cli
  imports Cli Gateway_Identity
begin

text \<open>
  The gateway's commands from the command line down to the files: \<open>luhmen gateway\<close> and
  \<open>luhmen cert\<close> (src/src/main.rs) with the model of src/src/gateway.rs in the place of the
  externals that stand for it.
\<close>

definition with_gateway ::
    "crypto \<Rightarrow> (string \<Rightarrow> gateway_config option) \<Rightarrow> (gateway_config \<Rightarrow> (string \<times> string) list \<Rightarrow> unit io) \<Rightarrow>
     externals \<Rightarrow> externals" where
  "with_gateway cr decode serve ext =
     ext\<lparr>gateway_run := Gateway_Identity.gateway_run cr decode serve, gateway_init := Gateway_Identity.gateway_init cr\<rparr>"

lemma with_gateway_simps [simp]:
  "externals.gateway_run (with_gateway cr decode serve ext) = Gateway_Identity.gateway_run cr decode serve"
  "externals.gateway_init (with_gateway cr decode serve ext) = Gateway_Identity.gateway_init cr"
  by (simp_all add: with_gateway_def)

section \<open>The other files of the state directory\<close>

lemma path_in_state:
  obtains base where "\<And>name. \<not> starts_with name ''/'' \<Longrightarrow> path_join state name = base @ name"
    and "base = [] \<or> ends_with base ''/''"
proof (cases "state = [] \<or> ends_with state ''/''")
  case True
  then show thesis by (intro that [of state]) (auto simp: path_join_def)
next
  case False
  then show thesis by (intro that [of "state @ ''/''"]) (auto simp: path_join_def ends_with_def)
qed

lemma file_name_in:
  assumes "base = [] \<or> ends_with base ''/''" "CHR ''/'' \<notin> set name"
  shows "file_name (base @ name) = name"
proof -
  have "takeWhile (\<lambda>c. c \<noteq> CHR ''/'') (rev name @ rev base) = rev name @ takeWhile (\<lambda>c. c \<noteq> CHR ''/'') (rev base)"
    using assms(2) by (intro takeWhile_append2) auto
  moreover have "takeWhile (\<lambda>c. c \<noteq> CHR ''/'') (rev base) = []"
    using assms(1) by (cases base rule: rev_cases) (auto simp: ends_with_def)
  ultimately show ?thesis by (simp add: file_name_def)
qed

lemma owner_outside_ca:
  "path_join state ''owner'' \<notin> ca_paths state" "temporary_of env (path_join state ''owner'') \<notin> ca_paths state"
  "path_join state ''gateway.lock'' \<notin> ca_paths state"
proof -
  obtain base where base: "\<And>name. \<not> starts_with name ''/'' \<Longrightarrow> path_join state name = base @ name"
      "base = [] \<or> ends_with base ''/''"
    using path_in_state by metis
  have ca: "ca_path state = base @ ''gateway-ca''" by (simp add: ca_path_def base(1))
  have owner: "path_join state ''owner'' = base @ ''owner''" and lock: "path_join state ''gateway.lock'' = base @ ''gateway.lock''"
    by (simp_all add: base(1))
  have "temporary_of env (base @ ''owner'') = base @ ''owner.'' @ ''tmp-'' @ decimal (process_id env)"
    by (simp add: temporary_of_def with_extension_def Let_def file_name_in [OF base(2)])
  with owner lock show "path_join state ''owner'' \<notin> ca_paths state" "temporary_of env (path_join state ''owner'') \<notin> ca_paths state"
      "path_join state ''gateway.lock'' \<notin> ca_paths state"
    using ca_children [of state] by (simp_all add: ca_paths_def ca)
qed

lemma keeps_own_state: "keeps env (ca_paths state) (ensure_owned state b)"
  using state_outside_ca [of state] by (intro keeps_ensure_owned owner_outside_ca) auto

lemma keeps_gateway_lock: "keeps env (ca_paths state) (take_gateway_lock (path_join state ''gateway.lock''))"
proof -
  let ?p = "path_join state ''gateway.lock''"
  have "keeps env (ca_paths state) (after (syscall (\<lambda>fs.
       case follow fs ?p of
         None \<Rightarrow> (Ok (), fs(?p \<mapsto> Regular [] (private_file env)))
       | Some (Regular _ _) \<Rightarrow> (Ok (), fs)
       | Some _ \<Rightarrow> (Err ''not a file'', fs)))
     (bind (query lock_held) (\<lambda>held. require (\<not> held) ''another luhmen gateway is using this state directory'')))"
    by (intro keep_rules keeps_syscall keeps_silent io_rules)
      (use owner_outside_ca(3) in \<open>auto split: option.split node.split\<close>)
  then show ?thesis unfolding keeps_def by (simp add: holds_def take_gateway_lock_def)
qed

lemma silent_leaf_certificates: "silent (leaf_certificates cr ca hs)"
  by (induction hs) (auto simp: now_tick_def intro!: io_rules)

lemma silent_load_ca: "silent (load_ca cr d)"
  unfolding load_ca_def check_ca_file_def by (auto intro!: io_rules split: option.split node.split)

section \<open>The commands\<close>

lemma holds_kept:
  assumes "rivals_publish_whole env state rival" "keeps env (ca_paths state) c"
  shows "holds env (as_before cr env state rival before) c (\<lambda>_. as_before cr env state rival before)
    (as_before cr env state rival before)"
  by (rule keeps_stableD [OF assms(2) watches_as_before stable_as_before [OF assms(1)]])

lemma holds_gateway_run:
  fixes before :: "node option \<times> node option \<times> node option" and cr :: crypto
  assumes rivals: "rivals_publish_whole env state rival"
    and start: "before = (None, None, None) \<or> (\<exists>n. fst before = Some n \<and> (\<forall>target. n \<noteq> Link target))"
    and serve: "\<And>c tls. keeps env (ca_paths state) (serve c tls)"
  defines "J \<equiv> as_before cr env state rival before"
  shows "holds env J (Gateway_Identity.gateway_run cr decode serve state path) (\<lambda>_. J) J"
proof -
  note kept = holds_kept [OF rivals, where cr = cr and before = before, folded J_def]
  have silent: "holds env J c (\<lambda>_. J) J" if "silent c" for c :: "'z io" by (rule kept [OF keeps_silent [OF that]])
  have init: "holds env J (Gateway_Identity.gateway_init cr state) (\<lambda>_. J) J"
    by (rule holds_weaken [OF holds_init_as_before [OF rivals start, of cr, folded J_def]]) auto
  have tls: "holds env J (tls_config cr state hs) (\<lambda>_. J) J" for hs
    unfolding tls_config_def
    by (rule holds_bind [OF init silent]) (intro io_rules silent_load_ca silent_leaf_certificates)
  have "keeps env (ca_paths state) (after (check_gateway_lock (path_join state ''gateway.lock''))
      (after (take_gateway_lock (path_join state ''gateway.lock'')) (serve c tls)))" for c tls
    unfolding check_gateway_lock_def
    by (intro keep_rules keeps_gateway_lock serve keeps_silent [OF silent_calls(1)] | simp add: keeps_silent silent_calls)+
  from holds_bind [OF tls kept [OF this]]
  have "holds env J (bind (tls_config cr state (routes c)) (\<lambda>tls.
      after (check_gateway_lock (path_join state ''gateway.lock''))
      (after (take_gateway_lock (path_join state ''gateway.lock'')) (serve c tls)))) (\<lambda>_. J) J" for c .
  from holds_bind [OF silent [OF silent_calls(5)] holds_bind [OF silent [OF silent_lift] this]]
  show ?thesis unfolding Gateway_Identity.gateway_run_def .
qed

text \<open>
  C4. Whatever the gateway's commands go through - taking possession of the state directory, the
  authority, the routes' certificates, the lock and serving - the certificate authority that users
  have installed is never changed: afterwards it is the one that was there or, where none was, a
  complete one, also when a call fails, the process is killed or another command publishes first.
  And \<open>luhmen cert\<close> prints one line, the certificate, only when the authority on disk is one that
  the gateway accepts.
\<close>

theorem gateway_commands_keep_authority:
  assumes rivals: "rivals_publish_whole env (state_dir rt) rival"
    and start: "absent (state_dir rt) (files w) \<or>
      (\<exists>n. files w (ca_path (state_dir rt)) = Some n \<and> (\<forall>target. n \<noteq> Link target))"
    and serve: "\<And>c tls. keeps env (ca_paths (state_dir rt)) (serve c tls)"
    and action: "action = Do_Cert \<or> (\<exists>path. action = Do_Daemon path)"
    and run: "run_action (with_gateway cr decode serve ext) rt action env w = (r, w')"
  shows "(identity (state_dir rt) (files w') = identity (state_dir rt) (files w)
      \<or> absent (state_dir rt) (files w) \<and> settled cr env (state_dir rt) rival (files w'))
    \<and> (\<forall>shown. action = Do_Cert \<and> r = Done shown \<longrightarrow> shown = Prints [cert_path (ca_path (state_dir rt))] []
         \<and> (\<exists>pair. usable cr (identity (state_dir rt) (files w')) pair))"
proof -
  let ?s = "state_dir rt" and ?b = "identity (state_dir rt) (files w)"
  let ?J = "as_before cr env ?s rival ?b"
  let ?Q = "\<lambda>shown fs. ?J fs \<and> (action = Do_Cert \<longrightarrow> shown = Prints [cert_path (ca_path ?s)] [] \<and> (\<exists>pair. usable cr (identity ?s fs) pair))"
  have "fst ?b = files w (ca_path ?s)" by (simp add: identity_def)
  then have b: "?b = (None, None, None) \<or> (\<exists>n. fst ?b = Some n \<and> (\<forall>target. n \<noteq> Link target))"
    using start by (simp add: absent_def)
  note owned = holds_kept [OF rivals keeps_own_state, where cr = cr and before = ?b]
  have "holds env ?J (run_action (with_gateway cr decode serve ext) rt action) ?Q ?J"
  proof (cases "action = Do_Cert")
    case True
    have "holds env ?J (bind (Gateway_Identity.gateway_init cr ?s) (\<lambda>p. return (Prints [p] []))) ?Q ?J"
      by (rule holds_bind [OF holds_init_as_before [OF rivals b]]) (rule holds_return, auto)
    from holds_bind [OF owned this] show ?thesis by (simp add: True)
  next
    case False
    then obtain path where path: "action = Do_Daemon path" using action by blast
    have "holds env ?J (after (Gateway_Identity.gateway_run cr decode serve ?s path) (return Serves)) ?Q ?J"
      by (rule holds_bind [OF holds_gateway_run [OF rivals b serve]]) (rule holds_return, simp add: path)
    from holds_bind [OF owned this] show ?thesis by (simp add: path)
  qed
  from holdsD [OF this _ run] show ?thesis by (cases r) (auto simp: as_before_def absent_def)
qed

definition sample_externals :: externals where
  "sample_externals = \<lparr>pretty_inspection = \<lambda>_. None, pretty_update = \<lambda>_. None, pretty_value = \<lambda>_. None,
     pretty_config = \<lambda>_. None, compact_value = \<lambda>_. [], storage_scan = \<lambda>_. return Null,
     gateway_run = \<lambda>_ _. return (), gateway_init = \<lambda>_. return [], microvm_client = \<lambda>_. ([], Err [])\<rparr>"

abbreviation sample_cert :: "effect outcome \<times> world" where
  "sample_cert \<equiv> run_action (with_gateway sample_crypto (\<lambda>_. None) (\<lambda>_ _. return ()) sample_externals)
     (sample_runtime ''Running'') Do_Cert quiet empty_world"

lemma sample_cert_runs: "\<not> absent ''/s'' (files (snd sample_cert))"
  by code_simp

theorem gateway_commands_keep_authority_witness:
  "settled sample_crypto quiet ''/s'' (\<lambda>_. False) (files (snd sample_cert))"
proof -
  have state: "state_dir (sample_runtime ''Running'') = ''/s''" by (simp add: sample_runtime_def)
  have "absent ''/s'' (files empty_world)" by (simp add: absent_def identity_def empty_world_def)
  then have "identity ''/s'' (files (snd sample_cert)) = identity ''/s'' (files empty_world)
      \<or> absent ''/s'' (files empty_world) \<and> settled sample_crypto quiet ''/s'' (\<lambda>_. False) (files (snd sample_cert))"
    using gateway_commands_keep_authority [OF quiet_rivals _ keeps_pure(1) disjI1 surjective_pairing,
        of "sample_runtime ''Running''" empty_world Do_Cert sample_crypto "\<lambda>_. None" "\<lambda>_ _. ()" sample_externals]
    by (simp only: state simp_thms)
  with sample_cert_runs show ?thesis by (simp add: absent_def) (auto simp: identity_def empty_world_def)
qed

end
