(* ===== verification/Distribution.thy ===== *)
theory Distribution
  imports Directories Config Engine Json_Value "HOL-Library.Product_Lexorder"
begin

text \<open>
  The release tools (src/src/devtool/distribution.rs): the check for machine-specific paths, the
  collection of license texts, the inventory of Cargo archives, and the release with its
  reproducible archives, over the model of the operating system. The programs that are run and
  the variables of the environment, serde_json, the tar and gzip formats and SHA-256 are fields
  of \<open>dist_tools\<close>. Lines on standard output are dropped.
\<close>

section \<open>Programs\<close>

record package =
  package_id :: string
  package_name :: string
  package_version :: string
  manifest_path :: string
  license :: "string option"
  repository :: "string option"
  license_file :: "string option"

record cargo_metadata =
  workspace_members :: "string list"
  packages :: "package list"

record tar_entry =
  entry_path :: string
  entry_contents :: string
  entry_mode :: nat
  entry_mtime :: nat
  entry_owner :: "nat \<times> nat \<times> string \<times> string"

record dist_tools =
  program_result :: "nat \<Rightarrow> string list \<Rightarrow> (bool \<times> string \<times> string) option"
  manifest_dir :: string
  temporary_dir :: string
  home_variable :: "string option"
  cargo_home_variable :: "string option"
  epoch_variable :: "string option"
  decode_metadata :: "string \<Rightarrow> cargo_metadata option"
  decode_value :: "string \<Rightarrow> json_type option"
  pretty_value :: "json_type \<Rightarrow> string option"
  encode_archive :: "nat \<Rightarrow> tar_entry list \<Rightarrow> string"
  archive_names :: "string \<Rightarrow> (string list, string) result"
  sha256_hex :: "string \<Rightarrow> string"

definition RELEASE_TARGET :: string where
  "RELEASE_TARGET = ''aarch64-apple-darwin''"

definition command_output :: "dist_tools \<Rightarrow> string list \<Rightarrow> string io" where
  "command_output D argv =
     after (spawn argv)
     (bind (query (\<lambda>_ t. program_result D t argv)) (\<lambda>r.
      bind (lift (ok_or r ''run'')) (\<lambda>(succeeded, out, err).
      after (require succeeded (''failed: '' @ trim err)) (return out))))"

definition command_text :: "dist_tools \<Rightarrow> string list \<Rightarrow> string io" where
  "command_text D argv =
     bind (command_output D argv) (\<lambda>out.
     after (require (utf8_valid out) ''invalid utf-8 sequence'') (return (trim out)))"

definition path_is_file :: "string \<Rightarrow> bool io" where
  "path_is_file path =
     bind (attempt (syscall (\<lambda>fs. (Ok (case follow fs path of Some n \<Rightarrow> is_regular n | None \<Rightarrow> False), fs))))
       (\<lambda>r. return (r = Ok True))"

section \<open>Machine-specific paths\<close>

text \<open>What follows each match, as \<open>match_indices\<close> finds them, left to right without overlap.\<close>

function match_rests :: "string \<Rightarrow> string \<Rightarrow> string list" where
  "match_rests p s =
     (if p = [] then []
      else case split_at p s of None \<Rightarrow> [] | Some (_, rest) \<Rightarrow> rest # match_rests p rest)"
  by pat_completeness auto
termination
  by (relation "measure (\<lambda>(p, s). length s)") (auto dest!: split_at_SomeD)

declare match_rests.simps [simp del]

definition user_char :: "char \<Rightarrow> bool" where
  "user_char c \<longleftrightarrow> is_ascii_alphanumeric c \<or> c \<in> set ''_.-''"

definition machine_home_path :: "string \<Rightarrow> bool" where
  "machine_home_path line \<longleftrightarrow>
     list_ex (\<lambda>p. list_ex (\<lambda>rest.
       let n = length (takeWhile user_char rest) in 0 < n \<and> (get rest n = None \<or> get rest n = Some (CHR ''/'')))
       (match_rests p line)) [''/Users/'', ''/home/'']"

fun path_failures :: "string \<Rightarrow> nat \<Rightarrow> string list \<Rightarrow> string list" where
  "path_failures name index [] = []"
| "path_failures name index (line # ls) =
     (if machine_home_path line then [name @ '':'' @ decimal (index + 1) @ '': machine-specific home path''] else [])
     @ path_failures name (index + 1) ls"

definition source_failures :: "string \<Rightarrow> string \<Rightarrow> string list io" where
  "source_failures repo name =
     (let path = path_join repo name in
      bind (path_is_file path) (\<lambda>file.
      bind (if file then attempt (lstat path) else return (Ok None)) (\<lambda>node.
      if \<not> file \<or> (case node of Ok n \<Rightarrow> is_link n | Err _ \<Rightarrow> False) then return []
      else bind (attempt (read_contents path)) (\<lambda>contents.
        case contents of
          Ok content \<Rightarrow> return (if utf8_valid content then path_failures name 0 (lines_of content) else [])
        | Err _ \<Rightarrow> return []))))"

fun check_names :: "string \<Rightarrow> string list \<Rightarrow> string list io" where
  "check_names repo [] = return []"
| "check_names repo (name # names) =
     after (require (utf8_valid name) ''invalid utf-8 sequence'')
     (bind (source_failures repo name) (\<lambda>found.
      bind (check_names repo names) (\<lambda>later. return (found @ later))))"

definition listed_names :: "string \<Rightarrow> string list" where
  "listed_names out = filter (\<lambda>name. name \<noteq> []) (split_on (CHR 0x00) out)"

definition joined :: "string \<Rightarrow> string list \<Rightarrow> string" where
  "joined separator parts = concat (map (\<lambda>(i, p). (if i = 0 then [] else separator) @ p) (enumerate 0 parts))"

definition check_source :: "dist_tools \<Rightarrow> unit io" where
  "check_source D =
     bind (command_output D [''git'', ''ls-files'', ''--cached'', ''--others'', ''--exclude-standard'', ''-z'']) (\<lambda>out.
     bind (check_names (manifest_dir D) (listed_names out)) (\<lambda>failures.
     require (failures = []) (joined [CHR 0x0A] failures)))"

section \<open>License texts\<close>

definition to_ascii_lowercase :: "string \<Rightarrow> string" where
  "to_ascii_lowercase s = map (\<lambda>c. if is_ascii_uppercase c then char_of (byte c + 32) else c) s"

definition license_name :: "string \<Rightarrow> bool" where
  "license_name name =
     (let name = to_ascii_lowercase name in
      list_ex (\<lambda>p. name = p \<or> (case strip_prefix name p of
          None \<Rightarrow> False
        | Some rest \<Rightarrow> starts_with rest ''.'' \<or> starts_with rest ''-'' \<or> starts_with rest ''_''))
        [''license'', ''licence'', ''copying'', ''copyright'', ''notice'', ''unlicense''])"

fun walk_entries :: "(string \<Rightarrow> string list io) \<Rightarrow> string \<Rightarrow> string list \<Rightarrow> string list io" where
  "walk_entries descend root [] = return []"
| "walk_entries descend root (name # names) =
     (let path = path_join root name in
      bind (lstat path) (\<lambda>node.
      bind (case node of
          None \<Rightarrow> bail ''not found''
        | Some (Directory _) \<Rightarrow> descend path
        | Some (Regular contents _) \<Rightarrow> return (if contents \<noteq> [] then [path] else [])
        | Some _ \<Rightarrow> return []) (\<lambda>found.
      bind (walk_entries descend root names) (\<lambda>later. return (found @ later)))))"

text \<open>
  The fuel is the depth. Every level makes the path at least two characters longer, so the system
  refuses a directory deeper than its limit of 1024 characters for a path.
\<close>

fun walk_files :: "nat \<Rightarrow> string \<Rightarrow> string list io" where
  "walk_files 0 root = bail ''File name too long''"
| "walk_files (Suc depth) root =
     bind (directory_entries root) (\<lambda>entries.
     bind (lift (ok_or entries ''read_dir'')) (\<lambda>names. walk_entries (walk_files depth) root names))"

definition PATH_DEPTH :: nat where
  "PATH_DEPTH = 1024"

text \<open>A sorted set of paths; paths are ordered by their components.\<close>

definition sorted_paths :: "string list \<Rightarrow> string list" where
  "sorted_paths ps = sort_key path_components (remdups ps)"

definition license_files :: "package \<Rightarrow> string \<Rightarrow> string list io" where
  "license_files p package_root =
     bind (canonicalize package_root) (\<lambda>root.
     bind (case license_file p of
         None \<Rightarrow> return []
       | Some declared \<Rightarrow>
           bind (canonicalize (path_join root declared)) (\<lambda>candidate.
           after (require (path_starts_with candidate root) ''license path escapes package'')
           (bind (attempt (syscall (\<lambda>fs. (Ok (follow fs candidate), fs)))) (\<lambda>node.
            return (case node of Ok (Some (Regular contents _)) \<Rightarrow> (if contents \<noteq> [] then [candidate] else []) | _ \<Rightarrow> [])))))
       (\<lambda>declared.
     bind (walk_files PATH_DEPTH root) (\<lambda>candidates.
     return (sorted_paths (declared @ filter (\<lambda>path. license_name (file_name path)) candidates)))))"

definition package_label :: "package \<Rightarrow> string \<Rightarrow> string" where
  "package_label p separator = package_name p @ separator @ package_version p"

text \<open>The root and the license texts of a package: its own or, if it has none, the supplement.\<close>

definition select_licenses :: "string \<Rightarrow> package \<Rightarrow> (string \<times> string list) io" where
  "select_licenses supplements p =
     bind (lift (ok_or (parent (manifest_path p)) ''package manifest has no parent'')) (\<lambda>root.
     bind (license_files p root) (\<lambda>inputs.
     let supplement = path_join supplements (package_label p ''-'') in
     bind (if inputs = [] then path_is_dir supplement else return False) (\<lambda>supplemented.
     if \<not> supplemented then return (root, inputs)
     else bind (license_files p supplement) (\<lambda>texts.
       bind (path_is_file (path_join supplement ''SOURCE'')) (\<lambda>source.
       return (supplement, texts @ (if source then [path_join supplement ''SOURCE''] else [])))))))"

fun select_all :: "string \<Rightarrow> package list \<Rightarrow> (package \<times> string \<times> string list) list io" where
  "select_all supplements [] = return []"
| "select_all supplements (p # ps) =
     bind (select_licenses supplements p) (\<lambda>selection.
     bind (select_all supplements ps) (\<lambda>later. return ((p, selection) # later)))"

text \<open>\<open>fs::copy\<close> copies the contents and the permissions.\<close>

definition copy_file :: "string \<Rightarrow> string \<Rightarrow> unit io" where
  "copy_file source target =
     bind (syscall (\<lambda>fs. (case follow fs source of
         Some (Regular contents m) \<Rightarrow> Ok (contents, mode m)
       | None \<Rightarrow> Err ''not found''
       | Some _ \<Rightarrow> Err ''not a file'', fs))) (\<lambda>(contents, permissions).
     bind (truncate_file target permissions) (\<lambda>place.
     after (set_permissions place permissions) (write_all place contents)))"

definition path_below :: "string \<Rightarrow> string \<Rightarrow> string option" where
  "path_below root path =
     (if path_starts_with path root then Some (joined ''/'' (drop (length (path_components root)) (path_components path)))
      else None)"

fun copy_licenses :: "string \<Rightarrow> string \<Rightarrow> string \<Rightarrow> string list \<Rightarrow> string list io" where
  "copy_licenses target directory root [] = return []"
| "copy_licenses target directory root (source # sources) =
     bind (lift (ok_or (path_below root source) ''prefix not found'')) (\<lambda>relative.
     let place = path_join (path_join target directory) relative in
     after (create_dir_all (ancestors (the (parent place))) (the (parent place)))
     (after (copy_file source place)
     (bind (copy_licenses target directory root sources) (\<lambda>later.
      return ((directory @ ''/'' @ relative) # later)))))"

definition string_or_null :: "string option \<Rightarrow> json_type" where
  "string_or_null s = (case s of None \<Rightarrow> Null | Some t \<Rightarrow> Str t)"

definition index_entry :: "package \<Rightarrow> string list \<Rightarrow> json_type" where
  "index_entry p copied = object
     [(''name'', Str (package_name p)), (''version'', Str (package_version p)), (''license'', string_or_null (license p)),
      (''repository'', string_or_null (repository p)), (''files'', Array (map Str copied))]"

fun copy_selections :: "string \<Rightarrow> (package \<times> string \<times> string list) list \<Rightarrow> json_type list io" where
  "copy_selections target [] = return []"
| "copy_selections target ((p, root, inputs) # rest) =
     bind (copy_licenses target (package_label p ''-'') root inputs) (\<lambda>copied.
     bind (copy_selections target rest) (\<lambda>later. return (index_entry p copied # later)))"

definition host_target :: "dist_tools \<Rightarrow> string option \<Rightarrow> string io" where
  "host_target D target =
     bind (command_text D [''rustc'', ''--print'', ''host-tuple'']) (\<lambda>host.
     return (case target of Some t \<Rightarrow> t | None \<Rightarrow> host))"

definition collect_licenses :: "dist_tools \<Rightarrow> string \<Rightarrow> string option \<Rightarrow> unit io" where
  "collect_licenses D target_dir selected =
     bind (host_target D selected) (\<lambda>target.
     bind (command_output D [''cargo'', ''metadata'', ''--locked'', ''--format-version'', ''1'', ''--filter-platform'', target]) (\<lambda>out.
     bind (lift (ok_or (decode_metadata D out) ''invalid JSON'')) (\<lambda>metadata.
     let chosen = sort_key (\<lambda>p. (package_name p, package_version p))
       (filter (\<lambda>p. package_id p \<notin> set (workspace_members metadata)) (packages metadata)) in
     bind (path_exists target_dir) (\<lambda>present.
     after (require (\<not> present) ''output must not already exist'')
     (bind (select_all (path_join (manifest_dir D) ''licenses'') chosen) (\<lambda>selections.
      let missing = map (\<lambda>(p, _). package_label p '' '') (filter (\<lambda>(_, _, inputs). inputs = []) selections) in
      after (require (missing = []) (''no license text found for: '' @ joined '', '' missing))
      (after (create_dir_all (ancestors target_dir) target_dir)
      (bind (copy_selections target_dir selections) (\<lambda>index.
       bind (lift (ok_or (pretty_value D (Array index)) ''serialize'')) (\<lambda>bytes.
       write_file (path_join target_dir ''index.json'') (bytes @ [CHR 0x0A])))))))))))"

section \<open>Archives\<close>

text \<open>A component is a name when it is not a reference to a directory.\<close>

definition generated :: "string \<Rightarrow> bool" where
  "generated name \<longleftrightarrow> list_ex (\<lambda>c. c = ''dist'' \<or> c = ''target'') (path_components name)"

definition check_cargo_package :: "dist_tools \<Rightarrow> string \<Rightarrow> nat io" where
  "check_cargo_package D path =
     bind (read_contents path) (\<lambda>bytes.
     bind (lift (archive_names D bytes)) (\<lambda>names.
     let forbidden = filter generated names in
     after (require (forbidden = []) (''generated files in '' @ path @ '':'' @ [CHR 0x0A] @ joined [CHR 0x0A] forbidden))
     (after (require (names \<noteq> []) (''empty Cargo archive: '' @ path))
     (return (length names)))))"

text \<open>Any of the three execute bits.\<close>

definition executable_mode :: "nat \<Rightarrow> bool" where
  "executable_mode m \<longleftrightarrow> odd (m div 64) \<or> odd (m div 8) \<or> odd m"

definition tar_entry_of :: "string \<Rightarrow> string \<Rightarrow> nat \<Rightarrow> string \<Rightarrow> nat \<Rightarrow> tar_entry" where
  "tar_entry_of root relative permissions contents epoch =
     \<lparr>entry_path = path_join root relative, entry_contents = contents,
      entry_mode = (if executable_mode permissions then 493 else 420), entry_mtime = epoch,
      entry_owner = (0, 0, ''root'', ''root'')\<rparr>"

definition append_file :: "string \<Rightarrow> string \<Rightarrow> string \<Rightarrow> nat \<Rightarrow> tar_entry io" where
  "append_file root relative source epoch =
     bind (lstat source) (\<lambda>node.
     case node of
       Some (Regular _ m) \<Rightarrow> bind (read_contents source) (\<lambda>contents. return (tar_entry_of root relative (mode m) contents epoch))
     | None \<Rightarrow> bail ''not found''
     | Some _ \<Rightarrow> bail (''release input must be a regular file: '' @ relative))"

fun append_files :: "string \<Rightarrow> nat \<Rightarrow> (string \<times> string) list \<Rightarrow> tar_entry list io" where
  "append_files root epoch [] = return []"
| "append_files root epoch ((relative, source) # inputs) =
     bind (append_file root relative source epoch) (\<lambda>entry.
     bind (append_files root epoch inputs) (\<lambda>later. return (entry # later)))"

text \<open>The archive is written when it is complete; the unfinished one of an error is not modelled.\<close>

definition write_archive :: "dist_tools \<Rightarrow> string \<Rightarrow> string \<Rightarrow> (string \<times> string) list \<Rightarrow> nat \<Rightarrow> unit io" where
  "write_archive D place root inputs epoch =
     after (require (epoch < 2 ^ 32) ''SOURCE_DATE_EPOCH exceeds gzip range'')
     (bind (truncate_file place 420) (\<lambda>target.
      bind (append_files root epoch (sort_key (\<lambda>f. path_components (fst f)) inputs)) (\<lambda>entries.
      write_all target (encode_archive D epoch entries))))"

fun copy_entries :: "(string \<Rightarrow> string \<Rightarrow> unit io) \<Rightarrow> string \<Rightarrow> string \<Rightarrow> string list \<Rightarrow> unit io" where
  "copy_entries descend source place [] = return ()"
| "copy_entries descend source place (name # names) =
     (let path = path_join source name; target = path_join place name in
      bind (lstat path) (\<lambda>node.
      after (case node of
          None \<Rightarrow> bail ''not found''
        | Some (Directory _) \<Rightarrow> descend path target
        | Some _ \<Rightarrow> copy_file path target)
      (copy_entries descend source place names)))"

fun copy_tree :: "nat \<Rightarrow> string \<Rightarrow> string \<Rightarrow> unit io" where
  "copy_tree 0 source place = bail ''File name too long''"
| "copy_tree (Suc depth) source place =
     after (create_dir_all (ancestors place) place)
     (bind (directory_entries source) (\<lambda>entries.
      bind (lift (ok_or entries ''read_dir'')) (\<lambda>names. copy_entries (copy_tree depth) source place names)))"

definition tracked_files :: "dist_tools \<Rightarrow> string \<Rightarrow> (string \<times> string) list io" where
  "tracked_files D repo =
     bind (command_output D [''git'', ''ls-files'', ''-z'']) (\<lambda>out.
     after (require (list_all utf8_valid (listed_names out)) ''invalid utf-8 sequence'')
     (return (map (\<lambda>name. (name, path_join repo name)) (listed_names out))))"

definition files_under :: "string \<Rightarrow> (string \<times> string) list io" where
  "files_under root =
     bind (walk_files PATH_DEPTH root) (\<lambda>absolute.
     lift (collect_results (\<lambda>path. map_ok (\<lambda>relative. (relative, path)) (ok_or (path_below root path) ''prefix not found'')) absolute))"

section \<open>The release\<close>

definition remap_flags :: "(string \<times> string) list \<Rightarrow> string" where
  "remap_flags mappings = joined [CHR 0x1F] (map (\<lambda>(source, place). ''--remap-path-prefix='' @ source @ ''='' @ place) mappings)"

definition build_variables :: "string \<Rightarrow> string \<Rightarrow> (string \<times> string) list" where
  "build_variables target_dir flags =
     [(''MACOSX_DEPLOYMENT_TARGET'', ''14.0''), (''CARGO_TARGET_DIR'', target_dir), (''CARGO_INCREMENTAL'', ''0''),
      (''CARGO_PROFILE_RELEASE_STRIP'', ''symbols''), (''CARGO_PROFILE_RELEASE_DEBUG'', ''0''), (''CARGO_ENCODED_RUSTFLAGS'', flags)]"

definition build_release :: "dist_tools \<Rightarrow> string \<Rightarrow> string \<Rightarrow> string option \<Rightarrow> (string \<times> (string \<times> string) list) io" where
  "build_release D repository_path target_path selected =
     bind (canonicalize repository_path) (\<lambda>repo.
     let target_dir = path_join repo target_path in
     bind (lift (ok_or (home_variable D) ''HOME is not set'')) (\<lambda>home_path.
     bind (canonicalize home_path) (\<lambda>home.
     let cargo_home = (case cargo_home_variable D of Some p \<Rightarrow> p | None \<Rightarrow> path_join home ''.cargo'') in
     bind (command_text D [''rustc'', ''--print'', ''sysroot'']) (\<lambda>sysroot.
     bind (host_target D selected) (\<lambda>target.
     let mappings = [(home, ''/usr/local/home''), (target_dir, ''/tmp/luhmen-build''), (cargo_home, ''/usr/local/cargo''),
           (sysroot, ''/usr/local/rust''), (repo, ''/usr/src/luhmen'')];
         variables = build_variables target_dir (remap_flags mappings) in
     bind (command_output D [''cargo'', ''build'', ''--release'', ''--locked'', ''--package'', ''luhmen'', ''--target'', target]) (\<lambda>_.
     let binary = path_join (path_join target_dir target) ''release/luhmen'' in
     bind (read_contents binary) (\<lambda>contents.
     after (lift (for_each (\<lambda>(source, _). ensure (\<not> contains_str contents source)
       (''binary contains an unremapped local source path: '' @ source)) mappings))
     (return (binary, variables)))))))))"

fun copy_named :: "string \<Rightarrow> string \<Rightarrow> string list \<Rightarrow> unit io" where
  "copy_named source place [] = return ()"
| "copy_named source place (name # names) =
     after (copy_file (path_join source name) (path_join place name)) (copy_named source place names)"

definition release_version :: "json_type \<Rightarrow> (string, string) result" where
  "release_version metadata =
     and_then (ok_or (case index_member metadata ''packages'' of Array ps \<Rightarrow> Some ps | _ \<Rightarrow> None)
       ''Cargo metadata has no packages array'') (\<lambda>ps.
     ok_or (Option.bind (List.find (\<lambda>p. index_member p ''name'' = Str ''luhmen'') ps) (\<lambda>p. as_str (index_member p ''version'')))
       ''luhmen package missing from Cargo metadata'')"

definition release_epoch :: "dist_tools \<Rightarrow> nat io" where
  "release_epoch D =
     (case epoch_variable D of
        Some v \<Rightarrow> lift (ok_or (parse_unsigned 64 v) ''invalid SOURCE_DATE_EPOCH'')
      | None \<Rightarrow> bind (command_text D [''git'', ''show'', ''-s'', ''--format=%ct'', ''HEAD'']) (\<lambda>out.
          lift (ok_or (parse_unsigned 64 out) ''invalid digit found in string'')))"

text \<open>The tree of the binary archive.\<close>

definition assemble_package :: "dist_tools \<Rightarrow> string \<Rightarrow> string \<Rightarrow> string \<Rightarrow> unit io" where
  "assemble_package D repo binary tree =
     (let notices = path_join tree ''share/licenses/luhmen'' in
      after (create_dir_all (ancestors (path_join tree ''bin'')) (path_join tree ''bin''))
      (after (copy_file binary (path_join tree ''bin/luhmen''))
      (after (create_dir_all (ancestors notices) notices)
      (after (copy_named repo notices [''LICENSE'', ''NOTICE'', ''THIRD_PARTY.md''])
      (after (collect_licenses D (path_join notices ''dependencies'') (Some RELEASE_TARGET))
      (after (copy_named repo tree [''README.md'', ''CONTRIBUTING.md'', ''SECURITY.md'', ''LICENSE'', ''NOTICE'', ''THIRD_PARTY.md''])
      (copy_tree PATH_DEPTH (path_join repo ''docs'') (path_join tree ''docs''))))))))"

definition write_build_info :: "dist_tools \<Rightarrow> string \<Rightarrow> nat \<Rightarrow> (string \<times> string) list \<Rightarrow> string \<Rightarrow> unit io" where
  "write_build_info D version_text epoch variables tree =
     bind (command_text D [''git'', ''rev-parse'', ''HEAD'']) (\<lambda>commit.
     bind (command_text D [''rustc'', ''--version'']) (\<lambda>rustc.
     bind (command_text D [''xcrun'', ''--sdk'', ''macosx'', ''--show-sdk-version'']) (\<lambda>sdk.
     let build_info = object
       [(''version'', Str version_text), (''commit'', Str commit), (''source_date_epoch'', Numeral (decimal epoch)),
        (''target'', Str RELEASE_TARGET), (''rustc'', Str rustc), (''sdk_version'', Str sdk),
        (''macos_deployment_target'', string_or_null (map_of variables ''MACOSX_DEPLOYMENT_TARGET''))] in
     bind (lift (ok_or (pretty_value D build_info) ''serialize'')) (\<lambda>bytes.
     write_file (path_join tree ''build-info.json'') (bytes @ [CHR 0x0A])))))"

fun checksum_lines :: "dist_tools \<Rightarrow> string list \<Rightarrow> string io" where
  "checksum_lines D [] = return []"
| "checksum_lines D (path # paths) =
     bind (read_contents path) (\<lambda>bytes.
     bind (checksum_lines D paths) (\<lambda>later.
     return (sha256_hex D bytes @ ''  '' @ file_name path @ [CHR 0x0A] @ later)))"

definition is_gz :: "string \<Rightarrow> bool" where
  "is_gz name \<longleftrightarrow> ends_with name ''.gz'' \<and> name \<noteq> ''.gz''"

definition write_checksums :: "dist_tools \<Rightarrow> string \<Rightarrow> unit io" where
  "write_checksums D target_dir =
     bind (directory_entries target_dir) (\<lambda>entries.
     bind (lift (ok_or entries ''read_dir'')) (\<lambda>names.
     bind (checksum_lines D (sort_key path_components (map (path_join target_dir) (filter is_gz names)))) (\<lambda>sums.
     write_file (path_join target_dir ''SHA256SUMS'') sums)))"

definition write_release :: "dist_tools \<Rightarrow> string \<Rightarrow> string \<Rightarrow> string \<Rightarrow> nat \<Rightarrow> string \<Rightarrow> unit io" where
  "write_release D repo target_dir version_text epoch temporary =
     bind (build_release D repo (path_join temporary ''target'') (Some RELEASE_TARGET)) (\<lambda>(binary, variables).
     let tree = path_join temporary ''package'';
         binary_name = ''luhmen-'' @ version_text @ ''-'' @ RELEASE_TARGET;
         source_name = ''luhmen-'' @ version_text @ ''-source'' in
     after (assemble_package D repo binary tree)
     (after (write_build_info D version_text epoch variables tree)
     (after (create_dir_all (ancestors target_dir) target_dir)
     (bind (files_under tree) (\<lambda>packaged.
      after (write_archive D (path_join target_dir (binary_name @ ''.tar.gz'')) binary_name packaged epoch)
      (bind (tracked_files D repo) (\<lambda>tracked.
       after (write_archive D (path_join target_dir (source_name @ ''.tar.gz'')) source_name tracked epoch)
       (write_checksums D target_dir))))))))"

definition check_release_host :: "dist_tools \<Rightarrow> string \<Rightarrow> unit io" where
  "check_release_host D target_dir =
     bind (command_text D [''uname'', ''-s'']) (\<lambda>system.
     after (require (system = ''Darwin'') ''binary releases must be built on macOS'')
     (bind (command_text D [''uname'', ''-m'']) (\<lambda>machine.
      after (require (machine = ''arm64'') ''binary releases must be built on an Apple Silicon Mac'')
      (bind (command_text D [''git'', ''status'', ''--porcelain'', ''--untracked-files=all'']) (\<lambda>changes.
       after (require (changes = []) ''release requires a clean, committed checkout'')
       (bind (path_exists target_dir) (\<lambda>present.
        require (\<not> present) ''release output must not already exist'')))))))"

definition release :: "dist_tools \<Rightarrow> string \<Rightarrow> unit io" where
  "release D target_dir =
     (let repo = manifest_dir D in
      after (check_release_host D target_dir)
      (bind (command_output D [''cargo'', ''metadata'', ''--no-deps'', ''--format-version'', ''1'']) (\<lambda>out.
       bind (lift (ok_or (decode_value D out) ''invalid JSON'')) (\<lambda>metadata.
       bind (lift (release_version metadata)) (\<lambda>version_text.
       bind (release_epoch D) (\<lambda>epoch.
       bind random (\<lambda>name.
       let temporary = path_join (temporary_dir D) name in
       after (create_directory temporary)
       (bind (attempt (write_release D repo target_dir version_text epoch temporary)) (\<lambda>result.
        after (ignoring (remove_tree temporary)) (lift result))))))))))"

end
