(* ===== verification/Distribution_Facts.thy ===== *)
theory Distribution_Facts
  imports Distribution "HOL-Library.Multiset"
begin

text \<open>
  What the release tools guarantee: the search for machine-specific paths finds exactly the lines
  that name a user's home directory, and the bytes of an archive depend only on the files that go
  into it.
\<close>

section \<open>Machine-specific paths, exactly\<close>

text \<open>A user's directory below \<open>p\<close> occurs in the line.\<close>

definition names_user :: "string \<Rightarrow> string \<Rightarrow> bool" where
  "names_user p line \<longleftrightarrow>
     (\<exists>l u r. line = l @ p @ u @ r \<and> u \<noteq> [] \<and> list_all user_char u \<and> (r = [] \<or> hd r = CHR ''/''))"

definition user_follows :: "string \<Rightarrow> bool" where
  "user_follows rest \<longleftrightarrow> (let n = length (takeWhile user_char rest) in
     0 < n \<and> (get rest n = None \<or> get rest n = Some (CHR ''/'')))"

lemma slash_no_user: "\<not> user_char (CHR ''/'')"
  by (simp add: user_char_def is_ascii_alphanumeric_def is_ascii_digit_def is_ascii_lowercase_def is_ascii_uppercase_def)

lemma user_follows_iff:
  "user_follows rest \<longleftrightarrow> (\<exists>u r. rest = u @ r \<and> u \<noteq> [] \<and> list_all user_char u \<and> (r = [] \<or> hd r = CHR ''/''))"
proof
  assume "user_follows rest"
  then have "takeWhile user_char rest \<noteq> []" "get rest (length (takeWhile user_char rest)) \<in> {None, Some (CHR ''/'')}"
    by (auto simp: user_follows_def Let_def)
  moreover have "list_all user_char (takeWhile user_char rest)" by (auto simp: list_all_iff dest: set_takeWhileD)
  moreover have "dropWhile user_char rest = [] \<or> hd (dropWhile user_char rest) = CHR ''/''"
    using calculation(2) takeWhile_dropWhile_id [of user_char rest]
    by (metis get_Some_iff get_append_right get_def append.right_neutral add.right_neutral hd_conv_nth insertE length_greater_0_conv nth_append_length_plus option.distinct(1) option.inject singletonD)
  ultimately show "\<exists>u r. rest = u @ r \<and> u \<noteq> [] \<and> list_all user_char u \<and> (r = [] \<or> hd r = CHR ''/'')"
    by (metis takeWhile_dropWhile_id)
next
  assume "\<exists>u r. rest = u @ r \<and> u \<noteq> [] \<and> list_all user_char u \<and> (r = [] \<or> hd r = CHR ''/'')"
  then obtain u r where r: "rest = u @ r" "u \<noteq> []" "list_all user_char u" "r = [] \<or> hd r = CHR ''/''" by blast
  have "takeWhile user_char r = []" using r(4) slash_no_user by (cases r) auto
  then have "takeWhile user_char rest = u" using r(3) by (simp add: r(1) takeWhile_append list_all_iff)
  moreover have "get rest (length u) = None \<or> get rest (length u) = Some (CHR ''/'')"
    using r(4) by (cases r) (auto simp: r(1) get_def)
  ultimately show "user_follows rest" using r(2) by (auto simp: user_follows_def Let_def)
qed

lemma match_rests_split: "r \<in> set (match_rests p s) \<Longrightarrow> \<exists>l. s = l @ p @ r"
proof (induction p s rule: match_rests.induct)
  case (1 p s)
  show ?case
  proof (cases "p = [] \<or> split_at p s = None")
    case True
    with 1(2) show ?thesis by (auto simp: match_rests.simps [of p s] split: if_splits)
  next
    case False
    then obtain l rest where found: "split_at p s = Some (l, rest)" by auto
    note s = split_at_SomeD [OF found]
    from 1(2) False found consider "r = rest" | "r \<in> set (match_rests p rest)"
      by (auto simp: match_rests.simps [of p s])
    then show ?thesis
    proof cases
      case 2
      with 1(1) [OF _ found refl] False obtain l' where "rest = l' @ p @ r" by auto
      with s have "s = (l @ p @ l') @ p @ r" by simp
      then show ?thesis by blast
    qed (use s in blast)
  qed
qed

text \<open>A match that overlaps an earlier one is no loss: the earlier one is followed by a name as well.\<close>

lemma match_rests_complete:
  assumes mid: "mid \<noteq> []" "list_all user_char mid"
  shows "s = l @ (''/'' @ mid @ ''/'') @ t \<Longrightarrow> user_follows t \<Longrightarrow> \<exists>r\<in>set (match_rests (''/'' @ mid @ ''/'') s). user_follows r"
proof (induction "length s" arbitrary: s l rule: less_induct)
  case less
  let ?p = "''/'' @ mid @ ''/''"
  obtain k q where found: "split_at ?p s = Some (k, q)" using split_at_exists [of s l ?p t] less(2) by auto
  note s = split_at_SomeD [OF found]
  have le: "length k \<le> length l" by (rule split_at_first [OF found less(2)])
  have rests: "match_rests ?p s = q # match_rests ?p q" by (subst match_rests.simps) (use found in simp)
  show ?case
  proof (cases "length k + length ?p \<le> length l")
    case True
    have "(k @ ?p) @ q = l @ ?p @ t" using s less(2) by simp
    then obtain l' where "(k @ ?p) @ l' = l \<and> q = l' @ ?p @ t \<or> k @ ?p = l @ l' \<and> l' @ q = ?p @ t"
      unfolding append_eq_append_conv2 by blast
    moreover from this True have "k @ ?p = l @ l' \<Longrightarrow> l' = []"
      by (metis add_le_same_cancel1 le_zero_eq length_0_conv length_append)
    ultimately obtain l'' where "q = l'' @ ?p @ t" by (metis append_Nil)
    moreover have "length q < length s" using s by simp
    ultimately show ?thesis using less(1) [of q l''] less(3) rests by auto
  next
    case False
    have eq: "k @ ?p @ q = l @ ?p @ t" using s less(2) by simp
    show ?thesis
    proof (cases "length k = length l")
      case True
      with eq have "q = t" by simp
      with less(3) rests show ?thesis by simp
    next
      case False
      define d where "d = length l - length k - 1"
      have d: "length l = length k + 1 + d" "d \<le> length mid"
        using False le \<open>\<not> length k + length ?p \<le> length l\<close> by (auto simp: d_def)
      have "(k @ ?p @ q) ! length l = CHR ''/''" by (simp only: eq) simp
      then have at: "(mid @ ''/'' @ q) ! d = CHR ''/''" using d(1) by (simp add: nth_append)
      have "d = length mid"
      proof (rule ccontr)
        assume "d \<noteq> length mid"
        with d(2) at have "mid ! d = CHR ''/''" "d < length mid" by (auto simp: nth_append)
        with mid(2) slash_no_user show False by (auto simp: list_all_length)
      qed
      then have "(k @ ''/'' @ mid) @ ''/'' @ q = l @ ''/'' @ mid @ ''/'' @ t" "length (k @ ''/'' @ mid) = length l"
        using eq d(1) by simp_all
      then have "''/'' @ q = ''/'' @ mid @ ''/'' @ t" by (metis append_eq_append_conv)
      then have "q = mid @ ''/'' @ t" by simp
      then have "user_follows q"
        unfolding user_follows_iff using mid by (intro exI [of _ mid] exI [of _ "''/'' @ t"]) simp
      then show ?thesis using rests by simp
    qed
  qed
qed

text \<open>The check for machine-specific paths finds exactly the lines in which the home directory of a
  user is named: \<open>/Users/\<close> or \<open>/home/\<close>, a name and then the end of the line or a slash. Searching
  without overlaps misses none of them.\<close>

theorem machine_home_path_is_exact:
  "machine_home_path line \<longleftrightarrow> names_user ''/Users/'' line \<or> names_user ''/home/'' line"
proof -
  have "list_ex user_follows (match_rests p line) \<longleftrightarrow> names_user p line"
    if p: "p = ''/'' @ mid @ ''/''" "mid \<noteq> []" "list_all user_char mid" for p mid
  proof
    assume "list_ex user_follows (match_rests p line)"
    then obtain rest where rest: "rest \<in> set (match_rests p line)" "user_follows rest" by (auto simp: list_ex_iff)
    obtain l where "line = l @ p @ rest" using match_rests_split [OF rest(1)] by blast
    with rest(2) show "names_user p line" unfolding names_user_def user_follows_iff by blast
  next
    assume "names_user p line"
    then obtain l u r where "line = l @ p @ (u @ r)" "user_follows (u @ r)"
      unfolding names_user_def user_follows_iff by blast
    with match_rests_complete [OF p(2,3), of line l "u @ r"] show "list_ex user_follows (match_rests p line)"
      by (auto simp: p(1) list_ex_iff)
  qed
  note each = this
  have "list_all user_char ''Users''" "list_all user_char ''home''" by code_simp+
  with each [of "''/Users/''" "''Users''"] each [of "''/home/''" "''home''"]
  have "list_ex user_follows (match_rests ''/Users/'' line) = names_user ''/Users/'' line"
    "list_ex user_follows (match_rests ''/home/'' line) = names_user ''/home/'' line" by simp_all
  moreover have "machine_home_path line \<longleftrightarrow>
      list_ex user_follows (match_rests ''/Users/'' line) \<or> list_ex user_follows (match_rests ''/home/'' line)"
    unfolding machine_home_path_def user_follows_def [abs_def] by simp
  ultimately show ?thesis by simp
qed

section \<open>Reproducible archives\<close>

definition entry_for :: "string \<Rightarrow> nat \<Rightarrow> fs \<Rightarrow> string \<times> string \<Rightarrow> tar_entry" where
  "entry_for root epoch fs f = (case fs (snd f) of
     Some (Regular c m) \<Rightarrow> tar_entry_of root (fst f) (mode m) c epoch
   | _ \<Rightarrow> tar_entry_of root (fst f) 0 [] epoch)"

definition regular_at :: "fs \<Rightarrow> string \<Rightarrow> bool" where
  "regular_at fs p \<longleftrightarrow> (case fs p of Some n \<Rightarrow> is_regular n | None \<Rightarrow> False)"

lemma holds_append_file:
  assumes J: "stable env J" "\<And>fs. J fs \<Longrightarrow> fs (snd f) = fs0 (snd f)"
  shows "holds env J (append_file root (fst f) (snd f) epoch)
    (\<lambda>e fs. J fs \<and> e = entry_for root epoch fs0 f \<and> regular_at fs0 (snd f)) J"
  unfolding append_file_def
proof (rule holds_bind)
  show "holds env J (lstat (snd f)) (\<lambda>n fs. J fs \<and> n = fs0 (snd f)) J"
    unfolding lstat_def by (rule holds_syscall [OF J(1)]) (auto simp: J(2))
next
  fix n
  show "holds env (\<lambda>fs. J fs \<and> n = fs0 (snd f))
      (case n of None \<Rightarrow> bail ''not found''
       | Some (Regular _ m) \<Rightarrow> bind (read_contents (snd f)) (\<lambda>contents. return (tar_entry_of root (fst f) (mode m) contents epoch))
       | Some _ \<Rightarrow> bail (''release input must be a regular file: '' @ fst f))
      (\<lambda>e fs. J fs \<and> e = entry_for root epoch fs0 f \<and> regular_at fs0 (snd f)) J"
  proof (cases "\<exists>c m. n = Some (Regular c m)")
    case True
    then obtain c m where n: "n = Some (Regular c m)" by blast
    have stab: "stable env (\<lambda>fs. J fs \<and> n = fs0 (snd f))" using J(1) by (simp add: stable_def)
    have fol: "follow fs (snd f) = Some (Regular c m)" if "J fs \<and> n = fs0 (snd f)" for fs
    proof -
      from that J(2) [of fs] n have "fs (snd f) = Some (Regular c m)" by simp
      then show ?thesis by (simp add: follow_def)
    qed
    have read: "holds env (\<lambda>fs. J fs \<and> n = fs0 (snd f)) (read_contents (snd f)) (\<lambda>b fs. (J fs \<and> n = fs0 (snd f)) \<and> b = c) J"
      unfolding read_contents_def by (rule holds_syscall [OF stab]) (auto simp: fol)
    have "holds env (\<lambda>fs. J fs \<and> n = fs0 (snd f))
        (bind (read_contents (snd f)) (\<lambda>contents. return (tar_entry_of root (fst f) (mode m) contents epoch)))
        (\<lambda>e fs. J fs \<and> e = entry_for root epoch fs0 f \<and> regular_at fs0 (snd f)) J"
      by (rule holds_bind [OF read])
        (use n in \<open>auto intro!: holds_return simp: entry_for_def regular_at_def is_regular_def split: option.splits node.splits\<close>)
    then show ?thesis by (simp add: n)
  qed (auto intro: holds_bail split: option.split node.split)
qed

lemma holds_append_files:
  assumes J: "stable env J" "\<And>fs f. J fs \<Longrightarrow> f \<in> set inputs \<Longrightarrow> fs (snd f) = fs0 (snd f)"
  shows "holds env J (append_files root epoch inputs)
    (\<lambda>es fs. J fs \<and> es = map (entry_for root epoch fs0) inputs \<and> (\<forall>f\<in>set inputs. regular_at fs0 (snd f))) J"
  using J(2)
proof (induction inputs)
  case (Cons f inputs)
  have stab: "stable env (\<lambda>fs. J fs \<and> C)" for C using J(1) by (simp add: stable_def)
  have later: "holds env (\<lambda>fs. J fs \<and> C) (append_files root epoch inputs)
      (\<lambda>es fs. (J fs \<and> es = map (entry_for root epoch fs0) inputs \<and> (\<forall>f\<in>set inputs. regular_at fs0 (snd f))) \<and> C) J" for C
    by (cases C) (use Cons in \<open>auto simp: holds_def\<close>)
  show ?case
  proof (cases f)
    case (Pair relative source)
    have one: "holds env J (append_file root relative source epoch)
        (\<lambda>e fs. J fs \<and> e = entry_for root epoch fs0 f \<and> regular_at fs0 source) J"
      using holds_append_file [OF J(1), of f fs0 root epoch] Cons(2) [of _ f] by (simp add: Pair)
    show ?thesis
      unfolding Pair append_files.simps
      by (rule holds_bind [OF one holds_bind [OF later]]) (auto intro!: holds_return simp: Pair)
  qed
qed (auto intro: holds_return)

lemma holds_write_archive:
  fixes fs0 :: fs and inputs :: "(string \<times> string) list"
  assumes env: "leaves env (insert place (snd ` set inputs))" and apart: "place \<notin> snd ` set inputs"
  defines "J \<equiv> \<lambda>fs. \<forall>f\<in>set inputs. fs (snd f) = fs0 (snd f)"
  shows "holds env (\<lambda>fs. J fs \<and> fs place = None) (write_archive D place root inputs epoch)
    (\<lambda>_ fs. (\<exists>m. fs place = Some (Regular (encode_archive D epoch
       (map (entry_for root epoch fs0) (sort_key (\<lambda>f. path_components (fst f)) inputs))) m))
       \<and> (\<forall>f\<in>set inputs. regular_at fs0 (snd f))) (\<lambda>_. True)"
proof -
  let ?sorted = "sort_key (\<lambda>f. path_components (fst f)) inputs"
  let ?m = "\<lparr>uid = user_id env, gid = user_id env, mode = 420\<rparr>"
  have upd: "J (fs(place := n)) = J fs" for fs n using apart unfolding J_def by auto
  have stab: "stable env (\<lambda>fs. J fs \<and> N (fs place))" for N
    using env unfolding stable_def leaves_def J_def by auto
  have opened: "holds env (\<lambda>fs. J fs \<and> fs place = None) (truncate_file place 420)
      (\<lambda>p fs. (J fs \<and> fs place = Some (Regular [] ?m)) \<and> p = place) (\<lambda>_. True)"
    unfolding truncate_file_def
    by (rule holds_env, rule holds_syscall [OF stab [of "\<lambda>n. n = None"]]) (auto simp: upd follow_def destination_def)
  let ?O = "\<lambda>fs. J fs \<and> fs place = Some (Regular [] ?m)"
  have stabO: "stable env ?O" by (rule stab [of "\<lambda>n. n = Some (Regular [] ?m)"])
  have entries: "holds env (\<lambda>fs. ?O fs \<and> p = place) (append_files root epoch ?sorted)
      (\<lambda>es fs. (J fs \<and> (\<exists>c. fs place = Some (Regular c ?m))) \<and> p = place \<and> es = map (entry_for root epoch fs0) ?sorted
         \<and> (\<forall>f\<in>set inputs. regular_at fs0 (snd f))) (\<lambda>_. True)" for p
  proof (cases "p = place")
    case True
    have "holds env ?O (append_files root epoch ?sorted)
      (\<lambda>es fs. ?O fs \<and> es = map (entry_for root epoch fs0) ?sorted \<and> (\<forall>f\<in>set ?sorted. regular_at fs0 (snd f))) ?O"
      by (rule holds_append_files [OF stabO]) (auto simp: J_def)
    then show ?thesis by (rule holds_weaken) (auto simp: True)
  qed (simp add: holds_def)
  have put: "holds env (\<lambda>fs. (J fs \<and> (\<exists>c. fs place = Some (Regular c ?m))) \<and> p = place \<and> es = map (entry_for root epoch fs0) ?sorted
         \<and> (\<forall>f\<in>set inputs. regular_at fs0 (snd f))) (write_all p (encode_archive D epoch es))
      (\<lambda>_ fs. (\<exists>m. fs place = Some (Regular (encode_archive D epoch (map (entry_for root epoch fs0) ?sorted)) m))
         \<and> (\<forall>f\<in>set inputs. regular_at fs0 (snd f))) (\<lambda>_. True)" for p es
  proof (rule holds_pure_pre)
    assume C: "p = place \<and> es = map (entry_for root epoch fs0) ?sorted \<and> (\<forall>f\<in>set inputs. regular_at fs0 (snd f))"
    have "holds env (\<lambda>fs. J fs \<and> (\<exists>c. fs place = Some (Regular c ?m))) (write_all place b)
      (\<lambda>_ fs. J fs \<and> fs place = Some (Regular b ?m)) J" for b
      by (rule holds_write_to [OF stab [of "\<lambda>n. \<exists>c. n = Some (Regular c ?m)"] upd])
    note written = this
    from C have p: "p = place" and es: "es = map (entry_for root epoch fs0) ?sorted"
      and regular: "\<forall>f\<in>set inputs. regular_at fs0 (snd f)" by simp_all
    show ?thesis
      unfolding p es by (rule holds_weaken [OF written]) (use regular in blast)+
  qed simp
  have start: "holds env (\<lambda>fs. J fs \<and> fs place = None) (require c message) (\<lambda>_ fs. J fs \<and> fs place = None) (\<lambda>_. True)" for c message
    by (rule holds_require) auto
  show ?thesis
    unfolding write_archive_def by (rule holds_bind [OF start holds_bind [OF opened holds_bind [OF entries put]]])
qed

lemma sort_key_permutation:
  assumes "mset xs = mset ys" "distinct (map f xs)"
  shows "sort_key f xs = sort_key f ys"
proof -
  have "map f (sort_key f zs) = sort (map f xs)" if "mset zs = mset xs" for zs
    by (rule properties_for_sort [symmetric]) (use that in simp_all)
  then have "map f (sort_key f xs) = map f (sort_key f ys)" using assms(1) by simp
  moreover have "inj_on f (set (sort_key f xs) \<union> set (sort_key f ys))"
    using assms by (auto simp: distinct_map dest: mset_eq_setD)
  ultimately show ?thesis by (simp add: inj_on_map_eq_map)
qed


section \<open>A sample release\<close>

definition sample_dist :: dist_tools where
  "sample_dist = \<lparr>program_result = \<lambda>_ _. Some (True, [], []), manifest_dir = ''/r'', temporary_dir = ''/tmp'',
     home_variable = Some ''/h'', cargo_home_variable = None, epoch_variable = Some ''5'',
     decode_metadata = \<lambda>_. None, decode_value = \<lambda>_. None, pretty_value = \<lambda>_. Some [],
     encode_archive = \<lambda>epoch entries. concat (map (\<lambda>e. entry_path e @ entry_contents e) entries),
     archive_names = \<lambda>_. Ok [], sha256_hex = id\<rparr>"

definition sample_inputs :: "(string \<times> string) list" where
  "sample_inputs = [(''b'', ''/s/b''), (''a/c'', ''/s/c'')]"

definition sample_sources :: world where
  "sample_sources = empty_world\<lparr>files :=
     [''/s/b'' \<mapsto> Regular ''one'' \<lparr>uid = 1, gid = 1, mode = 493\<rparr>, ''/s/c'' \<mapsto> Regular ''two'' \<lparr>uid = 2, gid = 1, mode = 420\<rparr>]\<rparr>"

lemma sample_archives:
  "fst (write_archive sample_dist ''/o'' ''p'' sample_inputs 5 quiet sample_sources) = Done ()"
  "fst (write_archive sample_dist ''/o'' ''p'' (rev sample_inputs) 5 quiet sample_sources) = Done ()"
  by code_simp+


end
