(* ===== verification/Vm_Harness.thy ===== *)
theory Vm_Harness
  imports Process Engine Json_Value
begin

text \<open>
  The opt-in checks and measurements on a running VM (src/src/devtool/vm.rs): the commands of
  the harness, the checks of ownership before it touches anything, the smoke test, the
  measurements and their cleanups. serde_json's parser and printers, SHA-256, the clock in
  nanoseconds, the choice of a free port, the output of the file watcher and the constants of the
  host are fields of \<open>vm_tools\<close>. The working directory of a command is not part of it.
\<close>

section \<open>Reports\<close>

record vm_tools =
  read_json :: "string \<Rightarrow> json_type option"
  compact_json :: "json_type \<Rightarrow> string"
  pretty_json :: "json_type \<Rightarrow> string option"
  sha256 :: "string \<Rightarrow> nat list"
  nanoseconds :: "nat \<Rightarrow> nat"
  seconds_text :: "nat \<Rightarrow> string"
  free_port :: "nat \<Rightarrow> (nat, string) result"
  watcher_output :: "nat \<Rightarrow> (string, string) result"
  docker_override :: "string option"
  host_os :: string
  host_arch :: string

definition IMAGE :: string where
  "IMAGE = ''busybox:1.37.0@sha256:f10e809bcf667d8e9f01d2baf82869049a495cd448cdfe1f4dee94078b960ae9''"

definition HARNESS_DESCRIPTION :: string where
  "HARNESS_DESCRIPTION = ''luhmen managed Docker Engine (schema 1)''"

definition SMOKE_LABEL :: string where
  "SMOKE_LABEL = ''io.luhmen.smoke.run''"

definition PERF_LABEL :: string where
  "PERF_LABEL = ''io.luhmen.perf.run''"

definition newline :: string where
  "newline = [CHR 0x0A]"

definition index_path :: "json_type \<Rightarrow> string list \<Rightarrow> json_type" where
  "index_path v ks = foldl index_member v ks"

definition index_item :: "json_type \<Rightarrow> nat \<Rightarrow> json_type" where
  "index_item v i = (case v of Array vs \<Rightarrow> (case get vs i of Some x \<Rightarrow> x | None \<Rightarrow> Null) | _ \<Rightarrow> Null)"

definition emitted :: "string \<Rightarrow> string option \<Rightarrow> json_type \<Rightarrow> json_type" where
  "emitted check status details =
     (let ms = put_member ''check'' (Str check) (case details of Object ms \<Rightarrow> ms | _ \<Rightarrow> []) in
      Object (case status of None \<Rightarrow> ms | Some s \<Rightarrow> put_member ''status'' (Str s) ms))"

text \<open>\<open>println!\<close> appends to standard output and ends the process when it cannot.\<close>

definition print_line :: "string \<Rightarrow> unit io" where
  "print_line line env w =
     (case syscall (\<lambda>fs. (Ok (), fs(''/dev/stdout'' \<mapsto> Regular
         ((case fs ''/dev/stdout'' of Some (Regular old _) \<Rightarrow> old | _ \<Rightarrow> []) @ line @ newline) (private_file env)))) env w of
        (Failed _, w') \<Rightarrow> (Crashed, w')
      | r \<Rightarrow> r)"

definition emit :: "vm_tools \<Rightarrow> string \<Rightarrow> string option \<Rightarrow> json_type \<Rightarrow> unit io" where
  "emit T check status details = print_line (compact_json T (emitted check status details))"

section \<open>Commands\<close>

text \<open>The harness runs its programs with a latch of its own that nobody cancels.\<close>

definition never_cancelled :: "environment \<Rightarrow> environment" where
  "never_cancelled env = env\<lparr>cancelled := \<lambda>_. False,
     happenings := \<lambda>t argv limit. filter (\<lambda>h. h \<noteq> Interrupted) (happenings env t argv limit)\<rparr>"

definition run_tool :: "command \<Rightarrow> bool \<Rightarrow> program_output io" where
  "run_tool c check =
     bind (\<lambda>env. run_command c (20 * 60 * 1000) (never_cancelled env)) (\<lambda>out.
     after (require (\<not> (check \<and> \<not> succeeded out)) ''command failed'') (return out))"

definition removed_variables :: "string list" where
  "removed_variables = [''DOCKER_HOST'', ''DOCKER_CONTEXT'', ''DOCKER_TLS_VERIFY'', ''DOCKER_CERT_PATH'', ''BUILDX_BUILDER'',
     ''BUILDKIT_HOST'', ''DOCKER_DEFAULT_PLATFORM'', ''COMPOSE_PROJECT_NAME'', ''COMPOSE_FILE'', ''COMPOSE_PROFILES'',
     ''COMPOSE_ENV_FILES'']"

definition clean_environment :: "command \<Rightarrow> command" where
  "clean_environment c = foldl (\<lambda>c name. with_env c name None) c removed_variables"

definition low_hex :: "nat \<Rightarrow> char" where
  "low_hex n = (if n < 10 then char_of (48 + n) else char_of (87 + n))"

fun hex :: "nat \<Rightarrow> string" where
  "hex n = (if n < 16 then [low_hex n] else hex (n div 16) @ [low_hex (n mod 16)])"

declare hex.simps [simp del]

definition fresh_id :: "vm_tools \<Rightarrow> string \<Rightarrow> string io" where
  "fresh_id T purpose =
     bind (observe (\<lambda>env t. decimal (process_id env) @ ''-'' @ decimal (nanoseconds T t) @ ''-'' @ purpose)) (\<lambda>seed.
     return (purpose @ ''-'' @ hex (foldl (\<lambda>n byte. n * 256 + byte) 0 (take 6 (sha256 T seed)))))"

record harness =
  luhmen_binary :: string
  docker_binary :: string
  harness_endpoint :: string
  fixture :: string
  run_id :: string
  label :: string

definition tool_command :: "string \<Rightarrow> string list \<Rightarrow> command" where
  "tool_command name args = with_args (clean_environment \<lparr>program = name, arguments = [], overrides = []\<rparr>) args"

definition json_of :: "vm_tools \<Rightarrow> program_output \<Rightarrow> json_type io" where
  "json_of T out = lift (ok_or (read_json T (stdout out)) ''invalid JSON'')"

definition owned_context :: "json_type \<Rightarrow> string \<Rightarrow> bool" where
  "owned_context contexts end_point \<longleftrightarrow>
     (case contexts of
        Array items \<Rightarrow> length items = 1
          \<and> index_path (hd items) [''Name''] = Str ''luhmen''
          \<and> index_path (hd items) [''Endpoints'', ''docker'', ''Host''] = Str end_point
          \<and> index_path (hd items) [''Metadata'', ''Description''] = Str HARNESS_DESCRIPTION
      | _ \<Rightarrow> False)"

definition verify_context :: "vm_tools \<Rightarrow> harness \<Rightarrow> unit io" where
  "verify_context T h =
     bind (run_tool (tool_command (docker_binary h) [''context'', ''inspect'', ''luhmen'']) True) (\<lambda>out.
     bind (json_of T out) (\<lambda>contexts.
     require (owned_context contexts (harness_endpoint h))
       ''Docker context ownership or endpoint changed; refusing operation''))"

definition docker :: "vm_tools \<Rightarrow> harness \<Rightarrow> string list \<Rightarrow> bool \<Rightarrow> program_output io" where
  "docker T h args check =
     after (verify_context T h)
     (bind (path_exists (fixture h)) (\<lambda>_.
      run_tool (tool_command (docker_binary h) ([''--context'', ''luhmen''] @ args)) check))"

definition docker_text :: "vm_tools \<Rightarrow> harness \<Rightarrow> string list \<Rightarrow> string io" where
  "docker_text T h args = bind (docker T h args True) (\<lambda>out. return (trim (stdout out)))"

definition run_luhmen :: "harness \<Rightarrow> string list \<Rightarrow> program_output io" where
  "run_luhmen h args = run_tool (tool_command (luhmen_binary h) args) True"

definition guest :: "harness \<Rightarrow> string list \<Rightarrow> string io" where
  "guest h args = bind (run_luhmen h (''shell'' # args)) (\<lambda>out. return (trim (stdout out)))"

definition labelled :: "json_type \<Rightarrow> string list \<Rightarrow> harness \<Rightarrow> bool" where
  "labelled found path h \<longleftrightarrow> index_path (index_item found 0) (path @ [label h]) = Str (run_id h)"

fun check_owned :: "vm_tools \<Rightarrow> harness \<Rightarrow> string list \<Rightarrow> unit io" where
  "check_owned T h [] = return ()"
| "check_owned T h (container # rest) =
     bind (docker T h [''inspect'', container] True) (\<lambda>out.
     bind (json_of T out) (\<lambda>found.
     after (require (labelled found [''Config'', ''Labels''] h)
       ''another workload appeared in luhmen; refusing a disruptive operation'')
     (check_owned T h rest)))"

definition assert_owned_containers :: "vm_tools \<Rightarrow> harness \<Rightarrow> unit io" where
  "assert_owned_containers T h =
     bind (docker_text T h [''ps'', ''--all'', ''--quiet'', ''--no-trunc'']) (\<lambda>listed.
     check_owned T h (split_whitespace listed))"

section \<open>Before anything is touched\<close>

fun inside_writable_mount :: "string \<Rightarrow> json_type list \<Rightarrow> bool io" where
  "inside_writable_mount root [] = return False"
| "inside_writable_mount root (m # ms) =
     (case (index_member m ''writable'', index_member m ''path'') of
        (Boolean True, Str path) \<Rightarrow>
          bind (attempt (canonicalize path)) (\<lambda>resolved.
          case resolved of
            Ok q \<Rightarrow> if path_starts_with root q then return True else inside_writable_mount root ms
          | Err e \<Rightarrow> inside_writable_mount root ms)
      | _ \<Rightarrow> inside_writable_mount root ms)"

definition healthy :: "json_type \<Rightarrow> bool" where
  "healthy state \<longleftrightarrow>
     index_member state ''schema_version'' = Numeral ''1'' \<and> index_member state ''name'' = Str ''luhmen''
     \<and> index_member state ''context'' = Str ''luhmen'' \<and> index_member state ''state'' = Str ''Running''
     \<and> index_member state ''context_ready'' = Boolean True \<and> index_member state ''engine_ready'' = Boolean True"

definition vm_matches :: "json_type \<Rightarrow> string \<Rightarrow> string \<Rightarrow> bool" where
  "vm_matches vm directory end_point \<longleftrightarrow>
     index_member vm ''name'' = Str ''luhmen'' \<and> index_member vm ''vmType'' = Str ''vz''
     \<and> index_member vm ''arch'' = Str ''aarch64''
     \<and> end_point = ''unix://'' @ directory @ ''/sock/docker.sock''"

text \<open>The harness for the VM that runs, with a fresh name for the run.\<close>

definition identify_vm :: "vm_tools \<Rightarrow> string \<Rightarrow> string \<Rightarrow> string \<Rightarrow> string \<Rightarrow> (harness \<times> json_type) io" where
  "identify_vm T luhmen fixture_root label_name purpose =
     bind (path_is_dir fixture_root) (\<lambda>present.
     after (require present ''--fixture-root must be an existing directory'')
     (bind (run_tool (tool_command luhmen [''inspect'', ''--json'']) True) (\<lambda>out.
      bind (json_of T out) (\<lambda>state.
      after (require (healthy state) ''start a healthy, owned luhmen VM first'')
      (bind (lift (ok_or (as_str (index_member state ''endpoint'')) ''inspection has no endpoint'')) (\<lambda>end_point.
       bind (lift (ok_or (as_str (index_path state [''vm'', ''dir''])) ''inspection has no VM directory'')) (\<lambda>directory.
       after (require (vm_matches (index_member state ''vm'') directory end_point)
         ''VM identity and Unix socket endpoint do not agree'')
       (bind (canonicalize fixture_root) (\<lambda>root.
        bind (case index_path state [''config'', ''mounts''] of
            Array listed \<Rightarrow> inside_writable_mount root listed | _ \<Rightarrow> return False) (\<lambda>inside.
        after (require inside ''--fixture-root must be inside a configured writable mount'')
        (bind (fresh_id T purpose) (\<lambda>name.
         return (\<lparr>luhmen_binary = luhmen,
                  docker_binary = (case docker_override T of None \<Rightarrow> ''docker'' | Some p \<Rightarrow> p),
                  harness_endpoint = end_point, fixture = path_join root name, run_id = name, label = label_name\<rparr>, state)))))))))))))"

definition preflight :: "vm_tools \<Rightarrow> string \<Rightarrow> string \<Rightarrow> string \<Rightarrow> string \<Rightarrow> (harness \<times> json_type) io" where
  "preflight T luhmen fixture_root label_name purpose =
     bind (identify_vm T luhmen fixture_root label_name purpose) (\<lambda>(h, state).
     bind (docker_text T h [''ps'', ''--all'', ''--quiet'']) (\<lambda>listed.
     after (require (listed = []) ''remove existing containers before continuing'') (return (h, state))))"

section \<open>Probes\<close>

definition engine_ping :: "string \<Rightarrow> unit io" where
  "engine_ping end_point =
     after (require (strip_prefix end_point ''unix://'' \<noteq> None) ''Docker endpoint is not a Unix socket'')
     (bind exchange (\<lambda>reply.
      after (require (utf8_valid reply) ''stream did not contain valid UTF-8'')
      (require (starts_with reply ''HTTP/1.1 200'' \<and> ends_with reply ''OK'') ''Engine API ping failed'')))"

text \<open>
  The deadline bounds the attempts: each of them sleeps half a second, so \<open>fuel\<close> attempts are
  enough when it exceeds the time in half seconds.
\<close>

fun eventually_loop :: "nat \<Rightarrow> nat \<Rightarrow> unit io \<Rightarrow> string \<Rightarrow> unit io" where
  "eventually_loop 0 deadline check failure env w = (Failed failure, w)"
| "eventually_loop (Suc fuel) deadline check failure env w =
     (if now w < deadline then
        (case check env w of
           (Done _, w') \<Rightarrow> (Done (), w')
         | (Failed e, w') \<Rightarrow> (case sleep 500 env w' of (_, w'') \<Rightarrow> eventually_loop fuel deadline check e env w'')
         | (Crashed, w') \<Rightarrow> (Crashed, w'))
      else (Failed failure, w))"

definition eventually_ok :: "unit io \<Rightarrow> nat \<Rightarrow> unit io" where
  "eventually_ok check timeout env w =
     eventually_loop (timeout div 500 + 1) (now w + timeout) check ''readiness deadline expired'' env w"

definition second_piece :: "string \<Rightarrow> string" where
  "second_piece reply =
     (case split_at CRLFCRLF reply of
        None \<Rightarrow> []
      | Some (_, rest) \<Rightarrow> (case split_at CRLFCRLF rest of None \<Rightarrow> rest | Some (body, _) \<Rightarrow> body))"

definition http_get :: "string io" where
  "http_get =
     bind exchange (\<lambda>reply.
     after (require (utf8_valid reply) ''stream did not contain valid UTF-8'')
     (after (require (starts_with reply ''HTTP/1.1 200'') ''HTTP fixture returned a non-200 response'')
     (return (second_piece reply))))"

definition http_check :: "string \<Rightarrow> string \<Rightarrow> unit io" where
  "http_check expected message = bind http_get (\<lambda>body. require (body = expected) message)"

section \<open>The smoke test\<close>

record smoke_args =
  smoke_run :: bool
  smoke_fixture_root :: string
  smoke_luhmen :: string
  with_recovery :: bool
  with_watchers :: bool
  with_slow_shutdown :: bool

definition in_quotes :: "string \<Rightarrow> string" where
  "in_quotes s = [CHR 0x22] @ s @ [CHR 0x22]"

definition in_fixture :: "harness \<Rightarrow> string \<Rightarrow> string" where
  "in_fixture h name = path_join (fixture h) name"

definition shared_directory :: "harness \<Rightarrow> string" where
  "shared_directory h = in_fixture h ''shared''"

definition report_versions :: "vm_tools \<Rightarrow> harness \<Rightarrow> json_type \<Rightarrow> unit io" where
  "report_versions T h state =
     bind (run_luhmen h [''--version'']) (\<lambda>luhmen.
     bind (docker_text T h [''version'', ''--format'', ''{{json .}}'']) (\<lambda>docker_version.
     bind (docker_text T h [''compose'', ''version'', ''--short'']) (\<lambda>compose.
     bind (docker_text T h [''buildx'', ''version'']) (\<lambda>buildx.
     emit T ''preflight'' (Some ''passed'')
       (object [(''run_id'', Str (run_id h)), (''endpoint'', Str (harness_endpoint h)),
          (''settings'', index_member state ''config''),
          (''versions'', object [(''luhmen'', Str (trim (stdout luhmen))), (''docker'', Str docker_version),
             (''compose'', Str compose), (''buildx'', Str buildx)]),
          (''base_image'', Str IMAGE)])))))"

definition dockerfile :: "harness \<Rightarrow> string" where
  "dockerfile h =
     ''FROM '' @ IMAGE @ newline @ ''LABEL '' @ SMOKE_LABEL @ ''='' @ run_id h @ newline
     @ ''COPY index.html /www/index.html'' @ newline
     @ ''RUN test -s /www/index.html && printf built > /built'' @ newline
     @ ''CMD ['' @ in_quotes ''httpd'' @ '','' @ in_quotes ''-f'' @ '','' @ in_quotes ''-p'' @ '','' @ in_quotes ''8080''
     @ '','' @ in_quotes ''-h'' @ '','' @ in_quotes ''/www'' @ '']'' @ newline"

definition run_label :: "harness \<Rightarrow> json_type" where
  "run_label h = object [(SMOKE_LABEL, Str (run_id h))]"

definition data_volume :: json_type where
  "data_volume = object [(''type'', Str ''volume''), (''source'', Str ''persistent''), (''target'', Str ''/data'')]"

definition web_service :: "harness \<Rightarrow> nat \<Rightarrow> json_type" where
  "web_service h port = object
     [(''build'', object [(''context'', Str ''.'')]), (''image'', Str (run_id h @ ''-app:smoke'')),
      (''labels'', run_label h), (''restart'', Str ''unless-stopped''),
      (''ports'', Array [Str (''127.0.0.1:'' @ decimal port @ '':8080'')]), (''cpus'', Numeral ''0.5''),
      (''mem_limit'', Str ''128m''), (''pids_limit'', Numeral ''64''),
      (''volumes'', Array [object [(''type'', Str ''bind''), (''source'', Str (shared_directory h)), (''target'', Str ''/shared'')],
         data_volume]),
      (''healthcheck'', object
        [(''test'', Array (map Str [''CMD'', ''wget'', ''-q'', ''-O'', ''/dev/null'', ''http://127.0.0.1:8080''])),
         (''interval'', Str ''2s''), (''timeout'', Str ''2s''), (''retries'', Numeral ''20'')])]"

definition shutdown_service :: "harness \<Rightarrow> string \<Rightarrow> json_type" where
  "shutdown_service h token = object
     [(''image'', Str IMAGE), (''labels'', run_label h), (''restart'', Str ''unless-stopped''),
      (''stop_grace_period'', Str ''40s''), (''network_mode'', Str ''none''), (''volumes'', Array [data_volume]),
      (''command'', Array [Str ''sh'', Str ''-c'',
         Str (''trap '' @ [CHR 0x27] @ ''if ! test -f /data/shutdown-proof; then sleep 32; fi; printf '' @ token
           @ '' > /data/shutdown-proof; sync; exit 0'' @ [CHR 0x27] @ '' TERM; while :; do sleep 1; done'')])]"

definition compose_document :: "harness \<Rightarrow> smoke_args \<Rightarrow> nat \<Rightarrow> string \<Rightarrow> json_type" where
  "compose_document h a port token =
     (let services = object [(''web'', web_service h port)] in
      object
        [(''services'', if with_slow_shutdown a then set_member ''shutdown-proof'' (shutdown_service h token) services else services),
         (''volumes'', object [(''persistent'', object [(''labels'', run_label h)])]),
         (''networks'', object [(''default'', object [(''labels'', run_label h)])])])"

definition chosen_port :: "vm_tools \<Rightarrow> nat io" where
  "chosen_port T = bind (query (\<lambda>_ t. free_port T t)) lift"

text \<open>The fixture: its token and its port.\<close>

definition make_fixture :: "vm_tools \<Rightarrow> harness \<Rightarrow> smoke_args \<Rightarrow> (string \<times> nat) io" where
  "make_fixture T h a =
     after (create_directory (fixture h))
     (after (set_directory_mode (fixture h) 448)
     (after (create_directory (shared_directory h))
     (bind (fresh_id T ''token'') (\<lambda>token.
      after (write_file (path_join (shared_directory h) ''host.txt'') token)
      (after (write_file (in_fixture h ''index.html'') token)
      (after (write_file (in_fixture h ''Dockerfile'') (dockerfile h))
      (after (write_file (in_fixture h ''.dockerignore'') (''*'' @ newline @ ''!Dockerfile'' @ newline @ ''!index.html'' @ newline))
      (bind (chosen_port T) (\<lambda>port.
       bind (lift (ok_or (pretty_json T (compose_document h a port token)) ''serialize'')) (\<lambda>document.
       after (write_file (in_fixture h ''compose.json'') document)
       (after (emit T ''fixture'' (Some ''created'') (object [(''path'', Str (fixture h)), (''project'', Str (run_id h)),
          (''port'', Numeral (decimal port))]))
       (return (token, port)))))))))))))"

definition check_engine :: "vm_tools \<Rightarrow> harness \<Rightarrow> json_type \<Rightarrow> unit io" where
  "check_engine T h state =
     after (engine_ping (harness_endpoint h))
     (bind (docker_text T h [''info'', ''--format'', ''{{json .}}'']) (\<lambda>out.
      bind (lift (ok_or (read_json T out) ''invalid JSON'')) (\<lambda>info.
      after (require (index_member info ''NCPU'' = index_path state [''config'', ''cpus''])
        ''guest CPU count differs from configuration'')
      (emit T ''engine_api_and_vm_resources'' (Some ''passed'')
        (object [(''cpus'', index_member info ''NCPU''), (''memory_bytes'', index_member info ''MemTotal''),
           (''engine_version'', index_member info ''ServerVersion''), (''driver'', index_member info ''Driver'')])))))"

definition compose_args :: "harness \<Rightarrow> string list \<Rightarrow> string list" where
  "compose_args h extra = [''compose'', ''--project-name'', run_id h, ''--file'', in_fixture h ''compose.json''] @ extra"

text \<open>The container of the web service, once it answers.\<close>

definition start_services :: "vm_tools \<Rightarrow> harness \<Rightarrow> string \<Rightarrow> string io" where
  "start_services T h token =
     bind (docker T h (compose_args h [''up'', ''--build'', ''--detach'', ''--wait'', ''--wait-timeout'', ''90'']) True) (\<lambda>_.
     bind (docker_text T h (compose_args h [''ps'', ''--quiet'', ''web''])) (\<lambda>container.
     after (eventually_ok (http_check token ''wrong fixture response'') 90000) (return container)))"

definition check_mounts :: "vm_tools \<Rightarrow> harness \<Rightarrow> string \<Rightarrow> string \<Rightarrow> unit io" where
  "check_mounts T h container token =
     bind (docker_text T h [''exec'', container, ''cat'', ''/shared/host.txt'']) (\<lambda>seen.
     after (require (seen = token) ''container could not read the host mount'')
     (bind (docker T h [''exec'', container, ''sh'', ''-c'', ''printf %s '' @ in_quotes ''$1'' @ '' > /shared/guest.txt'', ''sh'', token] True) (\<lambda>_.
      bind (read_contents (path_join (shared_directory h) ''guest.txt'')) (\<lambda>written.
      after (require (utf8_valid written) ''stream did not contain valid UTF-8'')
      (after (require (written = token) ''host could not read the container write'')
      (bind (docker T h [''exec'', container, ''sh'', ''-c'', ''printf %s '' @ in_quotes ''$1'' @ '' > /data/probe'', ''sh'', token] True) (\<lambda>_.
       bind (docker T h [''exec'', container, ''nslookup'', ''host.docker.internal''] True) (\<lambda>_.
       bind (docker T h [''exec'', container, ''nslookup'', ''web.''] True) (\<lambda>_.
       emit T ''bind_mounts_and_compose_dns'' (Some ''passed'') (Object []))))))))))"

definition buildx_args :: "harness \<Rightarrow> string list" where
  "buildx_args h = [''buildx'', ''build'', ''--builder'', ''luhmen'', ''--load'', ''--progress'', ''plain'', ''--tag'',
     run_id h @ ''-build:smoke'', ''.'']"

definition check_buildx :: "vm_tools \<Rightarrow> harness \<Rightarrow> unit io" where
  "check_buildx T h =
     bind (docker_text T h [''buildx'', ''inspect'', ''luhmen'']) (\<lambda>buildx.
     after (require (contains_str buildx ''Driver:'' \<and> contains_str buildx ''docker'' \<and> contains_str buildx ''Endpoint:''
       \<and> contains_str buildx ''luhmen'') ''unexpected Buildx builder'')
     (bind (docker T h (buildx_args h) True) (\<lambda>_.
      bind (docker T h (buildx_args h) True) (\<lambda>out.
      after (require (contains_str (stdout out) ''CACHED'' \<or> contains_str (stderr out) ''CACHED'')
        ''Buildx did not report a cached build step'')
      (emit T ''buildx_build_and_cache'' (Some ''passed'') (Object []))))))"

definition seen_by_watcher :: "string \<Rightarrow> string \<Rightarrow> bool" where
  "seen_by_watcher watched events \<longleftrightarrow>
     list_ex (\<lambda>event. ends_with event watched \<and> (starts_with event ''MODIFY'' \<or> starts_with event ''ATTRIB'')) (lines_of events)"

definition check_watchers :: "vm_tools \<Rightarrow> harness \<Rightarrow> unit io" where
  "check_watchers T h =
     (let watched = path_join (shared_directory h) ''watcher.txt'' in
      bind (guest h [''sudo'', ''apt-get'', ''update'', ''-o'', ''APT::Update::Error-Mode=any'']) (\<lambda>_.
      bind (guest h [''sudo'', ''apt-get'', ''install'', ''-y'', ''--no-install-recommends'', ''inotify-tools'']) (\<lambda>_.
      after (write_file watched ''before'')
      (after (spawn (argv_of (tool_command (luhmen_binary h) [''shell'', ''timeout'', ''8'', ''inotifywait'', ''--monitor'',
         ''--format'', ''%e|%w%f'', ''--event'', ''modify,attrib'', watched])))
      (after (sleep 1000)
      (after (write_file watched ''after'')
      (bind (query (\<lambda>_ t. watcher_output T t)) (\<lambda>waited.
       bind (lift waited) (\<lambda>events.
       after (require (utf8_valid events) ''invalid utf-8 sequence'')
       (emit T ''watcher_host_modify'' (Some (if seen_by_watcher watched events then ''passed'' else ''limitation''))
         (object [(''events'', Array (map Str (lines_of events))),
            (''note'', Str ''Host writes may arrive as ATTRIB through Lima; use polling when events are missing'')])))))))))))"

definition check_live_restore :: "vm_tools \<Rightarrow> harness \<Rightarrow> string \<Rightarrow> string \<Rightarrow> unit io" where
  "check_live_restore T h container token =
     bind (docker_text T h [''exec'', container, ''cat'', ''/data/shutdown-proof'']) (\<lambda>proof_text.
     after (require (proof_text = token) ''container did not complete graceful shutdown'')
     (bind (docker_text T h [''info'', ''--format'', ''{{.LiveRestoreEnabled}}'']) (\<lambda>live.
      require (live = ''true'') ''live restore was not restored'')))"

definition check_persistence :: "vm_tools \<Rightarrow> harness \<Rightarrow> smoke_args \<Rightarrow> string \<Rightarrow> string \<Rightarrow> unit io" where
  "check_persistence T h a container token =
     after (eventually_ok (engine_ping (harness_endpoint h)) 120000)
     (after (eventually_ok (http_check token ''wrong response after restart'') 90000)
     (bind (docker_text T h [''exec'', container, ''cat'', ''/data/probe'']) (\<lambda>kept.
      after (require (kept = token) ''volume data changed across restart'')
      (after (if with_slow_shutdown a then check_live_restore T h container token else return ())
      (emit T ''restart_volume_mount_and_port_persistence'' (Some ''passed'') (Object []))))))"

definition check_restart :: "vm_tools \<Rightarrow> harness \<Rightarrow> smoke_args \<Rightarrow> string \<Rightarrow> string \<Rightarrow> unit io" where
  "check_restart T h a container token =
     after (assert_owned_containers T h)
     (bind (run_luhmen h [''restart'', ''--json'']) (\<lambda>_. check_persistence T h a container token))"

definition daemon_pid :: "harness \<Rightarrow> string io" where
  "daemon_pid h = guest h [''sudo'', ''systemctl'', ''show'', ''docker.service'', ''--property=MainPID'', ''--value'']"

definition check_recovery :: "vm_tools \<Rightarrow> harness \<Rightarrow> unit io" where
  "check_recovery T h =
     bind (daemon_pid h) (\<lambda>before.
     bind (guest h [''sudo'', ''systemctl'', ''kill'', ''--kill-whom=main'', ''--signal=SIGKILL'', ''docker.service'']) (\<lambda>_.
     after (eventually_ok
       (bind (daemon_pid h) (\<lambda>current.
        after (require (current \<noteq> before \<and> (case parse_unsigned 32 current of Some n \<Rightarrow> 1 < n | None \<Rightarrow> False))
          ''waiting for Docker recovery'')
        (engine_ping (harness_endpoint h)))) 90000)
     (emit T ''docker_daemon_failure_recovery'' (Some ''passed'') (Object []))))"

definition smoke_inner :: "vm_tools \<Rightarrow> harness \<Rightarrow> json_type \<Rightarrow> smoke_args \<Rightarrow> unit io" where
  "smoke_inner T h state a =
     after (report_versions T h state)
     (bind (make_fixture T h a) (\<lambda>(token, port).
      after (check_engine T h state)
      (bind (start_services T h token) (\<lambda>container.
       after (check_mounts T h container token)
       (after (check_buildx T h)
       (after (if with_watchers a then check_watchers T h else return ())
       (after (check_restart T h a container token)
       (if with_recovery a then check_recovery T h else return ()))))))))"

fun remove_images :: "vm_tools \<Rightarrow> harness \<Rightarrow> string list \<Rightarrow> unit io" where
  "remove_images T h [] = return ()"
| "remove_images T h (ending # rest) =
     (let image = run_id h @ ''-'' @ ending in
      bind (docker T h [''image'', ''inspect'', image] False) (\<lambda>found.
      after (if \<not> succeeded found then return ()
        else bind (docker T h [''image'', ''inspect'', image] True) (\<lambda>out.
          bind (json_of T out) (\<lambda>info.
          after (require (index_path (index_item info 0) [''Config'', ''Labels'', SMOKE_LABEL] = Str (run_id h))
            ''fixture image ownership changed; refusing removal'')
          (bind (docker T h [''image'', ''rm'', image] True) (\<lambda>_. return ())))))
      (remove_images T h rest)))"

definition smoke_cleanup :: "vm_tools \<Rightarrow> harness \<Rightarrow> unit io" where
  "smoke_cleanup T h =
     bind (path_exists (fixture h)) (\<lambda>present.
     if \<not> present then return ()
     else after (verify_context T h)
       (bind (path_exists (in_fixture h ''compose.json'')) (\<lambda>composed.
        after (if composed
          then bind (docker T h (compose_args h [''down'', ''--volumes'', ''--timeout'', ''20'']) True) (\<lambda>_. return ())
          else return ())
        (after (remove_images T h [''app:smoke'', ''build:smoke'', ''proxy:smoke''])
        (emit T ''cleanup'' (Some ''passed'') (object [(''retained_fixture'', Str (fixture h))]))))))"

definition error_details :: "string \<Rightarrow> json_type" where
  "error_details e = object [(''error'', Str e)]"

definition smoke :: "vm_tools \<Rightarrow> smoke_args \<Rightarrow> unit io" where
  "smoke T a =
     after (require (smoke_run a) ''No actions taken. Pass --run to run the suite and restart the luhmen VM.'')
     (bind (preflight T (smoke_luhmen a) (smoke_fixture_root a) SMOKE_LABEL ''luhmen-check'') (\<lambda>(h, state).
      bind (attempt (smoke_inner T h state a)) (\<lambda>result.
      bind (attempt (smoke_cleanup T h)) (\<lambda>cleanup.
      after (case result of Err e \<Rightarrow> emit T ''suite'' (Some ''failed'') (error_details e) | Ok _ \<Rightarrow> return ())
      (case cleanup of
         Err e \<Rightarrow> after (emit T ''cleanup'' (Some ''failed'') (error_details e)) (bail e)
       | Ok _ \<Rightarrow> after (lift result) (emit T ''suite'' (Some ''passed'') (Object [])))))))"

section \<open>The measurements\<close>

record perf_args =
  perf_run :: bool
  perf_fixture_root :: string
  perf_luhmen :: string
  pull :: bool
  iterations :: nat
  workload_files :: nat
  blob_mib :: nat
  idle_seconds :: nat

text \<open>
  The names of the containers are collected while the measurements run and are needed after an
  error, so they are passed along beside the result.
\<close>

type_synonym 'a tracked = "string list \<Rightarrow> (('a, string) result \<times> string list) io"

definition track :: "'a io \<Rightarrow> 'a tracked" where
  "track c names = bind (attempt c) (\<lambda>r. return (r, names))"

definition push_container :: "string \<Rightarrow> unit tracked" where
  "push_container name names = return (Ok (), names @ [name])"

definition tracked_bind :: "'a tracked \<Rightarrow> ('a \<Rightarrow> 'b tracked) \<Rightarrow> 'b tracked" where
  "tracked_bind c k names =
     bind (c names) (\<lambda>(r, names').
     case r of Ok a \<Rightarrow> k a names' | Err e \<Rightarrow> return (Err e, names'))"

fun tracked_each :: "('a \<Rightarrow> unit tracked) \<Rightarrow> 'a list \<Rightarrow> unit tracked" where
  "tracked_each f [] names = return (Ok (), names)"
| "tracked_each f (x # xs) names = tracked_bind (f x) (\<lambda>_. tracked_each f xs) names"

definition clock_now :: "nat io" where
  "clock_now env w = (Done (now w), w)"

definition ensure_image :: "vm_tools \<Rightarrow> harness \<Rightarrow> perf_args \<Rightarrow> unit io" where
  "ensure_image T h a =
     bind (docker T h [''image'', ''inspect'', IMAGE] False) (\<lambda>image.
     if succeeded image then return ()
     else after (require (pull a) ''pinned BusyBox image is missing; pass --pull to download it'')
       (bind (docker T h [''pull'', ''--platform=linux/arm64'', IMAGE] True) (\<lambda>_. return ())))"

definition report_environment :: "vm_tools \<Rightarrow> harness \<Rightarrow> json_type \<Rightarrow> perf_args \<Rightarrow> unit io" where
  "report_environment T h state a =
     bind (attempt (canonicalize (luhmen_binary h))) (\<lambda>resolved.
     bind clock_now (\<lambda>measured.
     bind (run_luhmen h [''--version'']) (\<lambda>luhmen.
     bind (read_contents (case resolved of Ok p \<Rightarrow> p | Err e \<Rightarrow> luhmen_binary h)) (\<lambda>bytes.
     bind (observe (\<lambda>env _. parallelism env)) (\<lambda>cores.
     emit T ''environment'' None (object
       [(''run_id'', Str (run_id h)), (''endpoint'', Str (harness_endpoint h)), (''fixture'', Str (fixture h)),
        (''measured_at_unix'', Numeral (seconds_text T measured)),
        (''host'', object [(''system'', Str (host_os T)), (''machine'', Str (host_arch T)), (''logical_cpus'', Numeral (decimal cores))]),
        (''config'', index_member state ''config''), (''lima'', index_path state [''vm'', ''limaVersion'']), (''image'', Str IMAGE),
        (''luhmen'', Str (trim (stdout luhmen))),
        (''luhmen_entrypoint_sha256'', Str (concat (map (\<lambda>b. [low_hex (b div 16), low_hex (b mod 16)]) (sha256 T bytes)))),
        (''iterations'', Numeral (decimal (iterations a))), (''files'', Numeral (decimal (workload_files a))),
        (''blob_mib'', Numeral (decimal (blob_mib a)))]))))))"

definition report_idle :: "vm_tools \<Rightarrow> harness \<Rightarrow> perf_args \<Rightarrow> unit io" where
  "report_idle T h a =
     bind (guest h [''cat'', ''/proc/meminfo'']) (\<lambda>before.
     after (sleep (idle_seconds a * 1000))
     (bind (guest h [''cat'', ''/proc/meminfo'']) (\<lambda>later.
      emit T ''idle_resources'' None (object [(''interval_seconds'', Numeral (decimal (idle_seconds a))),
        (''guest_memory_before'', Str before), (''guest_memory_after'', Str later)]))))"

definition perf_label_arg :: "harness \<Rightarrow> string" where
  "perf_label_arg h = PERF_LABEL @ ''='' @ run_id h"

text \<open>One start through the wrapper or directly; the first iteration warms up.\<close>

definition measure_start :: "vm_tools \<Rightarrow> harness \<Rightarrow> nat \<times> bool \<Rightarrow> unit tracked" where
  "measure_start T h sample =
     (case sample of (iteration, wrapper) \<Rightarrow>
        let kind = (if wrapper then ''wrapper'' else ''direct'');
            name = run_id h @ ''-start-'' @ kind @ ''-'' @ decimal iteration;
            args = [''run'', ''--name'', name, ''--label'', perf_label_arg h, ''--platform=linux/arm64'', ''--rm'', ''--network=none'',
              IMAGE, ''true''] in
        tracked_bind (push_container name) (\<lambda>_. track
          (bind clock_now (\<lambda>started.
           bind (if wrapper then run_luhmen h (''docker'' # args) else docker T h args True) (\<lambda>_.
           bind clock_now (\<lambda>ended.
           if iteration = 0 then return ()
           else emit T ''sample'' None (object [(''seconds'', Numeral (seconds_text T (ended - started))),
             (''workload'', Str ''warm_container_run_to_exit''), (''invocation'', Str kind),
             (''iteration'', Numeral (decimal iteration))])))))))"

definition start_samples :: "perf_args \<Rightarrow> (nat \<times> bool) list" where
  "start_samples a = concat (map (\<lambda>i. [(i, i mod 2 = 0), (i, i mod 2 \<noteq> 0)]) [0..<iterations a + 1])"

definition fill_script :: string where
  "fill_script = ''mkdir -p /work/src; dd if=/dev/zero of=/work/seed bs=4096 count=1 2>/dev/null; i=0; while [ '' @ in_quotes ''$i''
     @ '' -lt '' @ in_quotes ''$1'' @ '' ]; do cp /work/seed /work/src/f$i; i=$((i+1)); done''"

definition workloads :: "(string \<times> string) list" where
  "workloads =
     [(''metadata'', ''find /work/src -type f -exec stat -c %s {} + | sha256sum''),
      (''read'', ''find /work/src -type f -exec cat {} + | sha256sum''),
      (''write_fsync'', ''dd if=/dev/zero of=/work/blob bs=1048576 count='' @ in_quotes ''$1'' @ '' conv=fsync''),
      (''package_build'', ''tar -czf /work/package.tar.gz -C /work/src .; sha256sum /work/package.tar.gz'')]"

definition measure_workload :: "vm_tools \<Rightarrow> harness \<Rightarrow> perf_args \<Rightarrow> string \<Rightarrow> string \<Rightarrow> nat \<times> string \<times> string \<Rightarrow> unit tracked" where
  "measure_workload T h a name placement sample =
     (case sample of (iteration, workload, script) \<Rightarrow> track
        (bind clock_now (\<lambda>started.
         bind (docker T h [''exec'', name, ''sh'', ''-ec'', script, ''workload'', decimal (blob_mib a)] True) (\<lambda>_.
         bind clock_now (\<lambda>ended.
         if iteration = 0 then return ()
         else emit T ''sample'' None (object [(''seconds'', Numeral (seconds_text T (ended - started))), (''workload'', Str workload),
           (''placement'', Str placement), (''iteration'', Numeral (decimal iteration))]))))))"

definition measure_placement :: "vm_tools \<Rightarrow> harness \<Rightarrow> perf_args \<Rightarrow> string \<times> string \<Rightarrow> unit tracked" where
  "measure_placement T h a place =
     (case place of (placement, mount_arg) \<Rightarrow>
        let name = run_id h @ ''-'' @ placement in
        tracked_bind (push_container name) (\<lambda>_.
        tracked_bind (track (docker T h [''run'', ''--name'', name, ''--label'', perf_label_arg h, ''--platform=linux/arm64'', ''--detach'',
          ''--network=none'', ''--mount'', mount_arg, IMAGE, ''sleep'', ''900''] True)) (\<lambda>_.
        tracked_bind (track (docker T h [''exec'', name, ''sh'', ''-ec'', fill_script, ''seed'', decimal (workload_files a)] True)) (\<lambda>_.
        tracked_each (measure_workload T h a name placement)
          (concat (map (\<lambda>i. map (Pair i) workloads) [0..<iterations a + 1]))))))"

definition measure_http :: "vm_tools \<Rightarrow> nat \<Rightarrow> nat \<Rightarrow> unit tracked" where
  "measure_http T port iteration = track
     (bind clock_now (\<lambda>started.
      bind http_get (\<lambda>_.
      bind clock_now (\<lambda>ended.
      emit T ''sample'' None (object [(''workload'', Str ''localhost_http_new_connection''), (''iteration'', Numeral (decimal iteration)),
        (''seconds'', Numeral (seconds_text T (ended - started))), (''port'', Numeral (decimal port))])))))"

definition measure_published :: "vm_tools \<Rightarrow> harness \<Rightarrow> perf_args \<Rightarrow> unit tracked" where
  "measure_published T h a =
     tracked_bind (track (chosen_port T)) (\<lambda>port.
     let name = run_id h @ ''-http'' in
     tracked_bind (push_container name) (\<lambda>_.
     tracked_bind (track (docker T h [''run'', ''--name'', name, ''--label'', perf_label_arg h, ''--platform=linux/arm64'', ''--detach'',
       ''--publish'', ''127.0.0.1:'' @ decimal port @ '':8080'', IMAGE, ''sh'', ''-ec'',
       ''mkdir /www; printf %s '' @ run_id h @ '' > /www/index.html; exec httpd -f -p 8080 -h /www''] True)) (\<lambda>_.
     tracked_bind (track (eventually_ok (http_check (run_id h) ''wrong HTTP response'') 20000)) (\<lambda>_.
     tracked_each (measure_http T port) [1..<iterations a * 5 + 1]))))"

definition perf_inner :: "vm_tools \<Rightarrow> harness \<Rightarrow> json_type \<Rightarrow> perf_args \<Rightarrow> string \<Rightarrow> unit tracked" where
  "perf_inner T h state a volume =
     tracked_bind (track (ensure_image T h a)) (\<lambda>_.
     tracked_bind (track (create_directory (fixture h))) (\<lambda>_.
     tracked_bind (track (report_environment T h state a)) (\<lambda>_.
     tracked_bind (track (report_idle T h a)) (\<lambda>_.
     tracked_bind (tracked_each (measure_start T h) (start_samples a)) (\<lambda>_.
     tracked_bind (track (docker T h [''volume'', ''create'', ''--label'', perf_label_arg h, volume] True)) (\<lambda>_.
     tracked_bind (tracked_each (measure_placement T h a)
       [(''bind'', ''type=bind,source='' @ fixture h @ '',target=/work''),
        (''volume'', ''type=volume,source='' @ volume @ '',target=/work'')]) (\<lambda>_.
     measure_published T h a)))))))"

fun remove_containers :: "vm_tools \<Rightarrow> harness \<Rightarrow> string list \<Rightarrow> unit io" where
  "remove_containers T h [] = return ()"
| "remove_containers T h (name # rest) =
     bind (docker T h [''container'', ''inspect'', name] False) (\<lambda>found.
     after (if \<not> succeeded found then return ()
       else bind (docker T h [''container'', ''inspect'', name] True) (\<lambda>out.
         bind (json_of T out) (\<lambda>info.
         after (require (index_path (index_item info 0) [''Config'', ''Labels'', PERF_LABEL] = Str (run_id h))
           ''container ownership label changed'')
         (bind (docker T h [''container'', ''rm'', ''--force'', name] True) (\<lambda>_. return ())))))
     (remove_containers T h rest))"

definition remove_volume :: "vm_tools \<Rightarrow> harness \<Rightarrow> string \<Rightarrow> unit io" where
  "remove_volume T h volume =
     bind (docker T h [''volume'', ''inspect'', volume] False) (\<lambda>found.
     if \<not> succeeded found then return ()
     else bind (docker T h [''volume'', ''inspect'', volume] True) (\<lambda>out.
       bind (json_of T out) (\<lambda>info.
       after (require (index_path (index_item info 0) [''Labels'', PERF_LABEL] = Str (run_id h))
         ''volume ownership label changed'')
       (bind (docker T h [''volume'', ''rm'', volume] True) (\<lambda>_. return ())))))"

definition perf_cleanup :: "vm_tools \<Rightarrow> harness \<Rightarrow> string list \<Rightarrow> string \<Rightarrow> unit io" where
  "perf_cleanup T h containers volume =
     after (remove_containers T h (rev containers))
     (after (remove_volume T h volume)
     (emit T ''cleanup'' (Some ''passed'') (object [(''retained_fixture'', Str (fixture h))])))"

definition perf :: "vm_tools \<Rightarrow> perf_args \<Rightarrow> unit io" where
  "perf T a =
     after (require (perf_run a) ''No actions taken. Pass --run to measure the otherwise idle VM.'')
     (bind (preflight T (perf_luhmen a) (perf_fixture_root a) PERF_LABEL ''luhmen-perf'') (\<lambda>(h, state).
      let volume = run_id h @ ''-data'' in
      bind (perf_inner T h state a volume []) (\<lambda>(result, containers).
      bind (attempt (perf_cleanup T h containers volume)) (\<lambda>cleanup.
      case and_then result (\<lambda>_. cleanup) of
        Err e \<Rightarrow> after (emit T ''suite'' (Some ''failed'') (error_details e)) (bail e)
      | Ok _ \<Rightarrow> emit T ''suite'' (Some ''passed'') (Object [])))))"

end
