(* ===== verification/Vm_Harness_Safety.thy ===== *)
theory Vm_Harness_Safety
  imports Vm_Harness
begin

text \<open>
  What the harness may do to a VM. \<open>justified\<close> says when a command of a run is allowed: Docker is
  only used through the verified context, a container, volume or image is only removed after
  its inspection has shown the label of the run, and the VM is only restarted after every
  container has. The smoke test and the measurements keep to it, cleanups included.
\<close>

section \<open>Commands with a reason inside the run\<close>

text \<open>\<open>J lo hi a\<close>: between the ticks \<open>lo\<close> and \<open>hi\<close> there was a reason for the command \<open>a\<close>.\<close>

definition adds_during :: "(nat \<Rightarrow> nat \<Rightarrow> string list \<Rightarrow> bool) \<Rightarrow> world \<Rightarrow> world \<Rightarrow> bool" where
  "adds_during J w w' \<longleftrightarrow> clock w \<le> clock w' \<and>
     (\<exists>l. commands w' = commands w @ l \<and> (\<forall>a\<in>set l. J (clock w) (clock w') a))"

definition widening :: "(nat \<Rightarrow> nat \<Rightarrow> string list \<Rightarrow> bool) \<Rightarrow> bool" where
  "widening J \<longleftrightarrow> (\<forall>lo hi lo' hi' a. J lo hi a \<longrightarrow> lo' \<le> lo \<longrightarrow> hi \<le> hi' \<longrightarrow> J lo' hi' a)"

lemma wideningD: "widening J \<Longrightarrow> J lo hi a \<Longrightarrow> lo' \<le> lo \<Longrightarrow> hi \<le> hi' \<Longrightarrow> J lo' hi' a"
  by (simp add: widening_def)

lemma adds_during_trans:
  assumes "widening J" "adds_during J u v" "adds_during J v w"
  shows "adds_during J u w"
proof -
  obtain l m where "commands v = commands u @ l" "\<forall>a\<in>set l. J (clock u) (clock v) a"
    and "commands w = commands v @ m" "\<forall>a\<in>set m. J (clock v) (clock w) a"
    and le: "clock u \<le> clock v" "clock v \<le> clock w"
    using assms(2,3) by (auto simp: adds_during_def)
  moreover from this have "\<forall>a\<in>set (l @ m). J (clock u) (clock w) a"
    using le wideningD [OF assms(1)] by (metis Un_iff order_refl set_append)
  ultimately show ?thesis unfolding adds_during_def by (intro conjI exI [of _ "l @ m"]) auto
qed

lemma adds_during_refl: "adds_during J w w"
  by (simp add: adds_during_def)

text \<open>A continuation may run one more command when the first part has given the reason for it.\<close>

lemma obeys_bind_reason:
  assumes J: "widening J" and c: "obeys env (adds_during J) c"
    and reason: "\<And>a w w'. c env w = (Done a, w') \<Longrightarrow> J (clock w) (clock w') (x a)"
    and k: "\<And>a. obeys env (adds_during (\<lambda>lo hi b. J lo hi b \<or> b = x a)) (k a)"
  shows "obeys env (adds_during J) (bind c k)"
proof (rule obeysI)
  fix w r w2
  assume run: "bind c k env w = (r, w2)"
  obtain s w1 where first_part: "c env w = (s, w1)" by fastforce
  have R: "adds_during J w w1" by (rule obeysD [OF c first_part])
  show "adds_during J w w2"
  proof (cases s)
    case (Done a)
    with run first_part have "k a env w1 = (r, w2)" by (simp add: bind_def)
    from obeysD [OF k this] obtain m where m: "commands w2 = commands w1 @ m" "clock w1 \<le> clock w2"
      "\<forall>b\<in>set m. J (clock w1) (clock w2) b \<or> b = x a"
      by (auto simp: adds_during_def)
    obtain l where l: "commands w1 = commands w @ l" "clock w \<le> clock w1" "\<forall>b\<in>set l. J (clock w) (clock w1) b"
      using R by (auto simp: adds_during_def)
    have x: "J (clock w) (clock w1) (x a)" using reason first_part Done by simp
    have "J (clock w) (clock w2) b" if "b \<in> set (l @ m)" for b
      using that l(2,3) m(2,3) x wideningD [OF J] by (metis Un_iff order_refl set_append)
    with l m show ?thesis unfolding adds_during_def by (intro conjI exI [of _ "l @ m"]) auto
  qed (use run first_part R in \<open>auto simp: bind_def\<close>)
qed

section \<open>Reasons\<close>

definition verified :: "environment \<Rightarrow> vm_tools \<Rightarrow> harness \<Rightarrow> nat \<Rightarrow> nat \<Rightarrow> bool" where
  "verified env T h lo hi \<longleftrightarrow>
     (\<exists>w w'. verify_context T h env w = (Done (), w') \<and> lo \<le> clock w \<and> clock w' \<le> hi)"

definition label_reported :: "environment \<Rightarrow> vm_tools \<Rightarrow> harness \<Rightarrow> string list \<Rightarrow> string list \<Rightarrow> nat \<Rightarrow> nat \<Rightarrow> bool" where
  "label_reported env T h ask path lo hi \<longleftrightarrow>
     (\<exists>w out w' info. docker T h ask True env w = (Done out, w') \<and> lo \<le> clock w \<and> clock w' \<le> hi \<and>
        read_json T (stdout out) = Some info \<and> index_path (index_item info 0) path = Str (run_id h))"

text \<open>The containers were listed and each of them showed the label of the run.\<close>

definition all_owned :: "environment \<Rightarrow> vm_tools \<Rightarrow> harness \<Rightarrow> nat \<Rightarrow> nat \<Rightarrow> bool" where
  "all_owned env T h lo hi \<longleftrightarrow>
     (\<exists>w listed w'. docker_text T h [''ps'', ''--all'', ''--quiet'', ''--no-trunc''] env w = (Done listed, w') \<and>
        lo \<le> clock w \<and> clock w' \<le> hi \<and>
        (\<forall>c\<in>set (split_whitespace listed). label_reported env T h [''inspect'', c] [''Config'', ''Labels'', label h] lo hi))"

text \<open>A removal, the inspection that goes before it and where it shows the label.\<close>

definition removes :: "string list \<Rightarrow> string list \<Rightarrow> string list \<Rightarrow> bool" where
  "removes args ask path \<longleftrightarrow> (\<exists>name.
     args = [''container'', ''rm'', ''--force'', name] \<and> ask = [''container'', ''inspect'', name] \<and> path = [''Config'', ''Labels'', PERF_LABEL] \<or>
     args = [''volume'', ''rm'', name] \<and> ask = [''volume'', ''inspect'', name] \<and> path = [''Labels'', PERF_LABEL] \<or>
     args = [''image'', ''rm'', name] \<and> ask = [''image'', ''inspect'', name] \<and> path = [''Config'', ''Labels'', SMOKE_LABEL])"

definition disrupts :: "string list \<Rightarrow> bool" where
  "disrupts args \<longleftrightarrow> args = [''restart'', ''--json''] \<or>
     args = [''shell'', ''sudo'', ''systemctl'', ''kill'', ''--kill-whom=main'', ''--signal=SIGKILL'', ''docker.service'']"

definition justified ::
    "environment \<Rightarrow> vm_tools \<Rightarrow> harness \<Rightarrow> string list set \<Rightarrow> nat \<Rightarrow> nat \<Rightarrow> string list \<Rightarrow> bool" where
  "justified env T h X lo hi a \<longleftrightarrow> a \<in> X \<or> kill_command a \<or>
     a = [docker_binary h, ''context'', ''inspect'', ''luhmen''] \<or>
     (\<exists>args. a = luhmen_binary h # args \<and> (disrupts args \<longrightarrow> all_owned env T h lo hi)) \<or>
     (\<exists>args. a = docker_binary h # ''--context'' # ''luhmen'' # args \<and> verified env T h lo hi \<and>
        (\<forall>ask path. removes args ask path \<longrightarrow> label_reported env T h ask path lo hi))"

lemma widening_reasons:
  "verified env T h lo hi \<Longrightarrow> lo' \<le> lo \<Longrightarrow> hi \<le> hi' \<Longrightarrow> verified env T h lo' hi'"
  "label_reported env T h ask path lo hi \<Longrightarrow> lo' \<le> lo \<Longrightarrow> hi \<le> hi' \<Longrightarrow> label_reported env T h ask path lo' hi'"
  "all_owned env T h lo hi \<Longrightarrow> lo' \<le> lo \<Longrightarrow> hi \<le> hi' \<Longrightarrow> all_owned env T h lo' hi'"
proof -
  show reported: "label_reported env T h ask path lo hi \<Longrightarrow> lo' \<le> lo \<Longrightarrow> hi \<le> hi' \<Longrightarrow> label_reported env T h ask path lo' hi'" for ask path
    unfolding label_reported_def by (meson le_trans)
  show "all_owned env T h lo hi \<Longrightarrow> lo' \<le> lo \<Longrightarrow> hi \<le> hi' \<Longrightarrow> all_owned env T h lo' hi'"
    unfolding all_owned_def by (meson le_trans reported)
qed (unfold verified_def, meson le_trans)

lemma widening_justified: "widening (justified env T h X)"
  unfolding widening_def
proof (intro allI impI)
  fix lo hi lo' hi' a
  assume just: "justified env T h X lo hi a" and le: "lo' \<le> lo" "hi \<le> hi'"
  note widen = widening_reasons [OF _ le]
  show "justified env T h X lo' hi' a"
    using just unfolding justified_def by (elim disjE exE conjE) (simp_all add: widen)
qed

lemma justified_insert: "(\<lambda>lo hi b. justified env T h X lo hi b \<or> b = x) = justified env T h (insert x X)"
  by (auto simp: justified_def fun_eq_iff)

abbreviation keeps_rules :: "environment \<Rightarrow> vm_tools \<Rightarrow> harness \<Rightarrow> string list set \<Rightarrow> 'a io \<Rightarrow> bool" where
  "keeps_rules env T h X \<equiv> obeys env (adds_during (justified env T h X))"

interpretation rules: runner_relation env' "adds_during (justified env T h X)" "\<lambda>a. \<forall>t. justified env T h X t t a"
  for env' env T h X
proof unfold_locales
  show "adds_during (justified env T h X) w w" for w by (rule adds_during_refl)
  show "adds_during (justified env T h X) u v \<Longrightarrow> adds_during (justified env T h X) v w \<Longrightarrow>
    adds_during (justified env T h X) u w" for u v w
    by (rule adds_during_trans [OF widening_justified])
qed (auto simp: adds_during_def justified_def)

section \<open>Steps without commands\<close>

context world_relation begin

lemma print_line: "obeys env R (print_line line)"
  using obeysD [OF syscall]
  by (auto simp: obeys_def print_line_def split: prod.splits outcome.splits)

lemma emit: "obeys env R (emit T check status details)"
  unfolding emit_def by (rule print_line)

lemma file_steps: "obeys env R (create_directory p)" "obeys env R (write_file p bytes)"
proof -
  have "obeys env R (truncate_file p permissions)" for permissions
    using obeysD [OF syscall] by (auto simp: obeys_def truncate_file_def)
  then show "obeys env R (write_file p bytes)" unfolding write_file_def by (intro bind write_all)
qed (simp add: create_directory_def syscall)

lemma readings: "obeys env R (fresh_id T purpose)" "obeys env R clock_now" "obeys env R (chosen_port T)"
  "obeys env R (json_of T out)"
  unfolding fresh_id_def chosen_port_def json_of_def by (intro basic observe | simp add: obeys_def clock_now_def refl)+

lemma probes: "obeys env R (engine_ping e)" "obeys env R http_get" "obeys env R (http_check expected message)"
  unfolding engine_ping_def http_check_def http_get_def by (intro basic)+

lemma eventually: "obeys env R c \<Longrightarrow> obeys env R (eventually_ok c timeout)"
proof -
  assume c: "obeys env R c"
  have "R w w'" if "eventually_loop fuel deadline c failure env w = (r, w')" for fuel deadline failure w r w'
    using that
  proof (induction fuel arbitrary: failure w)
    case (Suc fuel)
    obtain s w1 where check: "c env w = (s, w1)" by fastforce
    note R1 = obeysD [OF c check]
    show ?case
    proof (cases "now w < deadline")
      case True
      show ?thesis
      proof (cases s)
        case (Failed e)
        obtain u w2 where nap: "Hostfs.sleep 500 env w1 = (u, w2)" by fastforce
        have "eventually_loop fuel deadline c e env w2 = (r, w')" using Suc(2) True by (simp add: check Failed nap)
        from Suc(1) [OF this] R1 obeysD [OF sleep nap] show ?thesis by (blast intro: trans)
      qed (use Suc(2) True R1 in \<open>simp_all add: check\<close>)
    qed (use Suc(2) refl in simp)
  qed (simp add: refl)
  then show ?thesis unfolding obeys_def eventually_ok_def by blast
qed

lemma inside_writable_mount: "obeys env R (inside_writable_mount root ms)"
proof (induction ms)
  case (Cons m ms)
  then show ?case
    by (auto intro!: basic choice split: json_type.split bool.split result.split)
qed (simp add: pure)

lemmas quiet_steps = emit file_steps readings probes eventually inside_writable_mount

end

section \<open>Commands of the harness\<close>

lemma argv_tool: "argv_of (tool_command name args) = name # args"
proof -
  have "argv_of (foldl (\<lambda>c n. with_env c n None) c names) = argv_of c" for c names
    by (induction names arbitrary: c) simp_all
  then show ?thesis by (simp add: tool_command_def clean_environment_def) (simp add: argv_of_def)
qed

lemma keeps_run_tool:
  assumes "\<And>t. justified env T h X t t (argv_of c)"
  shows "keeps_rules env T h X (run_tool c check)"
proof -
  have "obeys (never_cancelled env) (adds_during (justified env T h X)) (run_command c t)" for t
    using assms by (intro rules.run_command) simp
  then have "keeps_rules env T h X (\<lambda>env. run_command c t (never_cancelled env))" for t
    by (simp add: obeys_def)
  then show ?thesis unfolding run_tool_def by (intro rules.basic)
qed

lemma keeps_verify: "keeps_rules env T h X (verify_context T h)"
  unfolding verify_context_def
  by (intro rules.basic rules.readings keeps_run_tool) (simp add: argv_tool justified_def)

lemma keeps_docker_known:
  assumes "docker_binary h # ''--context'' # ''luhmen'' # args \<in> X"
  shows "keeps_rules env T h X (docker T h args check)"
  unfolding docker_def
  by (intro rules.basic keeps_verify keeps_run_tool) (simp add: argv_tool justified_def assms)

lemma keeps_docker:
  assumes "\<And>ask path. \<not> removes args ask path"
  shows "keeps_rules env T h X (docker T h args check)"
  unfolding docker_def
proof (rule obeys_bind_reason [where x = "\<lambda>_. docker_binary h # ''--context'' # ''luhmen'' # args"])
  show "widening (justified env T h X)" by (rule widening_justified)
  show "keeps_rules env T h X (verify_context T h)" by (rule keeps_verify)
  show "justified env T h X (clock w) (clock w') (docker_binary h # ''--context'' # ''luhmen'' # args)"
    if "verify_context T h env w = (Done u, w')" for u w w'
    using that assms unfolding justified_def verified_def by (cases u) fastforce
  show "obeys env (adds_during (\<lambda>lo hi b. justified env T h X lo hi b \<or> b = docker_binary h # ''--context'' # ''luhmen'' # args))
      (bind (path_exists (fixture h)) (\<lambda>_. run_tool (tool_command (docker_binary h) ([''--context'', ''luhmen''] @ args)) check))"
    unfolding justified_insert by (intro rules.basic keeps_run_tool) (simp add: argv_tool justified_def)
qed

lemma keeps_docker_text: "(\<And>ask path. \<not> removes args ask path) \<Longrightarrow> keeps_rules env T h X (docker_text T h args)"
  unfolding docker_text_def by (intro rules.basic keeps_docker)

lemma keeps_luhmen: "\<not> disrupts args \<Longrightarrow> keeps_rules env T h X (run_luhmen h args)"
  unfolding run_luhmen_def by (intro keeps_run_tool) (simp add: argv_tool justified_def)

lemma keeps_luhmen_known: "luhmen_binary h # args \<in> X \<Longrightarrow> keeps_rules env T h X (run_luhmen h args)"
  unfolding run_luhmen_def by (intro keeps_run_tool) (simp add: argv_tool justified_def)

lemma keeps_guest: "\<not> disrupts (''shell'' # args) \<Longrightarrow> keeps_rules env T h X (guest h args)"
  unfolding guest_def by (intro rules.basic keeps_luhmen)

lemma keeps_guest_known: "luhmen_binary h # ''shell'' # args \<in> X \<Longrightarrow> keeps_rules env T h X (guest h args)"
  unfolding guest_def by (intro rules.basic keeps_luhmen_known)

section \<open>Removals and restarts\<close>

lemma clock_mono: "keeps_rules env T h X c \<Longrightarrow> c env w = (r, w') \<Longrightarrow> clock w \<le> clock w'"
  by (auto simp: adds_during_def dest: obeysD)

lemma docker_verified:
  assumes "docker T h args check env w = (Done out, w')"
  shows "verified env T h (clock w) (clock w')"
proof -
  obtain u w1 where v: "verify_context T h env w = (Done u, w1)"
    and rest: "bind (path_exists (fixture h)) (\<lambda>_. run_tool (tool_command (docker_binary h) ([''--context'', ''luhmen''] @ args)) check) env w1
      = (Done out, w')"
    using assms unfolding docker_def by (auto elim: bind_DoneE)
  have "keeps_rules env T h {docker_binary h # [''--context'', ''luhmen''] @ args}
      (bind (path_exists (fixture h)) (\<lambda>_. run_tool (tool_command (docker_binary h) ([''--context'', ''luhmen''] @ args)) check))"
    by (intro rules.basic keeps_run_tool) (simp add: argv_tool justified_def)
  from clock_mono [OF this rest] v show ?thesis unfolding verified_def by (cases u) blast
qed

lemma removes_asks: "removes args ask path \<Longrightarrow> \<not> removes ask ask' path'"
  by (auto simp: removes_def)

lemma keeps_removal:
  assumes rm: "removes args ask path"
  shows "keeps_rules env T h X (bind (docker T h ask True) (\<lambda>out. bind (json_of T out) (\<lambda>info.
    after (require (index_path (index_item info 0) path = Str (run_id h)) message)
    (bind (docker T h args True) (\<lambda>_. return ())))))"
proof -
  let ?x = "docker_binary h # ''--context'' # ''luhmen'' # args"
  let ?ask = "bind (docker T h ask True) (\<lambda>out. bind (json_of T out) (\<lambda>info.
    require (index_path (index_item info 0) path = Str (run_id h)) message))"
  have ask: "keeps_rules env T h X (docker T h ask True)" by (rule keeps_docker) (rule removes_asks [OF rm])
  have "keeps_rules env T h X (bind ?ask (\<lambda>_. bind (docker T h args True) (\<lambda>_. return ())))"
  proof (rule obeys_bind_reason [where x = "\<lambda>_. ?x", OF widening_justified])
    show "keeps_rules env T h X ?ask" by (intro rules.basic ask rules.readings)
    show "justified env T h X (clock w) (clock w') ?x" if run: "?ask env w = (Done u, w')" for u w w'
    proof -
      obtain out w1 info where out: "docker T h ask True env w = (Done out, w1)"
        and "json_of T out env w1 = (Done info, w')" "index_path (index_item info 0) path = Str (run_id h)"
        using run by (auto elim!: bind_DoneE dest!: require_DoneD)
      then have info: "read_json T (stdout out) = Some info" "w1 = w'"
        by (auto simp: json_of_def dest!: lift_DoneD)
      have "label_reported env T h ask path (clock w) (clock w')"
        unfolding label_reported_def using out info \<open>index_path _ _ = _\<close> by blast
      moreover have "verified env T h (clock w) (clock w')" using docker_verified [OF out] info(2) by simp
      moreover have "ask' = ask \<and> path' = path" if "removes args ask' path'" for ask' path'
        using rm that by (auto simp: removes_def)
      ultimately show ?thesis unfolding justified_def by blast
    qed
    show "obeys env (adds_during (\<lambda>lo hi b. justified env T h X lo hi b \<or> b = ?x)) (bind (docker T h args True) (\<lambda>_. return ()))"
      unfolding justified_insert by (intro rules.basic keeps_docker_known) simp
  qed
  then show ?thesis by (simp add: bind_assoc)
qed

lemma keeps_check_owned: "keeps_rules env T h X (check_owned T h cs)"
proof (induction cs)
  case (Cons c cs)
  then show ?case
    unfolding check_owned.simps by (intro rules.basic rules.readings keeps_docker) (simp_all add: removes_def)
qed (simp add: rules.pure)

lemma keeps_assert_owned: "keeps_rules env T h X (assert_owned_containers T h)"
  unfolding assert_owned_containers_def
  by (intro rules.basic keeps_check_owned keeps_docker_text) (simp add: removes_def)

lemma check_owned_reported:
  "check_owned T h cs env w = (Done u, w') \<Longrightarrow> c \<in> set cs \<Longrightarrow>
     label_reported env T h [''inspect'', c] [''Config'', ''Labels'', label h] (clock w) (clock w')"
proof (induction cs arbitrary: w)
  case (Cons d cs)
  obtain out w1 info where out: "docker T h [''inspect'', d] True env w = (Done out, w1)"
    and json: "json_of T out env w1 = (Done info, w1)" "labelled info [''Config'', ''Labels''] h"
    and rest: "check_owned T h cs env w1 = (Done u, w')"
    using Cons(2) by (auto elim!: bind_DoneE dest!: require_DoneD simp: json_of_def dest: lift_DoneD)
  have "keeps_rules env T h {} (docker T h [''inspect'', d] True)" by (rule keeps_docker) (simp add: removes_def)
  note le = clock_mono [OF this out] clock_mono [OF keeps_check_owned rest]
  show ?case
  proof (cases "c = d")
    case True
    have "read_json T (stdout out) = Some info" using json(1) by (auto simp: json_of_def dest: lift_DoneD)
    then show ?thesis unfolding label_reported_def True using out json(2) le by (auto simp: labelled_def)
  next
    case False
    with Cons have "label_reported env T h [''inspect'', c] [''Config'', ''Labels'', label h] (clock w1) (clock w')"
      using rest by simp
    from widening_reasons(2) [OF this le(1) order_refl] show ?thesis .
  qed
qed simp

lemma assert_owned_Done:
  assumes "assert_owned_containers T h env w = (Done u, w')"
  shows "all_owned env T h (clock w) (clock w')"
proof -
  obtain listed w1 where listed: "docker_text T h [''ps'', ''--all'', ''--quiet'', ''--no-trunc''] env w = (Done listed, w1)"
    and each: "check_owned T h (split_whitespace listed) env w1 = (Done u, w')"
    using assms unfolding assert_owned_containers_def by (auto elim: bind_DoneE)
  have "keeps_rules env T h {} (docker_text T h [''ps'', ''--all'', ''--quiet'', ''--no-trunc''])"
    by (rule keeps_docker_text) (simp add: removes_def)
  note le = clock_mono [OF this listed] clock_mono [OF keeps_check_owned each]
  have "label_reported env T h [''inspect'', c] [''Config'', ''Labels'', label h] (clock w) (clock w')"
    if "c \<in> set (split_whitespace listed)" for c
    using widening_reasons(2) [OF check_owned_reported [OF each that] le(1) order_refl] .
  with listed le show ?thesis unfolding all_owned_def by blast
qed

section \<open>The smoke test\<close>

lemmas keeps_steps = rules.basic rules.quiet_steps keeps_docker keeps_docker_text keeps_luhmen keeps_guest

lemma keeps_report_versions: "keeps_rules env T h X (report_versions T h state)"
  unfolding report_versions_def by (intro keeps_steps) (simp_all add: removes_def disrupts_def)

lemma keeps_make_fixture: "keeps_rules env T h X (make_fixture T h a)"
  unfolding make_fixture_def by (intro keeps_steps)

lemma keeps_check_engine: "keeps_rules env T h X (check_engine T h state)"
  unfolding check_engine_def by (intro keeps_steps) (simp_all add: removes_def)

lemma keeps_start_services: "keeps_rules env T h X (start_services T h token)"
  unfolding start_services_def compose_args_def by (intro keeps_steps) (simp_all add: removes_def)

lemma keeps_check_mounts: "keeps_rules env T h X (check_mounts T h container token)"
  unfolding check_mounts_def by (intro keeps_steps) (simp_all add: removes_def)

lemma keeps_check_buildx: "keeps_rules env T h X (check_buildx T h)"
  unfolding check_buildx_def buildx_args_def by (intro keeps_steps) (simp_all add: removes_def)

lemma keeps_check_watchers: "keeps_rules env T h X (check_watchers T h)"
  unfolding check_watchers_def Let_def
  by (intro keeps_steps rules.spawn) (simp_all add: disrupts_def argv_tool justified_def)

lemma keeps_check_persistence: "keeps_rules env T h X (check_persistence T h a container token)"
  unfolding check_persistence_def check_live_restore_def
  by (intro keeps_steps rules.choice) (simp_all add: removes_def)

lemma keeps_restarting:
  "luhmen_binary h # [''restart'', ''--json''] \<in> X \<Longrightarrow>
     keeps_rules env T h X (bind (run_luhmen h [''restart'', ''--json'']) (\<lambda>_. check_persistence T h a container token))"
  by (intro rules.bind keeps_luhmen_known keeps_check_persistence)

lemma justified_owned:
  "all_owned env T h lo hi \<Longrightarrow> justified env T h X lo hi (luhmen_binary h # args)"
  unfolding justified_def by blast

lemma keeps_check_restart: "keeps_rules env T h X (check_restart T h a container token)"
  unfolding check_restart_def
proof (rule obeys_bind_reason [where x = "\<lambda>_. luhmen_binary h # [''restart'', ''--json'']", OF widening_justified keeps_assert_owned])
  show "justified env T h X (clock w) (clock w') (luhmen_binary h # [''restart'', ''--json''])"
    if "assert_owned_containers T h env w = (Done u, w')" for u w w'
    by (rule justified_owned [OF assert_owned_Done [OF that]])
  show "obeys env (adds_during (\<lambda>lo hi b. justified env T h X lo hi b \<or> b = luhmen_binary h # [''restart'', ''--json'']))
      (bind (run_luhmen h [''restart'', ''--json'']) (\<lambda>_. check_persistence T h a container token))"
    unfolding justified_insert by (rule keeps_restarting) simp
qed

lemma restart_owned:
  assumes "check_restart T h a container token env w = (Done u, w')"
  shows "all_owned env T h (clock w) (clock w')"
proof -
  obtain v w1 where owned: "assert_owned_containers T h env w = (Done v, w1)"
    and rest: "bind (run_luhmen h [''restart'', ''--json'']) (\<lambda>_. check_persistence T h a container token) env w1 = (Done u, w')"
    using assms unfolding check_restart_def by (auto elim: bind_DoneE)
  have "clock w1 \<le> clock w'"
    by (rule clock_mono [OF keeps_restarting rest]) (rule insertI1)
  then show ?thesis using widening_reasons(3) [OF assert_owned_Done [OF owned] order_refl] by blast
qed

lemma keeps_check_recovery:
  assumes "luhmen_binary h # [''shell'', ''sudo'', ''systemctl'', ''kill'', ''--kill-whom=main'', ''--signal=SIGKILL'', ''docker.service''] \<in> X"
  shows "keeps_rules env T h X (check_recovery T h)"
  unfolding check_recovery_def daemon_pid_def
  by (intro rules.basic rules.quiet_steps keeps_guest keeps_guest_known) (use assms in \<open>simp_all add: disrupts_def\<close>)

abbreviation daemon_kill :: "string list" where
  "daemon_kill \<equiv> [''shell'', ''sudo'', ''systemctl'', ''kill'', ''--kill-whom=main'', ''--signal=SIGKILL'', ''docker.service'']"

lemma keeps_smoke_inner: "keeps_rules env T h X (smoke_inner T h state a)"
proof -
  have "keeps_rules env T h X (after (check_restart T h a container token)
      (if with_recovery a then check_recovery T h else return ()))" for container token
  proof (rule obeys_bind_reason [where x = "\<lambda>_. luhmen_binary h # daemon_kill", OF widening_justified keeps_check_restart])
    show "justified env T h X (clock w) (clock w') (luhmen_binary h # daemon_kill)"
      if "check_restart T h a container token env w = (Done u, w')" for u w w'
      by (rule justified_owned [OF restart_owned [OF that]])
    show "obeys env (adds_during (\<lambda>lo hi b. justified env T h X lo hi b \<or> b = luhmen_binary h # daemon_kill))
        (if with_recovery a then check_recovery T h else return ())"
      unfolding justified_insert by (intro rules.choice rules.pure keeps_check_recovery) simp
  qed
  note tail = this
  show ?thesis
    unfolding smoke_inner_def case_prod_unfold
    by (rule rules.bind [OF keeps_report_versions rules.bind [OF keeps_make_fixture rules.bind [OF keeps_check_engine
        rules.bind [OF keeps_start_services rules.bind [OF keeps_check_mounts rules.bind [OF keeps_check_buildx
        rules.bind [OF rules.choice [OF keeps_check_watchers rules.pure(1)] tail]]]]]]])
qed

lemma keeps_remove_images: "keeps_rules env T h X (remove_images T h endings)"
proof (induction endings)
  case (Cons e es)
  have "removes [''image'', ''rm'', name] [''image'', ''inspect'', name] [''Config'', ''Labels'', SMOKE_LABEL]" for name
    by (simp add: removes_def)
  then show ?case
    unfolding remove_images.simps Let_def
    by (intro rules.bind rules.choice rules.pure Cons keeps_removal keeps_docker) (simp_all add: removes_def)
qed (simp add: rules.pure)

lemma keeps_smoke_cleanup: "keeps_rules env T h X (smoke_cleanup T h)"
  unfolding smoke_cleanup_def compose_args_def
  by (intro rules.basic rules.choice rules.emit keeps_verify keeps_remove_images keeps_docker) (simp_all add: removes_def)

section \<open>The measurements\<close>

definition tracked_keeps :: "environment \<Rightarrow> vm_tools \<Rightarrow> harness \<Rightarrow> string list set \<Rightarrow> 'a tracked \<Rightarrow> bool" where
  "tracked_keeps env T h X c \<longleftrightarrow> (\<forall>names. keeps_rules env T h X (c names))"

lemma tracked_rules:
  "keeps_rules env T h X c \<Longrightarrow> tracked_keeps env T h X (track c)"
  "tracked_keeps env T h X (push_container name)"
  "tracked_keeps env T h X d \<Longrightarrow> (\<And>a. tracked_keeps env T h X (k a)) \<Longrightarrow> tracked_keeps env T h X (tracked_bind d k)"
  unfolding tracked_keeps_def track_def [abs_def] push_container_def [abs_def] tracked_bind_def [abs_def]
  by (auto intro!: rules.basic split: prod.split result.split)

lemma tracked_each: "(\<And>x. tracked_keeps env T h X (f x)) \<Longrightarrow> tracked_keeps env T h X (tracked_each f xs)"
proof (induction xs)
  case (Cons x xs)
  have "tracked_keeps env T h X (tracked_bind (f x) (\<lambda>_. tracked_each f xs))"
    by (intro tracked_rules Cons)
  then show ?case by (simp add: tracked_keeps_def)
qed (simp add: tracked_keeps_def rules.pure)

lemma keeps_measure_start: "tracked_keeps env T h X (measure_start T h sample)"
  unfolding measure_start_def Let_def
  by (cases sample) (auto intro!: tracked_rules rules.bind rules.quiet_steps rules.choice rules.pure keeps_docker keeps_luhmen
      simp: removes_def disrupts_def)

lemma keeps_measure_workload: "tracked_keeps env T h X (measure_workload T h a name placement sample)"
  unfolding measure_workload_def
  by (cases sample) (auto intro!: tracked_rules rules.bind rules.quiet_steps rules.choice rules.pure keeps_docker simp: removes_def)

lemma keeps_measure_placement: "tracked_keeps env T h X (measure_placement T h a place)"
  unfolding measure_placement_def Let_def
  by (cases place) (auto intro!: tracked_rules tracked_each keeps_docker keeps_measure_workload simp: removes_def)

lemma keeps_measure_published: "tracked_keeps env T h X (measure_published T h a)"
proof -
  have "tracked_keeps env T h X (measure_http T port i)" for port i
    unfolding measure_http_def by (intro tracked_rules rules.bind rules.quiet_steps)
  then show ?thesis
    unfolding measure_published_def Let_def
    by (intro tracked_rules tracked_each rules.quiet_steps keeps_docker) (simp add: removes_def)
qed

lemma keeps_perf_inner: "tracked_keeps env T h X (perf_inner T h state a volume)"
  unfolding perf_inner_def ensure_image_def report_environment_def report_idle_def
  by (intro tracked_rules tracked_each keeps_measure_start keeps_measure_placement keeps_measure_published
      rules.basic rules.choice rules.quiet_steps rules.observe keeps_docker keeps_luhmen keeps_guest)
    (simp_all add: removes_def disrupts_def)

lemma keeps_remove_containers: "keeps_rules env T h X (remove_containers T h names)"
proof (induction names)
  case (Cons n ns)
  have "removes [''container'', ''rm'', ''--force'', name] [''container'', ''inspect'', name] [''Config'', ''Labels'', PERF_LABEL]" for name
    by (simp add: removes_def)
  then show ?case
    unfolding remove_containers.simps
    by (intro rules.bind rules.choice rules.pure Cons keeps_removal keeps_docker) (simp_all add: removes_def)
qed (simp add: rules.pure)

lemma keeps_perf_cleanup: "keeps_rules env T h X (perf_cleanup T h names volume)"
proof -
  have "removes [''volume'', ''rm'', volume] [''volume'', ''inspect'', volume] [''Labels'', PERF_LABEL]"
    by (simp add: removes_def)
  then show ?thesis
    unfolding perf_cleanup_def remove_volume_def
    by (intro rules.bind rules.choice rules.pure rules.emit keeps_remove_containers keeps_removal keeps_docker)
      (simp_all add: removes_def)
qed

section \<open>Whole runs\<close>

lemma keeps_identify: "luhmen_binary h = luhmen \<Longrightarrow> keeps_rules env T h X (identify_vm T luhmen root label_name purpose)"
  unfolding identify_vm_def
  by (intro rules.basic rules.quiet_steps keeps_run_tool)
    (auto intro!: rules.pure rules.inside_writable_mount simp: argv_tool justified_def disrupts_def split: json_type.split)

lemma identify_binary: "identify_vm T luhmen root label_name purpose env w = (Done (h, state), w') \<Longrightarrow> luhmen_binary h = luhmen"
  unfolding identify_vm_def by (auto elim!: bind_DoneE simp: return_def)

text \<open>What follows the identification keeps to the rules of the identified harness.\<close>

definition confirmed :: "vm_tools \<Rightarrow> (harness \<times> json_type \<Rightarrow> 'a io) \<Rightarrow> harness \<times> json_type \<Rightarrow> 'a io" where
  "confirmed T k found = (case found of (h, state) \<Rightarrow>
     bind (docker_text T h [''ps'', ''--all'', ''--quiet'']) (\<lambda>listed.
     after (require (listed = []) ''remove existing containers before continuing'') (k (h, state))))"

lemma bind_preflight:
  "bind (preflight T luhmen root label_name purpose) k = bind (identify_vm T luhmen root label_name purpose) (confirmed T k)"
  by (simp add: preflight_def bind_assoc case_prod_unfold confirmed_def [abs_def])

lemma keeps_confirmed: "keeps_rules env T h X (k (h, state)) \<Longrightarrow> keeps_rules env T h X (confirmed T k (h, state))"
  unfolding confirmed_def prod.case by (intro rules.bind rules.require keeps_docker_text) (simp_all add: removes_def)

abbreviation only_asks :: "string \<Rightarrow> world \<Rightarrow> world \<Rightarrow> bool" where
  "only_asks luhmen \<equiv> adds (\<lambda>c. kill_command c \<or> c = [luhmen, ''inspect'', ''--json''])"

lemma identify_only_asks: "obeys env (only_asks luhmen) (identify_vm T luhmen root label_name purpose)"
proof -
  have "obeys (never_cancelled env) (only_asks luhmen) (run_command (tool_command luhmen [''inspect'', ''--json'']) t)" for t
    by (rule runs_only.run_command) (simp add: argv_tool)
  then have "obeys env (only_asks luhmen) (\<lambda>env. run_command (tool_command luhmen [''inspect'', ''--json'']) t (never_cancelled env))" for t
    by (simp add: obeys_def)
  then have "obeys env (only_asks luhmen) (run_tool (tool_command luhmen [''inspect'', ''--json'']) True)"
    unfolding run_tool_def by (intro adds.basic)
  then show ?thesis
    unfolding identify_vm_def
    by (auto intro!: adds.basic adds.quiet_steps adds.inside_writable_mount split: json_type.split)
qed

lemma preflighted_run:
  assumes "\<And>h state. keeps_rules env T h {} (k (h, state))"
    and "bind (preflight T luhmen root label_name purpose) k env w = (r, w')"
  shows "case identify_vm T luhmen root label_name purpose env w of
      (Done (h, state), w1) \<Rightarrow> adds_during (justified env T h {}) w w'
    | _ \<Rightarrow> only_asks luhmen w w'"
proof -
  obtain s w1 where found: "identify_vm T luhmen root label_name purpose env w = (s, w1)" by fastforce
  show ?thesis
  proof (cases s)
    case (Done p)
    obtain h state where p: "p = (h, state)" by (cases p)
    have "luhmen_binary h = luhmen" using found by (auto simp: Done p dest: identify_binary)
    note before = obeysD [OF keeps_identify [OF this] found]
    have "confirmed T k (h, state) env w1 = (r, w')"
      using assms(2) found by (simp add: bind_preflight bind_def Done p)
    note later = obeysD [OF keeps_confirmed [where k = k, OF assms(1)] this]
    show ?thesis using adds_during_trans [OF widening_justified before later] by (simp add: found Done p)
  qed (use assms(2) found obeysD [OF identify_only_asks found] in \<open>auto simp: bind_preflight bind_def\<close>)
qed


text \<open>The measurements keep to the same rules: their cleanup removes a container or a volume only
  after its inspection has shown the label of this run.\<close>

theorem perf_commands_are_justified:
  assumes "perf_run a" and "perf T a env w = (r, w')"
  shows "case identify_vm T (perf_luhmen a) (perf_fixture_root a) PERF_LABEL ''luhmen-perf'' env w of
      (Done (h, state), w1) \<Rightarrow> adds_during (justified env T h {}) w w'
    | _ \<Rightarrow> only_asks (perf_luhmen a) w w'"
proof (rule preflighted_run)
  let ?k = "\<lambda>(h, state). let volume = run_id h @ ''-data'' in
    bind (perf_inner T h state a volume []) (\<lambda>(result, containers).
    bind (attempt (perf_cleanup T h containers volume)) (\<lambda>cleanup.
    case and_then result (\<lambda>_. cleanup) of
      Err e \<Rightarrow> after (emit T ''suite'' (Some ''failed'') (error_details e)) (bail e)
    | Ok _ \<Rightarrow> emit T ''suite'' (Some ''passed'') (Object [])))"
  show "bind (preflight T (perf_luhmen a) (perf_fixture_root a) PERF_LABEL ''luhmen-perf'') ?k env w = (r, w')"
    using assms by (simp add: perf_def)
  have "keeps_rules env T h {} (perf_inner T h state a volume [])" for h state volume
    using keeps_perf_inner by (simp add: tracked_keeps_def)
  then show "keeps_rules env T h {} (?k (h, state))" for h state
    unfolding prod.case Let_def case_prod_unfold
    by (auto intro!: rules.bind rules.attempt rules.pure rules.emit keeps_perf_cleanup split: result.split)
qed

section \<open>Waiting\<close>

lemma eventually_loop_outcome:
  assumes forward: "\<And>w r w'. check env w = (r, w') \<Longrightarrow> now w \<le> now w'"
  shows "eventually_loop fuel deadline check failure env w = (r, w') \<Longrightarrow> deadline \<le> now w + 500 * fuel \<Longrightarrow>
    (case r of Done _ \<Rightarrow> \<exists>w1. now w1 < deadline \<and> check env w1 = (Done (), w')
     | Failed e \<Rightarrow> deadline \<le> now w' | Crashed \<Rightarrow> True)"
proof (induction fuel arbitrary: failure w)
  case (Suc fuel)
  obtain s w1 where check: "check env w = (s, w1)" by fastforce
  show ?case
  proof (cases "now w < deadline")
    case True
    show ?thesis
    proof (cases s)
      case (Failed e)
      obtain u w2 where nap: "sleep 500 env w1 = (u, w2)" by fastforce
      have "now w + 500 \<le> now w2" using forward [OF check] nap by (auto simp: sleep_def)
      then have "deadline \<le> now w2 + 500 * fuel" using Suc(3) by simp
      moreover have "eventually_loop fuel deadline check e env w2 = (r, w')"
        using Suc(2) True by (simp add: check Failed nap)
      ultimately show ?thesis by (intro Suc(1))
    next
      case (Done u)
      then have "check env w = (Done (), w1)" using check by simp
      then show ?thesis using Suc(2) True by auto
    qed (use Suc(2) True in \<open>auto simp: check\<close>)
  qed (use Suc(2) in auto)
qed auto

text \<open>C39. Waiting for readiness always ends, and as it should: with success only by an attempt that
  succeeded and was begun before the deadline, and with an error only once the deadline has
  passed. The number of attempts allowed is never what ends it.\<close>

theorem eventually_waits_until_deadline:
  assumes "\<And>w r w'. check env w = (r, w') \<Longrightarrow> now w \<le> now w'"
    and "eventually_ok check timeout env w = (r, w')"
  shows "case r of Done _ \<Rightarrow> \<exists>w1. now w1 < now w + timeout \<and> check env w1 = (Done (), w')
     | Failed e \<Rightarrow> now w + timeout \<le> now w' | Crashed \<Rightarrow> True"
  by (rule eventually_loop_outcome [OF assms(1) assms(2) [unfolded eventually_ok_def]]) auto

theorem eventually_waits_until_deadline_witness:
  "1000 \<le> now (snd (eventually_ok (bail ''not ready'') 1000 quiet empty_world))"
proof -
  have "fst (eventually_ok (bail ''not ready'') 1000 quiet empty_world) = Failed ''not ready''" by code_simp
  moreover have "now w \<le> now w'" if "bail ''not ready'' quiet w = (r, w')" for w w' and r :: "unit outcome"
    using that by (simp add: bail_def)
  ultimately show ?thesis
    using eventually_waits_until_deadline [of "bail ''not ready''" quiet 1000 empty_world, OF _ surjective_pairing]
    by (simp add: empty_world_def)
qed

section \<open>A sample VM\<close>

definition sample_tools :: vm_tools where
  "sample_tools = \<lparr>read_json = \<lambda>s.
       if s = ''state'' then Some (object
         [(''schema_version'', Numeral ''1''), (''name'', Str ''luhmen''), (''context'', Str ''luhmen''), (''state'', Str ''Running''),
          (''context_ready'', Boolean True), (''engine_ready'', Boolean True), (''endpoint'', Str ''unix:///v/sock/docker.sock''),
          (''vm'', object [(''name'', Str ''luhmen''), (''vmType'', Str ''vz''), (''arch'', Str ''aarch64''), (''dir'', Str ''/v'')]),
          (''config'', object [(''mounts'', Array [object [(''path'', Str ''/m''), (''writable'', Boolean True)]])])])
       else if s = ''contexts'' then Some (Array [object
         [(''Name'', Str ''luhmen''), (''Endpoints'', object [(''docker'', object [(''Host'', Str ''unix:///v/sock/docker.sock'')])]),
          (''Metadata'', object [(''Description'', Str HARNESS_DESCRIPTION)])]])
       else None,
     compact_json = \<lambda>_. ''{}'', pretty_json = \<lambda>_. Some ''{}'', sha256 = \<lambda>_. replicate 32 7, nanoseconds = id,
     seconds_text = decimal, free_port = \<lambda>_. Ok 8080, watcher_output = \<lambda>_. Ok [], docker_override = None,
     host_os = ''macos'', host_arch = ''aarch64''\<rparr>"

definition sample_vm :: environment where
  "sample_vm = quiet\<lparr>happenings := \<lambda>_ argv _.
     [Out_Chunk (Some (if argv = [''luhmen'', ''inspect'', ''--json''] then ''state''
        else if argv = [''docker'', ''context'', ''inspect'', ''luhmen''] then ''contexts'' else [])),
      Out_Chunk (Some []), Err_Chunk (Some [])]\<rparr>"

definition sample_mount :: world where
  "sample_mount = empty_world\<lparr>files := [''/m'' \<mapsto> Directory 493]\<rparr>"

definition sample_smoke :: smoke_args where
  "sample_smoke = \<lparr>smoke_run = True, smoke_fixture_root = ''/m'', smoke_luhmen = ''luhmen'', with_recovery = False,
     with_watchers = False, with_slow_shutdown = False\<rparr>"

lemma sample_identified:
  "is_ok (case fst (identify_vm sample_tools ''luhmen'' ''/m'' SMOKE_LABEL ''luhmen-check'' sample_vm sample_mount)
     of Done found \<Rightarrow> Ok () | _ \<Rightarrow> Err ())"
  by code_simp


end
