(* ===== verification/Devtool.thy ===== *)
theory Devtool
  imports Distribution_Facts Vm_Harness_Safety
begin

text \<open>
  The development tool after argument parsing (src/src/bin/luhmen-devtool.rs): which tool an action
  runs and the lines it prints itself on standard output and standard error.
\<close>

datatype devtool_action =
    Build_Release "string option"
  | Check_Source
  | Collect_Licenses string "string option"
  | Check_Cargo_Package "string list"
  | Make_Release string
  | Vm_Smoke smoke_args
  | Vm_Perf perf_args

fun check_archives :: "dist_tools \<Rightarrow> string list \<Rightarrow> string list io" where
  "check_archives D [] = return []"
| "check_archives D (archive # archives) =
     bind (check_cargo_package D archive) (\<lambda>entries.
     bind (check_archives D archives) (\<lambda>later.
     return ((''Cargo archive inventory passed: '' @ archive @ '' ('' @ decimal entries @ '' entries).'') # later)))"

fun devtool :: "dist_tools \<Rightarrow> vm_tools \<Rightarrow> string option \<Rightarrow> devtool_action \<Rightarrow> (string list \<times> string list) io" where
  "devtool D T target_variable (Build_Release target) =
     (let repo = manifest_dir D;
          target_dir = (case target_variable of Some p \<Rightarrow> p | None \<Rightarrow> path_join repo ''target'') in
      bind (build_release D repo target_dir target) (\<lambda>(binary, _).
      return ([binary], [''Built luhmen with local source paths remapped.''])))"
| "devtool D T target_variable Check_Source = after (check_source D) (return ([], []))"
| "devtool D T target_variable (Collect_Licenses place target) = after (collect_licenses D place target) (return ([], []))"
| "devtool D T target_variable (Check_Cargo_Package archives) =
     bind (check_archives D archives) (\<lambda>printed. return (printed, []))"
| "devtool D T target_variable (Make_Release place) = after (release D place) (return ([], []))"
| "devtool D T target_variable (Vm_Smoke a) = after (smoke T a) (return ([], []))"
| "devtool D T target_variable (Vm_Perf a) = after (perf T a) (return ([], []))"

end
