(* ===== verification/Spec2Isabelle.thy ===== *)
theory Spec2Isabelle
  imports Guest_Safety Cancel Storage Base64 Gateway_Server Gateway_Connection Gateway_Cli Devtool
begin

text \<open>
  Verification of luhmen, a CLI that runs Docker Engine in a dedicated Lima VM.
\<close>

end
